(* ===== verification/Ebb_Prelude.thy ===== *)
theory Ebb_Prelude
  imports Main "HOL-Library.Word"
begin

text \<open>
  The shared vocabulary of the development: Rust's machine integers, \<open>Result\<close> and its
  \<open>?\<close> operator, the parts of \<open>std\<close>'s string library that the client uses, the big-endian
  bytes of a \<open>u32\<close>, and the generic list lemmas the component proofs rest on.

  A Rust \<open>String\<close> is a HOL \<open>string\<close> in which a \<open>char\<close> is one Unicode scalar value of the range
  U+0000 to U+00FF. White space, lower case and UTF-8 lengths are those of that range.
\<close>

unbundle bit_operations_syntax

section \<open>Machine integers and results\<close>

type_synonym u8 = "8 word"
type_synonym u16 = "16 word"
type_synonym u32 = "32 word"
type_synonym usize = "64 word"
type_synonym millis = nat

text \<open>A \<open>Result<'a, 'e>\<close> is \<open>'e + 'a\<close>, with \<open>Err\<close> on the left.\<close>

type_synonym ('a, 'e) result = "'e + 'a"

abbreviation Ok :: "'a \<Rightarrow> 'e + 'a" where "Ok \<equiv> Inr"
abbreviation Err :: "'e \<Rightarrow> 'e + 'a" where "Err \<equiv> Inl"

text \<open>The development's simplification collections, for running the model on a concrete input:
  \<open>ebb_run\<close> unfolds an update of the daemon, \<open>ebb_files\<close> the reading of the files.\<close>

named_theorems ebb_run "definitions unfolded to run an update of the daemon"
named_theorems ebb_files "definitions unfolded to read the configuration files"

definition and_then :: "'e + 'a \<Rightarrow> ('a \<Rightarrow> 'e + 'b) \<Rightarrow> 'e + 'b" where
  "and_then r f = (case r of Inl e \<Rightarrow> Inl e | Inr x \<Rightarrow> f x)"

definition map_err :: "('e \<Rightarrow> 'f) \<Rightarrow> 'e + 'a \<Rightarrow> 'f + 'a" where
  "map_err g r = (case r of Inl e \<Rightarrow> Inl (g e) | Inr x \<Rightarrow> Inr x)"

definition ok_or :: "'e \<Rightarrow> 'a option \<Rightarrow> 'e + 'a" where
  "ok_or e r = (case r of None \<Rightarrow> Inl e | Some x \<Rightarrow> Inr x)"

definition unwrap_or :: "'a option \<Rightarrow> 'a \<Rightarrow> 'a" where
  "unwrap_or r d = (case r of None \<Rightarrow> d | Some x \<Rightarrow> x)"

lemma and_then_simps [simp]:
  "and_then (Inl e) f = Inl e" "and_then (Inr x) f = f x"
  by (simp_all add: and_then_def)

lemma and_then_Inr_iff: "and_then r f = Inr y \<longleftrightarrow> (\<exists>x. r = Inr x \<and> f x = Inr y)"
  by (cases r) auto

lemma and_then_Inl_iff:
  "and_then r f = Inl e \<longleftrightarrow> r = Inl e \<or> (\<exists>x. r = Inr x \<and> f x = Inl e)"
  by (cases r) auto

lemma map_err_simps [simp]:
  "map_err g (Inl e) = Inl (g e)" "map_err g (Inr x) = Inr x"
  by (simp_all add: map_err_def)

lemma map_err_Inr_iff [simp]: "map_err g r = Inr x \<longleftrightarrow> r = Inr x"
  by (cases r) auto

lemma ok_or_simps [simp]:
  "ok_or e None = Inl e" "ok_or e (Some x) = Inr x"
  by (simp_all add: ok_or_def)

lemma ok_or_Inr_iff [simp]: "ok_or e r = Inr x \<longleftrightarrow> r = Some x"
  by (cases r) auto

lemma ok_or_Inl_iff: "ok_or e r = Inl e' \<longleftrightarrow> r = None \<and> e' = e"
  by (cases r) auto

lemma unwrap_or_simps [simp]:
  "unwrap_or None d = d" "unwrap_or (Some x) d = x"
  by (simp_all add: unwrap_or_def)

section \<open>Strings\<close>

text \<open>\<open>char::is_whitespace\<close> on U+0000 to U+00FF: tab to carriage return, space, U+0085, U+00A0.\<close>

definition is_whitespace :: "char \<Rightarrow> bool" where
  "is_whitespace c = (let n = (of_char c :: nat) in
     (9 \<le> n \<and> n \<le> 13) \<or> n = 32 \<or> n = 133 \<or> n = 160)"

definition trim_end_pred :: "(char \<Rightarrow> bool) \<Rightarrow> string \<Rightarrow> string" where
  "trim_end_pred P s = rev (dropWhile P (rev s))"

text \<open>\<open>str::trim\<close> and \<open>str::trim_end_matches\<close> with a \<open>char\<close> pattern.\<close>

definition trim :: "string \<Rightarrow> string" where
  "trim s = trim_end_pred is_whitespace (dropWhile is_whitespace s)"

definition trim_end_matches :: "string \<Rightarrow> char \<Rightarrow> string" where
  "trim_end_matches s c = trim_end_pred (\<lambda>x. x = c) s"

text \<open>\<open>str::to_lowercase\<close> on U+0000 to U+00FF: A to Z, and U+00C0 to U+00DE except U+00D7.\<close>

definition char_to_lower :: "char \<Rightarrow> char" where
  "char_to_lower c = (let n = (of_char c :: nat) in
     if (65 \<le> n \<and> n \<le> 90) \<or> (192 \<le> n \<and> n \<le> 222 \<and> n \<noteq> 215) then char_of (n + 32) else c)"

definition to_lowercase :: "string \<Rightarrow> string" where
  "to_lowercase s = map char_to_lower s"

text \<open>\<open>String::len\<close> counts UTF-8 bytes: one below U+0080, two from there to U+00FF.\<close>

definition utf8_len :: "string \<Rightarrow> nat" where
  "utf8_len s = sum_list (map (\<lambda>c. if (of_char c :: nat) < 128 then 1 else 2) s)"

text \<open>The \<open>{:width$}\<close> format of a string: padded with spaces on the right to \<open>width\<close> characters.\<close>

definition pad :: "nat \<Rightarrow> string \<Rightarrow> string" where
  "pad width s = s @ replicate (width - length s) (CHR '' '')"

definition tab :: string where "tab = [char_of (9::nat)]"

fun show_nat :: "nat \<Rightarrow> string" where
  "show_nat n = (if n < 10 then [char_of (48 + n)]
                 else show_nat (n div 10) @ [char_of (48 + n mod 10)])"

declare show_nat.simps [simp del]

definition show_u16 :: "u16 \<Rightarrow> string" where
  "show_u16 w = show_nat (unat w)"

definition show_bool :: "bool \<Rightarrow> string" where
  "show_bool b = (if b then ''true'' else ''false'')"

lemma trim_end_pred_idem: "trim_end_pred P (trim_end_pred P s) = trim_end_pred P s"
  by (simp add: trim_end_pred_def dropWhile_idem)

lemma trim_end_pred_last: "trim_end_pred P s \<noteq> [] \<Longrightarrow> \<not> P (last (trim_end_pred P s))"
  by (simp add: trim_end_pred_def last_rev hd_dropWhile)

lemma trim_end_pred_append:
  "\<exists>zs. s = trim_end_pred P s @ zs \<and> list_all P zs"
proof (intro exI conjI)
  have "rev s = takeWhile P (rev s) @ dropWhile P (rev s)" by simp
  then show "s = trim_end_pred P s @ rev (takeWhile P (rev s))"
    by (metis trim_end_pred_def rev_append rev_rev_ident)
  show "list_all P (rev (takeWhile P (rev s)))"
    by (auto simp: list_all_iff dest: set_takeWhileD)
qed

lemma dropWhile_hd: "\<not> P x \<Longrightarrow> dropWhile P (x # xs) = x # xs"
  by simp

lemma trim_end_pred_hd: "trim_end_pred P s \<noteq> [] \<Longrightarrow> hd (trim_end_pred P s) = hd s"
  using trim_end_pred_append [of s P] by (metis hd_append2)

lemma trim_Nil [simp]: "trim [] = []"
  by (simp add: trim_def trim_end_pred_def)

lemma trim_idem [simp]: "trim (trim s) = trim s"
proof (cases "trim s = []")
  case True
  then show ?thesis by simp
next
  case False
  let ?d = "dropWhile is_whitespace s"
  from False have ne: "?d \<noteq> []" by (metis trim_def trim_Nil dropWhile.simps(1))
  have "hd (trim s) = hd ?d"
    using False by (simp add: trim_def trim_end_pred_hd)
  with ne have "\<not> is_whitespace (hd (trim s))" by (simp add: hd_dropWhile)
  with False have "dropWhile is_whitespace (trim s) = trim s" by (cases "trim s") auto
  then have "trim (trim s) = trim_end_pred is_whitespace (trim s)"
    by (simp add: trim_def [of "trim s"])
  then show ?thesis by (simp add: trim_def trim_end_pred_idem)
qed

section \<open>Decimal numbers\<close>

text \<open>Reading what \<open>show_nat\<close> prints: the value of a run of decimal digits.\<close>

definition is_digit :: "char \<Rightarrow> bool" where
  "is_digit c = (let n = (of_char c :: nat) in 48 \<le> n \<and> n \<le> 57)"

definition digits_val :: "string \<Rightarrow> nat" where
  "digits_val s = foldl (\<lambda>a c. 10 * a + (of_char c - 48)) 0 s"

lemma of_char_digit: "d < 10 \<Longrightarrow> (of_char (char_of (48 + d) :: char) :: nat) = 48 + d"
  by (simp add: of_char_of)

lemma digits_val_snoc: "digits_val (s @ [c]) = 10 * digits_val s + (of_char c - 48)"
  by (simp add: digits_val_def)

lemma digits_val_show_nat [simp]: "digits_val (show_nat n) = n"
proof (induction n rule: show_nat.induct)
  case (1 n)
  show ?case
  proof (cases "n < 10")
    case True
    then show ?thesis by (subst show_nat.simps) (simp add: digits_val_def of_char_digit)
  next
    case False
    with 1 show ?thesis
      by (subst show_nat.simps) (simp add: digits_val_snoc of_char_digit)
  qed
qed

lemma show_nat_digits: "list_all is_digit (show_nat n)"
proof (induction n rule: show_nat.induct)
  case (1 n)
  have dig: "is_digit (char_of (48 + d))" if "d < 10" for d :: nat
    using that by (simp add: is_digit_def of_char_digit)
  show ?case using 1 by (subst show_nat.simps) (simp add: dig)
qed

lemma show_nat_neq_Nil [simp]: "show_nat n \<noteq> []"
  by (subst show_nat.simps) simp

lemma show_nat_inject [simp]: "show_nat m = show_nat n \<longleftrightarrow> m = n"
  by (metis digits_val_show_nat)

section \<open>Big-endian bytes of a \<open>u32\<close>\<close>

definition to_be_bytes :: "u32 \<Rightarrow> u8 list" where
  "to_be_bytes w = [ucast (drop_bit 24 w), ucast (drop_bit 16 w), ucast (drop_bit 8 w), ucast w]"

text \<open>\<open>u32::from_be_bytes\<close> takes a \<open>[u8; 4]\<close>; the second equation is never reached.\<close>

fun from_be_bytes :: "u8 list \<Rightarrow> u32" where
  "from_be_bytes [a, b, c, d] =
     push_bit 24 (ucast a) OR push_bit 16 (ucast b) OR push_bit 8 (ucast c) OR ucast d"
| "from_be_bytes _ = 0"

lemma length_to_be_bytes [simp]: "length (to_be_bytes w) = 4"
  by (simp add: to_be_bytes_def)

lemma from_to_be_bytes [simp]: "from_be_bytes (to_be_bytes w) = w"
proof -
  have "bit (from_be_bytes (to_be_bytes w)) n = bit w n" if "n < 32" for n
  proof -
    consider "n < 8" | "8 \<le> n" "n < 16" | "16 \<le> n" "n < 24" | "24 \<le> n"
      using that by linarith
    then show ?thesis using that by cases (auto simp: to_be_bytes_def bit_simps)
  qed
  then show ?thesis by (intro bit_word_eqI) simp
qed

lemma bit_u8_ge: "8 \<le> m \<Longrightarrow> \<not> bit (a :: u8) m"
  by (auto dest: bit_imp_le_length)

lemma to_from_be_bytes: "length bs = 4 \<Longrightarrow> to_be_bytes (from_be_bytes bs) = bs"
proof -
  assume "length bs = 4"
  then obtain a b c d where bs: "bs = [a, b, c, d]"
    by (auto simp: numeral_eq_Suc length_Suc_conv)
  show ?thesis
    unfolding bs by (auto simp: to_be_bytes_def bit_simps bit_u8_ge intro!: bit_word_eqI)
qed

lemma to_be_bytes_inject [simp]: "to_be_bytes v = to_be_bytes w \<longleftrightarrow> v = w"
  by (metis from_to_be_bytes)

section \<open>Lists and association lists\<close>

lemma take_Cons_take: "take n (x # take n xs) = take n (x # xs)"
  by (cases n) (simp_all add: min_def)

lemma takeWhile_take_length:
  "length (takeWhile P (take n xs)) = min n (length (takeWhile P xs))"
  by (induction xs arbitrary: n) (auto simp: take_Cons split: nat.splits)

text \<open>A hash map is an association list with distinct keys, in its (unspecified) iteration order.
  \<open>entry_insert\<close> overwrites the value of a present key in place and adds an absent key.\<close>

fun entry_insert :: "'k \<Rightarrow> 'v \<Rightarrow> ('k \<times> 'v) list \<Rightarrow> ('k \<times> 'v) list" where
  "entry_insert k v [] = [(k, v)]"
| "entry_insert k v ((k', v') # xs) =
     (if k = k' then (k, v) # xs else (k', v') # entry_insert k v xs)"

lemma map_of_entry_insert [simp]: "map_of (entry_insert k v xs) = (map_of xs)(k \<mapsto> v)"
  by (induction xs) (auto simp: fun_eq_iff)

lemma set_fst_entry_insert [simp]: "fst ` set (entry_insert k v xs) = insert k (fst ` set xs)"
  by (induction k v xs rule: entry_insert.induct) (simp_all add: insert_commute)

lemma distinct_entry_insert [simp]:
  "distinct (map fst xs) \<Longrightarrow> distinct (map fst (entry_insert k v xs))"
  by (induction k v xs rule: entry_insert.induct) simp_all

lemma set_entry_insert: "set (entry_insert k v xs) \<subseteq> insert (k, v) (set xs)"
  by (induction k v xs rule: entry_insert.induct) auto

lemma entry_insert_same:
  "map_of xs k = Some v \<Longrightarrow> entry_insert k v xs = xs"
  by (induction xs) (auto split: if_splits)

section \<open>Step relations\<close>

text \<open>The contract of a step relation and its invariant, for the state machines of the components.\<close>

locale step_invariant =
  fixes step :: "'s \<Rightarrow> 's \<Rightarrow> bool" and inv :: "'s \<Rightarrow> bool"
  assumes inv_kept: "inv S \<Longrightarrow> step S S' \<Longrightarrow> inv S'"
begin

lemma inv_reached: "step\<^sup>*\<^sup>* S S' \<Longrightarrow> inv S \<Longrightarrow> inv S'"
  by (induction rule: rtranclp_induct) (auto intro: inv_kept)

end

end
