(* ===== verification/Messaging.thy ===== *)
theory Messaging
  imports Ebb_Prelude
begin

text \<open>
  The wire messages of \<open>src/src/messaging.rs\<close>: the message type, its identifiers, its frames
  (length, identifier, payload) and the parser of a frame's body.

  Payloads are CBOR, written and read by the \<open>serde_cbor\<close> crate. That crate is a parameter: a
  record of the writer and the reader of each payload type. \<open>cbor_roundtrip\<close> is what the code
  relies on: a reader gives back the value its writer wrote.
\<close>

section \<open>Message types\<close>

datatype message_error = Parse | UnknownMessage | Internal string

datatype endpoint_type = EtSsh | EtTls

record hello_v0 =
  hello_key :: string
  hello_endpoint_type :: endpoint_type
  hello_endpoint_value :: string
  hello_meta :: "string \<rightharpoonup> string"

datatype enable_disable_target =
    AllEverything
  | AllEndpoints
  | TargetSsh
  | SpecificEndpoints "string list"

record enable_disable_request_v0 =
  edr_should_be_running :: bool
  edr_target :: enable_disable_target

record status_v0 =
  st_endpoint_type :: endpoint_type
  st_endpoint_value :: string
  st_enabled :: bool

record status_response_v0 =
  sr_statuses :: "status_v0 list"

datatype hello_response_issue = IssueNotFound | IssueForbidden | IssueBadRequest

record hello_response_v0 =
  hr_issue :: "hello_response_issue option"

record start_traffic_response_v0 =
  open_local_success_ready :: bool

datatype message =
    HelloV0 hello_v0
  | StatusRequestV0
  | StatusResponseV0 status_response_v0
  | EnableDisableRequestV0 enable_disable_request_v0
  | EnableDisableResponseV0
  | HelloResponseV0 hello_response_v0
  | StartTrafficV0
  | StartTrafficResponseV0 start_traffic_response_v0

text \<open>\<open>VERSION\<close> is the package version, which \<open>Cargo.toml\<close> sets.\<close>

definition VERSION :: string where "VERSION = ''1.1.0''"

definition hello_new :: "string \<Rightarrow> endpoint_type \<Rightarrow> string \<Rightarrow> hello_v0" where
  "hello_new key endpoint e =
     \<lparr>hello_key = key, hello_endpoint_type = endpoint, hello_endpoint_value = e,
      hello_meta = [''version'' \<mapsto> VERSION]\<rparr>"

section \<open>The payload codec\<close>

record cbor =
  hello_to_vec :: "hello_v0 \<Rightarrow> u8 list option"
  hello_from_slice :: "u8 list \<Rightarrow> hello_v0 option"
  status_to_vec :: "status_response_v0 \<Rightarrow> u8 list option"
  status_from_slice :: "u8 list \<Rightarrow> status_response_v0 option"
  request_to_vec :: "enable_disable_request_v0 \<Rightarrow> u8 list option"
  request_from_slice :: "u8 list \<Rightarrow> enable_disable_request_v0 option"
  response_to_vec :: "hello_response_v0 \<Rightarrow> u8 list option"
  response_from_slice :: "u8 list \<Rightarrow> hello_response_v0 option"
  traffic_to_vec :: "start_traffic_response_v0 \<Rightarrow> u8 list option"
  traffic_from_slice :: "u8 list \<Rightarrow> start_traffic_response_v0 option"

definition codec_roundtrip :: "('a \<Rightarrow> u8 list option) \<Rightarrow> (u8 list \<Rightarrow> 'a option) \<Rightarrow> bool" where
  "codec_roundtrip to_vec from_slice \<longleftrightarrow> (\<forall>x bs. to_vec x = Some bs \<longrightarrow> from_slice bs = Some x)"

definition cbor_roundtrip :: "cbor \<Rightarrow> bool" where
  "cbor_roundtrip cb \<longleftrightarrow>
     codec_roundtrip (hello_to_vec cb) (hello_from_slice cb) \<and>
     codec_roundtrip (status_to_vec cb) (status_from_slice cb) \<and>
     codec_roundtrip (request_to_vec cb) (request_from_slice cb) \<and>
     codec_roundtrip (response_to_vec cb) (response_from_slice cb) \<and>
     codec_roundtrip (traffic_to_vec cb) (traffic_from_slice cb)"

section \<open>Frames\<close>

fun message_id :: "message \<Rightarrow> u32" where
  "message_id (HelloV0 _) = 1"
| "message_id StatusRequestV0 = 2"
| "message_id (StatusResponseV0 _) = 3"
| "message_id (EnableDisableRequestV0 _) = 4"
| "message_id EnableDisableResponseV0 = 5"
| "message_id (HelloResponseV0 _) = 6"
| "message_id StartTrafficV0 = 7"
| "message_id (StartTrafficResponseV0 _) = 8"

text \<open>A failed conversion is \<open>MessageError::Parse\<close>, by \<open>From<serde_cbor::Error>\<close>.\<close>

definition from_serde :: "'a option \<Rightarrow> message_error + 'a" where
  "from_serde r = ok_or Parse r"

fun payload :: "cbor \<Rightarrow> message \<Rightarrow> message_error + u8 list" where
  "payload cb (HelloV0 x) = from_serde (hello_to_vec cb x)"
| "payload cb StatusRequestV0 = Ok []"
| "payload cb (StatusResponseV0 x) = from_serde (status_to_vec cb x)"
| "payload cb (EnableDisableRequestV0 x) = from_serde (request_to_vec cb x)"
| "payload cb EnableDisableResponseV0 = Ok []"
| "payload cb (HelloResponseV0 x) = from_serde (response_to_vec cb x)"
| "payload cb StartTrafficV0 = Ok []"
| "payload cb (StartTrafficResponseV0 x) = from_serde (traffic_to_vec cb x)"

text \<open>The length is computed in \<open>u32\<close> arithmetic, as in a release build.\<close>

definition to_wire_message :: "cbor \<Rightarrow> message \<Rightarrow> message_error + u8 list" where
  "to_wire_message cb m =
     and_then (payload cb m) (\<lambda>pl.
       let mid = to_be_bytes (message_id m);
           len = (of_nat (length mid) + of_nat (length pl) :: u32)
       in Ok (to_be_bytes len @ mid @ pl))"

definition from_wire_without_the_length_prefix :: "cbor \<Rightarrow> u8 list \<Rightarrow> message_error + message" where
  "from_wire_without_the_length_prefix cb buf =
     (if length buf < 4 then Err Parse
      else let messageid = from_be_bytes (take 4 buf); pl = drop 4 buf in
        if messageid = 1 then and_then (from_serde (hello_from_slice cb pl)) (\<lambda>x. Ok (HelloV0 x))
        else if messageid = 2 then Ok StatusRequestV0
        else if messageid = 3 then
          and_then (from_serde (status_from_slice cb pl)) (\<lambda>x. Ok (StatusResponseV0 x))
        else if messageid = 4 then
          and_then (from_serde (request_from_slice cb pl)) (\<lambda>x. Ok (EnableDisableRequestV0 x))
        else if messageid = 5 then Ok EnableDisableResponseV0
        else if messageid = 6 then
          and_then (from_serde (response_from_slice cb pl)) (\<lambda>x. Ok (HelloResponseV0 x))
        else if messageid = 7 then Ok StartTrafficV0
        else if messageid = 8 then
          and_then (from_serde (traffic_from_slice cb pl)) (\<lambda>x. Ok (StartTrafficResponseV0 x))
        else Err UnknownMessage)"

section \<open>Lemmas on frames\<close>

lemma from_serde_simps [simp]:
  "from_serde None = Inl Parse" "from_serde (Some x) = Inr x"
  by (simp_all add: from_serde_def)

lemma from_serde_Inr_iff [simp]: "from_serde r = Inr x \<longleftrightarrow> r = Some x"
  by (cases r) auto

lemma from_serde_Inl_iff [simp]: "from_serde r = Inl e \<longleftrightarrow> r = None \<and> e = Parse"
  by (cases r) auto

text \<open>The parser after a well-formed identifier, one equation per message type.\<close>

lemma from_wire_id:
  "from_wire_without_the_length_prefix cb (to_be_bytes i @ pl) =
     (if i = 1 then and_then (from_serde (hello_from_slice cb pl)) (\<lambda>x. Ok (HelloV0 x))
      else if i = 2 then Ok StatusRequestV0
      else if i = 3 then and_then (from_serde (status_from_slice cb pl)) (\<lambda>x. Ok (StatusResponseV0 x))
      else if i = 4 then
        and_then (from_serde (request_from_slice cb pl)) (\<lambda>x. Ok (EnableDisableRequestV0 x))
      else if i = 5 then Ok EnableDisableResponseV0
      else if i = 6 then
        and_then (from_serde (response_from_slice cb pl)) (\<lambda>x. Ok (HelloResponseV0 x))
      else if i = 7 then Ok StartTrafficV0
      else if i = 8 then
        and_then (from_serde (traffic_from_slice cb pl)) (\<lambda>x. Ok (StartTrafficResponseV0 x))
      else Err UnknownMessage)"
  by (simp add: from_wire_without_the_length_prefix_def)

lemma wire_body_split:
  assumes "4 \<le> length buf"
  obtains i pl where "buf = to_be_bytes i @ pl"
proof
  have "to_be_bytes (from_be_bytes (take 4 buf)) = take 4 buf"
    using assms by (intro to_from_be_bytes) simp
  then show "buf = to_be_bytes (from_be_bytes (take 4 buf)) @ drop 4 buf" by simp
qed

lemma from_wire_payload:
  assumes "cbor_roundtrip cb" and "payload cb m = Inr pl"
  shows "from_wire_without_the_length_prefix cb (to_be_bytes (message_id m) @ pl) = Ok m"
  unfolding from_wire_id using assms
  by (cases m) (auto simp: cbor_roundtrip_def codec_roundtrip_def)

lemma to_wire_message_Inr_iff:
  "to_wire_message cb m = Inr bs \<longleftrightarrow>
     (\<exists>pl. payload cb m = Inr pl \<and>
        bs = to_be_bytes (of_nat (4 + length pl)) @ to_be_bytes (message_id m) @ pl)"
  by (auto simp: to_wire_message_def and_then_Inr_iff Let_def)

text \<open>The payload bytes that carry a message, by its type.\<close>

fun carries :: "cbor \<Rightarrow> message \<Rightarrow> u8 list \<Rightarrow> bool" where
  "carries cb (HelloV0 x) pl = (hello_from_slice cb pl = Some x)"
| "carries cb StatusRequestV0 pl = True"
| "carries cb (StatusResponseV0 x) pl = (status_from_slice cb pl = Some x)"
| "carries cb (EnableDisableRequestV0 x) pl = (request_from_slice cb pl = Some x)"
| "carries cb EnableDisableResponseV0 pl = True"
| "carries cb (HelloResponseV0 x) pl = (response_from_slice cb pl = Some x)"
| "carries cb StartTrafficV0 pl = True"
| "carries cb (StartTrafficResponseV0 x) pl = (traffic_from_slice cb pl = Some x)"

lemma from_wire_Inr_iff:
  "from_wire_without_the_length_prefix cb (to_be_bytes i @ pl) = Inr m \<longleftrightarrow> message_id m = i \<and> carries cb m pl"
  by (cases m) (auto simp: from_wire_id and_then_Inr_iff)

lemma from_wire_Inl_unknown:
  "from_wire_without_the_length_prefix cb (to_be_bytes i @ pl) = Inl UnknownMessage
     \<longleftrightarrow> i \<notin> {1, 2, 3, 4, 5, 6, 7, 8}"
  by (auto simp: from_wire_id and_then_Inl_iff)

lemma from_wire_no_internal:
  "from_wire_without_the_length_prefix cb buf \<noteq> Inl (Internal s)"
  by (auto simp: from_wire_without_the_length_prefix_def Let_def and_then_Inl_iff)

section \<open>Properties\<close>

text \<open>C15. Encoding then decoding: if the payload codec round-trips, the body of the frame that
  \<open>to_wire_message\<close> builds for a message, which is the frame without its four length bytes,
  is parsed back to that same message.\<close>

theorem wire_roundtrip:
  assumes "cbor_roundtrip cb" and "to_wire_message cb m = Ok bs"
  shows "from_wire_without_the_length_prefix cb (drop 4 bs) = Ok m"
  using assms(2) from_wire_payload [OF assms(1)] by (auto simp: to_wire_message_Inr_iff)

text \<open>The codec of the witnesses: it writes one fixed value of each payload type.\<close>

definition demo_hello :: hello_v0 where
  "demo_hello = hello_new ''k'' EtTls ''example.com''"

definition one_value :: "'a \<Rightarrow> u8 list \<Rightarrow> ('a \<Rightarrow> u8 list option)" where
  "one_value v bs x = (if x = v then Some bs else None)"

definition one_parse :: "'a \<Rightarrow> u8 list \<Rightarrow> (u8 list \<Rightarrow> 'a option)" where
  "one_parse v bs b = (if b = bs then Some v else None)"

definition bool_bytes :: "bool \<Rightarrow> u8 list" where
  "bool_bytes b = [if b then 0xF5 else 0xF4]"

definition demo_cbor :: cbor where
  "demo_cbor = \<lparr>
     hello_to_vec = one_value demo_hello [1, 2, 3], hello_from_slice = one_parse demo_hello [1, 2, 3],
     status_to_vec = (\<lambda>_. None), status_from_slice = (\<lambda>_. None),
     request_to_vec = (\<lambda>_. None), request_from_slice = (\<lambda>_. None),
     response_to_vec = one_value \<lparr>hr_issue = None\<rparr> [9],
     response_from_slice = one_parse \<lparr>hr_issue = None\<rparr> [9],
     traffic_to_vec = (\<lambda>x. Some (bool_bytes (open_local_success_ready x))),
     traffic_from_slice = (\<lambda>b. if b = [0xF5] then Some \<lparr>open_local_success_ready = True\<rparr>
        else if b = [0xF4] then Some \<lparr>open_local_success_ready = False\<rparr> else None)\<rparr>"

lemma demo_cbor_roundtrip: "cbor_roundtrip demo_cbor"
  by (auto simp: cbor_roundtrip_def codec_roundtrip_def demo_cbor_def one_value_def one_parse_def
      bool_bytes_def split: if_splits)

lemma demo_wire_hello:
  "to_wire_message demo_cbor (HelloV0 demo_hello) = Ok [0, 0, 0, 7, 0, 0, 0, 1, 1, 2, 3]"
  by (simp add: to_wire_message_def demo_cbor_def one_value_def Let_def to_be_bytes_def)

theorem wire_roundtrip_witness:
  "from_wire_without_the_length_prefix demo_cbor (drop 4 [0, 0, 0, 7, 0, 0, 0, 1, 1, 2, 3])
     = Ok (HelloV0 demo_hello)"
  by (rule wire_roundtrip [OF demo_cbor_roundtrip demo_wire_hello])

text \<open>The length prefix: a frame is at least eight bytes long, and while the frame is shorter
  than 4 GiB (so that the 32-bit length does not wrap) its first four bytes, read back as a
  big-endian \<open>u32\<close>, are the number of bytes that follow them.\<close>

theorem wire_length_prefix:
  assumes "to_wire_message cb m = Ok bs" and "length bs < 2 ^ 32"
  shows "8 \<le> length bs \<and> unat (from_be_bytes (take 4 bs)) = length bs - 4"
proof -
  from assms(1) obtain pl where
    bs: "bs = to_be_bytes (of_nat (4 + length pl)) @ to_be_bytes (message_id m) @ pl"
    by (auto simp: to_wire_message_Inr_iff)
  from assms(2) bs have "unat (of_nat (4 + length pl) :: u32) = 4 + length pl"
    by (simp only: unat_of_nat) simp
  then show ?thesis by (simp add: bs)
qed

theorem wire_length_prefix_witness:
  "8 \<le> length ([0, 0, 0, 7, 0, 0, 0, 1, 1, 2, 3] :: u8 list) \<and>
   unat (from_be_bytes (take 4 [0, 0, 0, 7, 0, 0, 0, 1, 1, 2, 3]))
     = length ([0, 0, 0, 7, 0, 0, 0, 1, 1, 2, 3] :: u8 list) - 4"
  by (rule wire_length_prefix [OF demo_wire_hello]) simp

text \<open>C33. What the parser accepts and refuses, exactly: a body gives a message when it has four bytes, they
  are the message's identifier and what follows is its payload; it is \<open>UnknownMessage\<close> when it has four
  bytes and they are none of the identifiers 1 to 8; and it is \<open>Parse\<close> when it is shorter or has a known
  identifier but the payload of no message of that type. There is no other outcome.\<close>

theorem from_wire_outcomes:
  "(from_wire_without_the_length_prefix cb buf = Ok m \<longleftrightarrow>
      4 \<le> length buf \<and> message_id m = from_be_bytes (take 4 buf) \<and> carries cb m (drop 4 buf)) \<and>
   (from_wire_without_the_length_prefix cb buf = Err e \<longleftrightarrow>
      (if 4 \<le> length buf \<and> from_be_bytes (take 4 buf) \<notin> {1, 2, 3, 4, 5, 6, 7, 8} then e = UnknownMessage
       else e = Parse \<and> \<not> (4 \<le> length buf \<and>
         (\<exists>m'. message_id m' = from_be_bytes (take 4 buf) \<and> carries cb m' (drop 4 buf)))))"
proof (cases "4 \<le> length buf")
  case False
  then show ?thesis by (auto simp: from_wire_without_the_length_prefix_def)
next
  case True
  then obtain i pl where buf: "buf = to_be_bytes i @ pl" by (rule wire_body_split)
  then have i: "from_be_bytes (take 4 buf) = i" "drop 4 buf = pl" by simp_all
  note ok = from_wire_Inr_iff [of cb i pl, folded buf]
  note unknown = from_wire_Inl_unknown [of cb i pl, folded buf]
  show ?thesis
  proof (cases "from_wire_without_the_length_prefix cb buf")
    case (Inr m')
    then have "\<not> (from_wire_without_the_length_prefix cb buf = Inl UnknownMessage)" by simp
    with Inr True ok unknown show ?thesis unfolding i by auto
  next
    case (Inl e')
    have e': "e' = Parse \<or> e' = UnknownMessage" using Inl from_wire_no_internal [of cb buf] by (cases e') auto
    have none: "\<not> (message_id m' = i \<and> carries cb m' pl)" for m' using ok [of m'] Inl by simp
    show ?thesis
      using e' Inl True none unknown unfolding i by (cases "i \<in> {1, 2, 3, 4, 5, 6, 7, 8}") auto
  qed
qed

theorem from_wire_outcomes_witness:
  "from_wire_without_the_length_prefix demo_cbor [0, 0, 9] = Err Parse \<and>
   from_wire_without_the_length_prefix demo_cbor [0, 0, 0, 7, 9] = Ok StartTrafficV0"
proof
  show "from_wire_without_the_length_prefix demo_cbor [0, 0, 9] = Err Parse"
    using from_wire_outcomes [of demo_cbor "[0, 0, 9]" _ Parse] by simp
  show "from_wire_without_the_length_prefix demo_cbor [0, 0, 0, 7, 9] = Ok StartTrafficV0"
    using from_wire_outcomes [of demo_cbor "[0, 0, 0, 7, 9]" StartTrafficV0] by simp
qed

end
