(* ===== verification/Bounded_Log.thy ===== *)
theory Bounded_Log
  imports Ebb_Prelude
begin

text \<open>
  The contract of a newest-first log of bounded length. Two parts of the client keep one: the
  daemon's message queue (\<open>src/src/messagequeue.rs\<close>, 25 entries) and the recent health checks of
  an endpoint (\<open>src/src/daemon/health.rs\<close>, as many entries as the larger threshold). Both provide
  the interface below, in their own theories, and take the lemmas of this one.
\<close>

locale bounded_log =
  fixes empty :: "'q"
    and push :: "'a \<Rightarrow> 'q \<Rightarrow> 'q"
    and contents :: "'q \<Rightarrow> 'a list"
    and cap :: nat
  assumes contents_empty: "contents empty = []"
    and contents_push: "length (contents q) \<le> cap \<Longrightarrow> contents (push x q) = take cap (x # contents q)"
begin

lemma length_push: "length (contents q) \<le> cap \<Longrightarrow> length (contents (push x q)) \<le> cap"
  by (simp add: contents_push)

lemma contents_pushes_gen:
  "length (contents q) \<le> cap \<Longrightarrow> contents (fold push xs q) = take cap (rev xs @ contents q)"
proof (induction xs arbitrary: q)
  case Nil
  then show ?case by simp
next
  case (Cons x xs)
  then have "contents (fold push (x # xs) q) = take cap (rev xs @ take cap (x # contents q))"
    by (simp add: contents_push)
  also have "\<dots> = take cap (rev xs @ x # contents q)"
    by simp
  finally show ?case by simp
qed

lemma contents_pushes: "contents (fold push xs empty) = take cap (rev xs)"
  using contents_pushes_gen [of empty xs] by (simp add: contents_empty)

lemma contents_pushes_bounded: "length (contents (fold push xs empty)) \<le> cap"
  by (simp add: contents_pushes)

lemma contents_pushes_snoc:
  "0 < cap \<Longrightarrow> hd (contents (fold push (xs @ [x]) empty)) = x"
  using contents_pushes [of "xs @ [x]"] by (cases cap) auto

end

end
