(* ===== verification/Message_Queue.thy ===== *)
theory Message_Queue
  imports Bounded_Log
begin

text \<open>
  The daemon's message queue, \<open>src/src/messagequeue.rs\<close>. The \<open>RwLock\<close> makes each operation
  atomic, so an operation is a function on the protected \<open>VecDeque\<close>, front first. The clock of
  \<open>MessageQueue::now\<close> (the \<open>chrono\<close> crate) is an argument.
\<close>

record message_queue =
  mq_q :: "(string \<times> string) list"

definition mq_new :: message_queue where
  "mq_new = \<lparr>mq_q = []\<rparr>"

definition add_message :: "string \<Rightarrow> string \<Rightarrow> message_queue \<Rightarrow> message_queue" where
  "add_message now m mq = (let qq = (now, m) # mq_q mq in mq\<lparr>mq_q := take 25 qq\<rparr>)"

definition get_messages :: "message_queue \<Rightarrow> (string \<times> string) list" where
  "get_messages mq = (let cloned = mq_q mq in cloned)"

interpretation mqlog: bounded_log mq_new "\<lambda>(now, m). add_message now m" get_messages 25
  by unfold_locales (auto simp: mq_new_def add_message_def get_messages_def)

lemma get_messages_new [simp]: "get_messages mq_new = []"
  by (simp add: get_messages_def mq_new_def)

lemma get_messages_add:
  "get_messages (add_message now m mq) = take 25 ((now, m) # get_messages mq)"
  by (simp add: add_message_def get_messages_def)

lemma set_get_messages_add:
  "set (get_messages (add_message now m mq)) \<subseteq> insert (now, m) (set (get_messages mq))"
  using set_take_subset [of 25 "(now, m) # get_messages mq"] by (simp add: get_messages_add)

lemma newest_message: "hd (get_messages (add_message now m mq)) = (now, m)"
  by (simp add: get_messages_add)

text \<open>A client that adds messages one after the other.\<close>

definition add_messages :: "(string \<times> string) list \<Rightarrow> message_queue \<Rightarrow> message_queue" where
  "add_messages ms mq = fold (\<lambda>(now, m). add_message now m) ms mq"

text \<open>What the daemon's status shows: after any sequence of \<open>add_message\<close> calls on a new queue,
  \<open>get_messages\<close> is the newest 25 of them, newest first, so nothing else and never more than 25.\<close>

theorem get_messages_newest_first:
  "get_messages (add_messages ms mq_new) = take 25 (rev ms) \<and>
   length (get_messages (add_messages ms mq_new)) \<le> 25"
  unfolding add_messages_def
  using mqlog.contents_pushes [of ms] mqlog.contents_pushes_bounded [of ms] by simp

end
