(* ===== verification/Config.thy ===== *)
theory Config
  imports Ebb_Prelude
begin

text \<open>
  The configuration of the daemon, \<open>src/src/config.rs\<close>: the configuration's types and defaults,
  the three files the client and the daemon share (\<open>config.yaml\<close>, \<open>host.key\<close>, \<open>.daemonaddr\<close>), and
  the operations that read and write them.

  The file system is a state: the contents of each file, and what the operating system answers
  when a read or a write fails (a failed write names what it leaves behind). YAML is the
  \<open>serde_yaml\<close> crate, a parameter with the law \<open>yaml_roundtrip\<close>.
\<close>

section \<open>Configuration data\<close>

datatype health_check_type = TCP

record health_check =
  hc_port :: "u16 option"
  hc_consider_healthy_threshold :: "u16 option"
  hc_consider_unhealthy_threshold :: "u16 option"
  hc_type :: health_check_type
  hc_frequency_secs :: "u16 option"

record concrete_health_check =
  chc_port :: u16
  chc_consider_healthy_threshold :: u16
  chc_consider_unhealthy_threshold :: u16
  chc_type :: health_check_type
  chc_frequency_secs :: u16

record endpoint =
  ep_port :: u16
  ep_dns :: string
  ep_maxconns :: u16
  ep_maxidle :: u16
  ep_enabled :: bool
  ep_healthcheck :: "health_check option"

record ssh =
  ssh_maxconns :: u16
  ssh_port :: u16
  ssh_enabled :: bool
  ssh_maxidle :: u16
  ssh_hostname_override :: "string option"

record daemon_config =
  cfg_endpoints :: "endpoint list"
  cfg_ssh :: "ssh option"
  cfg_loglevel :: "string option"

datatype possibly_empty_config = EmptyConfig | FullConfig daemon_config

datatype config_error = Parsing | FileNotFound | FilePermissions | Empty | Unknown string

definition concrete_health_check_new :: "u16 \<Rightarrow> health_check \<Rightarrow> concrete_health_check" where
  "concrete_health_check_new default_port hc =
     \<lparr>chc_port = unwrap_or (hc_port hc) default_port,
      chc_consider_healthy_threshold = unwrap_or (hc_consider_healthy_threshold hc) 3,
      chc_consider_unhealthy_threshold = unwrap_or (hc_consider_unhealthy_threshold hc) 3,
      chc_type = hc_type hc,
      chc_frequency_secs = unwrap_or (hc_frequency_secs hc) 5\<rparr>"

definition health_check_type_from_str :: "string \<Rightarrow> string + health_check_type" where
  "health_check_type_from_str s =
     (if trim (to_lowercase s) = ''tcp'' then Ok TCP
      else Err (''Could not parse '' @ s @ '' into a HealthCheckType''))"

definition ssh_new :: "bool \<Rightarrow> string option \<Rightarrow> ssh" where
  "ssh_new enabled hostname =
     \<lparr>ssh_maxconns = 20, ssh_port = 22, ssh_enabled = enabled, ssh_maxidle = 5,
      ssh_hostname_override = hostname\<rparr>"

section \<open>The file system\<close>

datatype error_kind = NotFound | PermissionDenied | OtherKind

record io_error =
  io_kind :: error_kind
  io_debug :: string

record fs =
  fs_files :: "string \<rightharpoonup> string"
  fs_read_fault :: "string \<Rightarrow> io_error option"
  fs_write_fault :: "string \<Rightarrow> (io_error \<times> string option) option"

definition io_not_found :: io_error where
  "io_not_found = \<lparr>io_kind = NotFound, io_debug = ''Os { code: 2, kind: NotFound }''\<rparr>"

definition fs_read :: "string \<Rightarrow> fs \<Rightarrow> io_error + string" where
  "fs_read p w = (case fs_read_fault w p of
     Some e \<Rightarrow> Err e
   | None \<Rightarrow> (case fs_files w p of None \<Rightarrow> Err io_not_found | Some s \<Rightarrow> Ok s))"

definition fs_write :: "string \<Rightarrow> string \<Rightarrow> fs \<Rightarrow> (io_error + unit) \<times> fs" where
  "fs_write p s w = (case fs_write_fault w p of
     Some (e, remains) \<Rightarrow> (Err e, w\<lparr>fs_files := (fs_files w)(p := remains)\<rparr>)
   | None \<Rightarrow> (Ok (), w\<lparr>fs_files := (fs_files w)(p \<mapsto> s)\<rparr>))"

text \<open>Opening for writing with \<open>create\<close> and without \<open>truncate\<close>: an absent file appears, empty.\<close>

definition fs_open_create :: "string \<Rightarrow> fs \<Rightarrow> (io_error + unit) \<times> fs" where
  "fs_open_create p w = (case fs_write_fault w p of
     Some (e, _) \<Rightarrow> (Err e, w)
   | None \<Rightarrow> (Ok (), (case fs_files w p of
        None \<Rightarrow> w\<lparr>fs_files := (fs_files w)(p \<mapsto> [])\<rparr> | Some _ \<Rightarrow> w)))"

definition config_error_from :: "io_error \<Rightarrow> config_error" where
  "config_error_from ioe = (case io_kind ioe of
     NotFound \<Rightarrow> FileNotFound
   | PermissionDenied \<Rightarrow> FilePermissions
   | _ \<Rightarrow> Unknown (''Unexepected error reading config file '' @ io_debug ioe))"

section \<open>Paths\<close>

datatype os = Linux | MacOs | Windows

text \<open>The build target and, on Linux, the value of the environment variable \<open>EBB_CFG_DIR\<close>.\<close>

record host =
  host_os :: os
  host_cfg_dir :: "string option"

definition CONFIG_FILE :: string where "CONFIG_FILE = ''config.yaml''"
definition KEY_FILE :: string where "KEY_FILE = ''host.key''"
definition ADDR_FILE :: string where "ADDR_FILE = ''.daemonaddr''"

definition backslash :: char where "backslash = char_of (92::nat)"

definition config_path_root :: "host \<Rightarrow> string" where
  "config_path_root h = (case host_os h of
     Linux \<Rightarrow> (case host_cfg_dir h of
        Some p \<Rightarrow> trim_end_matches p (CHR ''/'') | None \<Rightarrow> ''/etc/ebbflow'')
   | MacOs \<Rightarrow> ''/usr/local/etc/ebbflow''
   | Windows \<Rightarrow> [backslash] @ ''Program Files'' @ [backslash] @ ''ebbflow'')"

definition path_sep :: "host \<Rightarrow> char" where
  "path_sep h = (case host_os h of Windows \<Rightarrow> backslash | _ \<Rightarrow> CHR ''/'')"

definition config_file_full :: "host \<Rightarrow> string" where
  "config_file_full h = config_path_root h @ [path_sep h] @ CONFIG_FILE"

definition key_file_full :: "host \<Rightarrow> string" where
  "key_file_full h = config_path_root h @ [path_sep h] @ KEY_FILE"

definition addr_file_full :: "host \<Rightarrow> string" where
  "addr_file_full h = config_path_root h @ [path_sep h] @ ADDR_FILE"

section \<open>The daemon address\<close>

record socket_addr_v4 =
  sa_ip :: "u8 \<times> u8 \<times> u8 \<times> u8"
  sa_port :: u16

definition show_u8 :: "u8 \<Rightarrow> string" where
  "show_u8 w = show_nat (unat w)"

fun show_ip :: "u8 \<times> u8 \<times> u8 \<times> u8 \<Rightarrow> string" where
  "show_ip (a, b, c, d) = show_u8 a @ ''.'' @ show_u8 b @ ''.'' @ show_u8 c @ ''.'' @ show_u8 d"

definition show_addr :: "socket_addr_v4 \<Rightarrow> string" where
  "show_addr a = show_ip (sa_ip a) @ '':'' @ show_u16 (sa_port a)"

text \<open>\<open>SocketAddrV4::from_str\<close>: decimal numbers with a bound on their digits and their value.\<close>

definition read_number :: "nat \<Rightarrow> nat \<Rightarrow> string \<Rightarrow> (nat \<times> string) option" where
  "read_number max_digits limit s =
     (let ds = takeWhile is_digit s in
      if ds = [] \<or> max_digits < length ds \<or> limit \<le> digits_val ds then None
      else Some (digits_val ds, dropWhile is_digit s))"

fun read_given_char :: "char \<Rightarrow> string \<Rightarrow> string option" where
  "read_given_char c [] = None"
| "read_given_char c (x # xs) = (if x = c then Some xs else None)"

definition read_octet :: "string \<Rightarrow> (u8 \<times> string) option" where
  "read_octet s = map_option (\<lambda>(n, r). (of_nat n, r)) (read_number 3 256 s)"

definition read_sep_octet :: "char \<Rightarrow> string \<Rightarrow> (u8 \<times> string) option" where
  "read_sep_octet c s = Option.bind (read_given_char c s) read_octet"

definition parse_addr :: "string \<Rightarrow> socket_addr_v4 option" where
  "parse_addr s =
     Option.bind (read_octet s) (\<lambda>(a, s1).
     Option.bind (read_sep_octet (CHR ''.'') s1) (\<lambda>(b, s2).
     Option.bind (read_sep_octet (CHR ''.'') s2) (\<lambda>(c, s3).
     Option.bind (read_sep_octet (CHR ''.'') s3) (\<lambda>(d, s4).
     Option.bind (read_given_char (CHR '':'') s4) (\<lambda>s5.
     Option.bind (read_number 5 65536 s5) (\<lambda>(p, s6).
       if s6 = [] then Some \<lparr>sa_ip = (a, b, c, d), sa_port = of_nat p\<rparr> else None))))))"

section \<open>Operations\<close>

definition write_addr :: "host \<Rightarrow> string \<Rightarrow> fs \<Rightarrow> (config_error + unit) \<times> fs" where
  "write_addr h addr w =
     (let (r, w') = fs_write (addr_file_full h) (trim addr) w in (map_err config_error_from r, w'))"

definition read_addr :: "host \<Rightarrow> fs \<Rightarrow> config_error + socket_addr_v4" where
  "read_addr h w =
     and_then (map_err config_error_from (fs_read (addr_file_full h) w)) (\<lambda>s.
       if s = [] then Err Empty else ok_or Parsing (parse_addr (trim s)))"

definition getkey :: "host \<Rightarrow> fs \<Rightarrow> config_error + string" where
  "getkey h w =
     and_then (map_err config_error_from (fs_read (key_file_full h) w)) (\<lambda>s.
       if s = [] then Err Empty else Ok (trim s))"

definition setkey :: "host \<Rightarrow> string \<Rightarrow> fs \<Rightarrow> (config_error + unit) \<times> fs" where
  "setkey h k w =
     (let (r, w') = fs_write (key_file_full h) (trim k) w in (map_err config_error_from r, w'))"

text \<open>The \<open>serde_yaml\<close> crate.\<close>

record yaml =
  yaml_to_string :: "daemon_config \<Rightarrow> string option"
  yaml_from_slice :: "string \<Rightarrow> possibly_empty_config option"

definition yaml_roundtrip :: "yaml \<Rightarrow> bool" where
  "yaml_roundtrip y \<longleftrightarrow>
     (\<forall>c s. yaml_to_string y c = Some s \<longrightarrow> yaml_from_slice y s = Some (FullConfig c))"

definition check_permissions :: "host \<Rightarrow> fs \<Rightarrow> (config_error + unit) \<times> fs" where
  "check_permissions h w =
     (let (r1, w1) = fs_open_create (config_file_full h) w in
      case r1 of
        Inl e \<Rightarrow> (Err (config_error_from e), w1)
      | Inr _ \<Rightarrow> (let (r2, w2) = fs_open_create (key_file_full h) w1 in
                  (map_err config_error_from r2, w2)))"

definition load_from_file_path :: "yaml \<Rightarrow> string \<Rightarrow> fs \<Rightarrow> config_error + daemon_config" where
  "load_from_file_path y p w =
     and_then (map_err config_error_from (fs_read p w)) (\<lambda>filebytes.
       case yaml_from_slice y filebytes of
         Some EmptyConfig \<Rightarrow> Err Empty
       | Some (FullConfig c) \<Rightarrow> Ok c
       | None \<Rightarrow> Err Parsing)"

definition load_from_file :: "yaml \<Rightarrow> host \<Rightarrow> fs \<Rightarrow> config_error + daemon_config" where
  "load_from_file y h w = load_from_file_path y (config_file_full h) w"

definition new_config :: daemon_config where
  "new_config = \<lparr>cfg_endpoints = [], cfg_ssh = None, cfg_loglevel = None\<rparr>"

definition load_from_file_or_new :: "yaml \<Rightarrow> host \<Rightarrow> fs \<Rightarrow> config_error + daemon_config" where
  "load_from_file_or_new y h w = (case load_from_file y h w of
     Inr existing \<Rightarrow> Ok existing
   | Inl e \<Rightarrow> if e = Empty \<or> e = FileNotFound then Ok new_config else Err e)"

definition save_to_file ::
    "yaml \<Rightarrow> host \<Rightarrow> daemon_config \<Rightarrow> fs \<Rightarrow> (config_error + unit) \<times> fs" where
  "save_to_file y h c w = (case yaml_to_string y c of
     None \<Rightarrow> (Err Parsing, w)
   | Some b \<Rightarrow>
       (let (r, w') = fs_write (config_file_full h) b w in (map_err config_error_from r, w')))"

section \<open>Lemmas on paths and files\<close>

lemmas [ebb_files] = load_from_file_def load_from_file_path_def getkey_def fs_read_def

lemma files_distinct:
  "config_file_full h \<noteq> key_file_full h" "config_file_full h \<noteq> addr_file_full h"
  "key_file_full h \<noteq> addr_file_full h"
  by (simp_all add: config_file_full_def key_file_full_def addr_file_full_def CONFIG_FILE_def
      KEY_FILE_def ADDR_FILE_def)

lemmas files_distinct_simps [simp] = files_distinct files_distinct [symmetric]

lemma fs_write_Inr:
  "fs_write p s w = (Inr u, w') \<Longrightarrow>
     fs_files w' = (fs_files w)(p \<mapsto> s) \<and> fs_read_fault w' = fs_read_fault w \<and>
     fs_write_fault w' = fs_write_fault w"
  by (auto simp: fs_write_def split: option.splits)

lemma fs_write_other:
  "fs_write p s w = (r, w') \<Longrightarrow> q \<noteq> p \<Longrightarrow> fs_read q w' = fs_read q w"
  by (auto simp: fs_write_def fs_read_def split: option.splits)

lemma fs_read_after_write:
  "fs_write p s w = (Inr u, w') \<Longrightarrow> fs_read_fault w p = None \<Longrightarrow> fs_read p w' = Inr s"
  by (auto simp: fs_write_def fs_read_def split: option.splits)

lemma save_to_file_Inr:
  assumes "save_to_file y h c w = (Inr u, w')"
  obtains b where "yaml_to_string y c = Some b"
    and "fs_write (config_file_full h) b w = (Inr u, w')"
  using assms by (auto simp: save_to_file_def split: option.splits prod.splits)

lemma save_to_file_other:
  "save_to_file y h c w = (r, w') \<Longrightarrow> q \<noteq> config_file_full h \<Longrightarrow> fs_read q w' = fs_read q w"
  by (auto simp: save_to_file_def split: option.splits prod.splits dest: fs_write_other)

lemma load_after_save:
  assumes y: "yaml_roundtrip y" and sv: "save_to_file y h c w = (Inr u, w')"
    and rd: "fs_read_fault w (config_file_full h) = None"
  shows "load_from_file y h w' = Inr c"
proof -
  from sv obtain b where b: "yaml_to_string y c = Some b"
    and wr: "fs_write (config_file_full h) b w = (Inr u, w')"
    by (rule save_to_file_Inr)
  from wr rd have "fs_read (config_file_full h) w' = Inr b" by (rule fs_read_after_write)
  moreover from y b have "yaml_from_slice y b = Some (FullConfig c)"
    by (simp add: yaml_roundtrip_def)
  ultimately show ?thesis by (simp add: load_from_file_def load_from_file_path_def)
qed

lemma trim_id:
  assumes "s \<noteq> []" "\<not> is_whitespace (hd s)" "\<not> is_whitespace (last s)"
  shows "trim s = s"
proof -
  from assms have "dropWhile is_whitespace s = s" by (cases s) auto
  moreover from assms have "dropWhile is_whitespace (rev s) = rev s"
    by (cases "rev s") (auto simp: last_rev hd_rev)
  ultimately show ?thesis by (simp add: trim_def trim_end_pred_def)
qed

section \<open>Lemmas on addresses\<close>

lemma digit_not_whitespace: "is_digit c \<Longrightarrow> \<not> is_whitespace c"
  by (auto simp: is_digit_def is_whitespace_def Let_def)

lemma length_show_nat: "n < 10 ^ Suc k \<Longrightarrow> length (show_nat n) \<le> Suc k"
proof (induction n arbitrary: k rule: show_nat.induct)
  case (1 n)
  show ?case
  proof (cases "n < 10")
    case True
    then show ?thesis by (subst show_nat.simps) simp
  next
    case False
    then obtain j where k: "k = Suc j" using 1(2) by (cases k) auto
    with 1(2) have "n div 10 < 10 ^ Suc j" by simp
    with 1(1) [OF False this] False k show ?thesis by (subst show_nat.simps) simp
  qed
qed

lemma takeWhile_digits:
  assumes "list_all is_digit ds" and "rest = [] \<or> \<not> is_digit (hd rest)"
  shows "takeWhile is_digit (ds @ rest) = ds \<and> dropWhile is_digit (ds @ rest) = rest"
proof -
  have "takeWhile is_digit rest = []" "dropWhile is_digit rest = rest"
    using assms(2) by (cases rest; simp)+
  then show ?thesis
    using assms(1) by (simp add: takeWhile_append2 dropWhile_append2 list_all_iff)
qed

lemma read_number_show:
  assumes "n < limit" "limit \<le> 10 ^ k" "0 < k" "rest = [] \<or> \<not> is_digit (hd rest)"
  shows "read_number k limit (show_nat n @ rest) = Some (n, rest)"
proof -
  note tw = takeWhile_digits [OF show_nat_digits assms(4), of n]
  from assms have "n < 10 ^ Suc (k - 1)" by simp
  then have "length (show_nat n) \<le> k" using assms(3) length_show_nat by fastforce
  with tw assms(1) show ?thesis by (simp add: read_number_def Let_def)
qed

lemma unat_u8_less [simp]: "unat (a :: u8) < 256"
  using unsigned_less [of a, where ?'a = nat] by simp

lemma unat_u16_less [simp]: "unat (a :: u16) < 65536"
  using unsigned_less [of a, where ?'a = nat] by simp

lemma read_octet_show:
  assumes "rest = [] \<or> \<not> is_digit (hd rest)"
  shows "read_octet (show_u8 a @ rest) = Some (a, rest)"
  using read_number_show [of "unat a" 256 3 rest] assms
  by (simp add: read_octet_def show_u8_def)

lemma sep_not_digit [simp]:
  "\<not> is_digit (CHR ''.'')" "\<not> is_digit (CHR '':'')"
  by (simp_all add: is_digit_def)

lemma parse_show_addr [simp]: "parse_addr (show_addr a) = Some a"
proof (cases a)
  case (fields ip port)
  obtain i j k l where ip: "ip = (i, j, k, l)" by (cases ip)
  have "read_number 5 65536 (show_nat (unat port) @ []) = Some (unat port, [])"
    using read_number_show [of "unat port" 65536 5 "[]"] by simp
  then show ?thesis
    by (simp add: fields ip show_addr_def parse_addr_def read_octet_show read_sep_octet_def show_u16_def)
qed

lemma show_nat_hd_digit: "is_digit (hd (show_nat n))" "is_digit (last (show_nat n))"
  using show_nat_digits [of n] by (simp_all add: list_all_iff)

lemma show_addr_hd_last:
  "show_addr a \<noteq> []" "is_digit (hd (show_addr a))" "is_digit (last (show_addr a))"
  using show_nat_hd_digit
  by (cases "sa_ip a"; simp add: show_addr_def show_u8_def show_u16_def)+

lemma trim_show_addr [simp]: "trim (show_addr a) = show_addr a"
  by (intro trim_id) (auto simp: show_addr_hd_last digit_not_whitespace)

section \<open>Properties\<close>

text \<open>The host, the file system and the YAML functions of the witnesses.\<close>

definition demo_host :: host where
  "demo_host = \<lparr>host_os = Linux, host_cfg_dir = Some ''/cfg//''\<rparr>"

definition demo_fs :: fs where
  "demo_fs = \<lparr>fs_files = [''/cfg/host.key'' \<mapsto> '' ''], fs_read_fault = (\<lambda>_. None),
     fs_write_fault = (\<lambda>_. None)\<rparr>"

definition demo_endpoint :: endpoint where
  "demo_endpoint = \<lparr>ep_port = 8080, ep_dns = ''a.com'', ep_maxconns = 10, ep_maxidle = 2,
     ep_enabled = True, ep_healthcheck = None\<rparr>"

definition demo_config :: daemon_config where
  "demo_config = \<lparr>cfg_endpoints = [demo_endpoint], cfg_ssh = None, cfg_loglevel = None\<rparr>"

definition yaml_of :: "daemon_config \<Rightarrow> yaml" where
  "yaml_of c = \<lparr>yaml_to_string = (\<lambda>x. if x = c then Some ''doc'' else None),
     yaml_from_slice = (\<lambda>s. if s = ''doc'' then Some (FullConfig c)
        else if s = [] then Some EmptyConfig else None)\<rparr>"

lemma yaml_of_roundtrip: "yaml_roundtrip (yaml_of c)"
  by (simp add: yaml_roundtrip_def yaml_of_def)

lemma demo_read_fault: "fs_read_fault demo_fs p = None"
  by (simp add: demo_fs_def)

lemma demo_fs_write: "fs_write p s demo_fs = (Ok (), demo_fs\<lparr>fs_files := (fs_files demo_fs)(p \<mapsto> s)\<rparr>)"
  by (simp add: fs_write_def demo_fs_def)

text \<open>C27. A saved configuration is what is loaded next, by both loaders, if YAML round-trips and the
  file can be read; saving leaves the key and the daemon address as they were.\<close>

theorem config_save_load:
  assumes "yaml_roundtrip y" and "save_to_file y h c w = (Ok (), w')"
    and "fs_read_fault w (config_file_full h) = None"
  shows "load_from_file y h w' = Ok c \<and> load_from_file_or_new y h w' = Ok c \<and>
    getkey h w' = getkey h w \<and> read_addr h w' = read_addr h w"
proof -
  have "load_from_file y h w' = Ok c" using assms by (rule load_after_save)
  moreover have "fs_read (key_file_full h) w' = fs_read (key_file_full h) w"
    and "fs_read (addr_file_full h) w' = fs_read (addr_file_full h) w"
    using save_to_file_other [OF assms(2)] by simp_all
  ultimately show ?thesis
    by (simp add: load_from_file_or_new_def getkey_def read_addr_def)
qed

theorem config_save_load_witness:
  "load_from_file (yaml_of demo_config) demo_host
     (demo_fs\<lparr>fs_files := (fs_files demo_fs)(config_file_full demo_host \<mapsto> ''doc'')\<rparr>) = Ok demo_config"
  using config_save_load [OF yaml_of_roundtrip _ demo_read_fault, of demo_config demo_host demo_config]
  by (simp add: save_to_file_def demo_fs_write yaml_of_def)

text \<open>The key file: after \<open>setkey k\<close> succeeds, \<open>getkey\<close> returns the trimmed key, or \<open>Empty\<close> when
  nothing but white space was set; the configuration file is untouched.\<close>

theorem key_set_get:
  assumes "setkey h k w = (Ok (), w')" and "fs_read_fault w (key_file_full h) = None"
  shows "getkey h w' = (if trim k = [] then Err Empty else Ok (trim k)) \<and>
    load_from_file y h w' = load_from_file y h w"
proof -
  from assms(1) have wr: "fs_write (key_file_full h) (trim k) w = (Ok (), w')"
    by (auto simp: setkey_def split: prod.splits)
  from wr assms(2) have "fs_read (key_file_full h) w' = Inr (trim k)" by (rule fs_read_after_write)
  moreover from wr have "fs_read (config_file_full h) w' = fs_read (config_file_full h) w"
    by (rule fs_write_other) simp
  ultimately show ?thesis
    by (simp add: getkey_def load_from_file_def load_from_file_path_def)
qed

theorem key_set_get_witness:
  "getkey demo_host (snd (setkey demo_host '' abc '' demo_fs)) = Ok ''abc''"
proof -
  have t: "trim '' abc '' = ''abc''" by code_simp
  have "setkey demo_host '' abc '' demo_fs = (Ok (), snd (setkey demo_host '' abc '' demo_fs))"
    by (simp add: setkey_def demo_fs_write)
  from key_set_get [OF this demo_read_fault] show ?thesis by (simp add: t)
qed

text \<open>The daemon address: the address that the info server writes in its display form is the one
  that \<open>ebbflow status\<close> reads back.\<close>

theorem addr_write_read:
  assumes "write_addr h (show_addr a) w = (Ok (), w')"
    and "fs_read_fault w (addr_file_full h) = None"
  shows "read_addr h w' = Ok a"
proof -
  from assms(1) have wr: "fs_write (addr_file_full h) (show_addr a) w = (Ok (), w')"
    by (auto simp: write_addr_def split: prod.splits)
  from wr assms(2) have "fs_read (addr_file_full h) w' = Inr (show_addr a)"
    by (rule fs_read_after_write)
  then show ?thesis by (simp add: read_addr_def show_addr_hd_last)
qed

theorem addr_write_read_witness:
  "read_addr demo_host (snd (write_addr demo_host
     (show_addr \<lparr>sa_ip = (127, 0, 0, 1), sa_port = 4242\<rparr>) demo_fs))
   = Ok \<lparr>sa_ip = (127, 0, 0, 1), sa_port = 4242\<rparr>"
  by (rule addr_write_read [where w = demo_fs])
    (simp_all add: write_addr_def demo_fs_write demo_read_fault)

text \<open>A key file that is not empty but holds only white space passes the emptiness test, which
  comes before the trimming, and \<open>getkey\<close> returns the empty key instead of \<open>Empty\<close>.\<close>

theorem getkey_blank_file:
  assumes "fs_read (key_file_full h) w = Ok s" and "s \<noteq> []" and "list_all is_whitespace s"
  shows "getkey h w = Ok []"
proof -
  from assms(3) have "dropWhile is_whitespace s = []" by (simp add: list_all_iff)
  then have "trim s = trim []" by (simp only: trim_def dropWhile.simps)
  with assms(1,2) show ?thesis by (simp add: getkey_def)
qed

theorem getkey_blank_file_witness: "getkey demo_host demo_fs = Ok []"
proof (rule getkey_blank_file)
  have "key_file_full demo_host = ''/cfg/host.key''" by code_simp
  then show "fs_read (key_file_full demo_host) demo_fs = Ok '' ''"
    by (simp add: fs_read_def demo_fs_def)
  show "'' '' \<noteq> ([] :: string)" by simp
  show "list_all is_whitespace '' ''" by code_simp
qed

text \<open>Loading with a fallback: an absent file and an empty document give the new configuration, a
  document that does not parse is \<open>Parsing\<close>, a permission problem is \<open>FilePermissions\<close>; \<open>Empty\<close> and
  \<open>FileNotFound\<close> are never reported.\<close>

theorem load_or_new_outcomes:
  "(case fs_read (config_file_full h) w of
      Inl e \<Rightarrow> load_from_file_or_new y h w =
        (if io_kind e = NotFound then Ok new_config else Err (config_error_from e))
    | Inr s \<Rightarrow> load_from_file_or_new y h w = (case yaml_from_slice y s of
          None \<Rightarrow> Err Parsing | Some EmptyConfig \<Rightarrow> Ok new_config | Some (FullConfig c) \<Rightarrow> Ok c)) \<and>
   load_from_file_or_new y h w \<noteq> Err Empty \<and> load_from_file_or_new y h w \<noteq> Err FileNotFound"
  by (auto simp: load_from_file_or_new_def load_from_file_def load_from_file_path_def
      config_error_from_def split: sum.splits option.splits possibly_empty_config.splits
      error_kind.splits)

text \<open>The configuration directory on Linux: \<open>EBB_CFG_DIR\<close> is used without its trailing slashes, so
  that the file names that are appended to it follow exactly one slash, and the three files are
  distinct.\<close>

theorem config_paths:
  assumes "host_os h = Linux" and "host_cfg_dir h = Some p"
  shows "(\<exists>n. p = config_path_root h @ replicate n (CHR ''/'')) \<and>
    (config_path_root h \<noteq> [] \<longrightarrow> last (config_path_root h) \<noteq> CHR ''/'') \<and>
    config_file_full h = config_path_root h @ ''/config.yaml'' \<and>
    distinct [config_file_full h, key_file_full h, addr_file_full h]"
proof -
  have root: "config_path_root h = trim_end_pred (\<lambda>x. x = CHR ''/'') p"
    using assms by (simp add: config_path_root_def trim_end_matches_def)
  obtain zs where zs: "p = config_path_root h @ zs" "list_all (\<lambda>x. x = CHR ''/'') zs"
    unfolding root using trim_end_pred_append by blast
  then have "zs = replicate (length zs) (CHR ''/'')"
    by (simp add: list_all_iff replicate_length_same)
  with zs(1) have "p = config_path_root h @ replicate (length zs) (CHR ''/'')" by argo
  then have "\<exists>n. p = config_path_root h @ replicate n (CHR ''/'')" by (rule exI)
  moreover have "config_path_root h \<noteq> [] \<longrightarrow> last (config_path_root h) \<noteq> CHR ''/''"
    unfolding root using trim_end_pred_last by blast
  moreover have "config_file_full h = config_path_root h @ ''/config.yaml''"
    using assms(1) by (simp add: config_file_full_def path_sep_def CONFIG_FILE_def)
  moreover have "distinct [config_file_full h, key_file_full h, addr_file_full h]" by simp
  ultimately show ?thesis by blast
qed

theorem config_paths_witness: "config_file_full demo_host = ''/cfg/config.yaml''"
proof -
  have "config_path_root demo_host = ''/cfg''" by code_simp
  with config_paths [of demo_host "''/cfg//''"] show ?thesis by (simp add: demo_host_def)
qed

end
