(* ===== verification/Health.thy ===== *)
theory Health
  imports Bounded_Log Config
begin

text \<open>
  Health checking of an endpoint, \<open>src/src/daemon/health.rs\<close>: the recent check results, newest
  first, and the healthy flag with its two thresholds. The mutex makes each operation atomic.
  The clock is an argument, \<open>None\<close> when the system time is before the Unix epoch.

  The specification \<open>health_spec\<close> remembers every result; the refinement theorem says that the
  bounded memory and the \<open>u16\<close> counters of the code decide the same.
\<close>

type_synonym u128 = "128 word"

record health_master_inner =
  hm_healthy :: bool
  hm_recent :: "(bool \<times> u128) list"

record health_master =
  hm_inner :: health_master_inner
  hm_cfg :: concrete_health_check

definition health_master_inner_new :: health_master_inner where
  "health_master_inner_new = \<lparr>hm_healthy = False, hm_recent = []\<rparr>"

definition health_master_new :: "concrete_health_check \<Rightarrow> health_master" where
  "health_master_new cfg = \<lparr>hm_inner = health_master_inner_new, hm_cfg = cfg\<rparr>"

text \<open>The \<open>while\<close> loop that pops at the back until the length is at most \<open>n\<close>.\<close>

function pop_back_to :: "nat \<Rightarrow> 'a list \<Rightarrow> 'a list" where
  "pop_back_to n xs = (if n < length xs then pop_back_to n (butlast xs) else xs)"
  by pat_completeness auto
termination
  by (relation "measure (\<lambda>(n, xs). length xs)") auto

declare pop_back_to.simps [simp del]

text \<open>The two counting loops, with their \<open>u16\<close> counters.\<close>

fun count_unhealthies :: "(bool \<times> u128) list \<Rightarrow> u16 \<Rightarrow> u16" where
  "count_unhealthies [] unhealthies = unhealthies"
| "count_unhealthies ((check, _) # rest) unhealthies =
     (if check then unhealthies else count_unhealthies rest (unhealthies + 1))"

fun count_healthies :: "(bool \<times> u128) list \<Rightarrow> u16 \<Rightarrow> u16" where
  "count_healthies [] healthies = healthies"
| "count_healthies ((check, _) # rest) healthies =
     (if check then count_healthies rest (healthies + 1) else healthies)"

definition history_cap :: "concrete_health_check \<Rightarrow> nat" where
  "history_cap cfg = max (unat (chc_consider_healthy_threshold cfg))
                         (unat (chc_consider_unhealthy_threshold cfg))"

definition health_status ::
    "concrete_health_check \<Rightarrow> health_master_inner \<Rightarrow> bool \<times> health_master_inner" where
  "health_status cfg inner =
     (let inner1 = inner\<lparr>hm_recent := pop_back_to (history_cap cfg) (hm_recent inner)\<rparr> in
      if hm_healthy inner1 then
        (if chc_consider_unhealthy_threshold cfg \<le> count_unhealthies (hm_recent inner1) 0
         then (False, inner1\<lparr>hm_healthy := False\<rparr>)
         else (True, inner1\<lparr>hm_healthy := True\<rparr>))
      else
        (if chc_consider_healthy_threshold cfg \<le> count_healthies (hm_recent inner1) 0
         then (True, inner1\<lparr>hm_healthy := True\<rparr>)
         else (False, inner1\<lparr>hm_healthy := False\<rparr>)))"

definition inner_report_check_result ::
    "bool \<Rightarrow> u128 option \<Rightarrow> concrete_health_check \<Rightarrow> health_master_inner
       \<Rightarrow> bool \<times> health_master_inner" where
  "inner_report_check_result result now cfg inner =
     (let t = (case now of Some n \<Rightarrow> n | None \<Rightarrow> 0) in
      health_status cfg (inner\<lparr>hm_recent := (result, t) # hm_recent inner\<rparr>))"

definition inner_data :: "health_master_inner \<Rightarrow> bool \<times> (bool \<times> u128) list" where
  "inner_data inner = (hm_healthy inner, hm_recent inner)"

definition report_check_result ::
    "bool \<Rightarrow> u128 option \<Rightarrow> health_master \<Rightarrow> bool \<times> health_master" where
  "report_check_result result now hm =
     (let (b, inner) = inner_report_check_result result now (hm_cfg hm) (hm_inner hm)
      in (b, hm\<lparr>hm_inner := inner\<rparr>))"

definition health_data :: "health_master \<Rightarrow> bool \<times> (bool \<times> u128) list" where
  "health_data hm = inner_data (hm_inner hm)"

section \<open>The loops\<close>

lemma pop_back_to_take: "pop_back_to n xs = take n xs"
proof (induction n xs rule: pop_back_to.induct)
  case (1 n xs)
  show ?case
  proof (cases "n < length xs")
    case True
    with 1 show ?thesis by (subst pop_back_to.simps) (simp add: take_butlast)
  next
    case False
    then show ?thesis by (subst pop_back_to.simps) simp
  qed
qed

lemma count_unhealthies_eq:
  "count_unhealthies rs c = c + of_nat (length (takeWhile Not (map fst rs)))"
  by (induction rs c rule: count_unhealthies.induct) auto

lemma count_healthies_eq:
  "count_healthies rs c = c + of_nat (length (takeWhile id (map fst rs)))"
  by (induction rs c rule: count_healthies.induct) auto

lemma history_cap_less: "history_cap cfg < 65536"
  by (simp add: history_cap_def)

lemma threshold_compare:
  assumes "n < 65536"
  shows "(t :: u16) \<le> of_nat n \<longleftrightarrow> unat t \<le> n"
  using assms by (simp add: word_le_nat_alt unat_of_nat)

lemma streak_iff: "k \<le> length (takeWhile P xs) \<longleftrightarrow> k \<le> length xs \<and> list_all P (take k xs)"
proof (induction xs arbitrary: k)
  case (Cons x xs)
  then show ?case by (cases k) auto
qed simp

text \<open>A streak of length \<open>k \<le> n\<close> is decided by the first \<open>n\<close> entries.\<close>

lemma streak_take:
  "k \<le> n \<Longrightarrow> k \<le> length (takeWhile P (take n xs)) \<longleftrightarrow> k \<le> length (takeWhile P xs)"
  by (auto simp: takeWhile_take_length)

lemma length_streak_le: "length (takeWhile P (map fst (take n rs))) \<le> n"
  by (metis le_trans length_map length_take length_takeWhile_le min.cobounded2)

text \<open>What a report does, without loops and counters.\<close>

lemma inner_report_eq:
  "inner_report_check_result r now cfg inner =
     (let t = (case now of Some n \<Rightarrow> n | None \<Rightarrow> 0);
          recent = take (history_cap cfg) ((r, t) # hm_recent inner);
          h = (if hm_healthy inner
               then \<not> unat (chc_consider_unhealthy_threshold cfg)
                      \<le> length (takeWhile Not (map fst recent))
               else unat (chc_consider_healthy_threshold cfg)
                      \<le> length (takeWhile id (map fst recent)))
      in (h, \<lparr>hm_healthy = h, hm_recent = recent\<rparr>))"
proof -
  have bound: "length (takeWhile P (map fst (take (history_cap cfg) rs))) < 65536"
    for P and rs :: "(bool \<times> u128) list"
    using length_streak_le [of P "history_cap cfg" rs] history_cap_less [of cfg] by linarith
  show ?thesis
    by (simp add: inner_report_check_result_def health_status_def Let_def pop_back_to_take
        count_unhealthies_eq count_healthies_eq threshold_compare bound)
qed

lemma hm_recent_report:
  "hm_recent (snd (inner_report_check_result r (Some t) cfg inner))
     = take (history_cap cfg) ((r, t) # hm_recent inner)"
  by (simp add: inner_report_eq Let_def)

interpretation hlog: bounded_log health_master_inner_new
    "\<lambda>(r, t) inner. snd (inner_report_check_result r (Some t) cfg inner)" hm_recent "history_cap cfg"
  for cfg
  by unfold_locales (auto simp: hm_recent_report health_master_inner_new_def)

section \<open>Runs of reports, and the specification\<close>

definition inner_reports ::
    "concrete_health_check \<Rightarrow> (bool \<times> u128) list \<Rightarrow> health_master_inner \<Rightarrow> health_master_inner" where
  "inner_reports cfg rs inner =
     fold (\<lambda>(r, t) inner. snd (inner_report_check_result r (Some t) cfg inner)) rs inner"

text \<open>The specification keeps the whole history, newest first, and flips the flag on a streak of
  the last \<open>u\<close> failures (when healthy) or the last \<open>h\<close> successes (when not).\<close>

record health_spec =
  spec_healthy :: bool
  spec_history :: "bool list"

definition last_all :: "nat \<Rightarrow> bool \<Rightarrow> bool list \<Rightarrow> bool" where
  "last_all k b hist \<longleftrightarrow> k \<le> length hist \<and> (\<forall>x \<in> set (take k hist). x = b)"

definition spec_report :: "nat \<Rightarrow> nat \<Rightarrow> bool \<Rightarrow> health_spec \<Rightarrow> health_spec" where
  "spec_report h u r s =
     (let hist = r # spec_history s in
      \<lparr>spec_healthy = (if spec_healthy s then \<not> last_all u False hist else last_all h True hist),
       spec_history = hist\<rparr>)"

definition spec_new :: health_spec where
  "spec_new = \<lparr>spec_healthy = False, spec_history = []\<rparr>"

definition spec_reports :: "nat \<Rightarrow> nat \<Rightarrow> bool list \<Rightarrow> health_spec \<Rightarrow> health_spec" where
  "spec_reports h u rs s = fold (spec_report h u) rs s"

definition health_rel :: "concrete_health_check \<Rightarrow> health_master_inner \<Rightarrow> health_spec \<Rightarrow> bool" where
  "health_rel cfg inner s \<longleftrightarrow>
     hm_healthy inner = spec_healthy s \<and>
     map fst (hm_recent inner) = take (history_cap cfg) (spec_history s)"

lemma last_all_streak:
  "last_all k True xs \<longleftrightarrow> k \<le> length (takeWhile id xs)"
  "last_all k False xs \<longleftrightarrow> k \<le> length (takeWhile Not xs)"
  by (auto simp: last_all_def streak_iff list_all_iff)

lemma health_rel_report:
  assumes "health_rel cfg inner s"
  shows "health_rel cfg (snd (inner_report_check_result r (Some t) cfg inner))
    (spec_report (unat (chc_consider_healthy_threshold cfg))
                 (unat (chc_consider_unhealthy_threshold cfg)) r s)"
proof -
  have cap: "unat (chc_consider_healthy_threshold cfg) \<le> history_cap cfg"
    "unat (chc_consider_unhealthy_threshold cfg) \<le> history_cap cfg"
    by (simp_all add: history_cap_def)
  have recent: "map fst (take (history_cap cfg) ((r, t) # hm_recent inner))
      = take (history_cap cfg) (r # spec_history s)"
    using assms by (simp add: health_rel_def take_Cons_take flip: take_map)
  show ?thesis
    using assms
    by (simp add: health_rel_def inner_report_eq spec_report_def Let_def recent last_all_streak
        streak_take cap)
qed

lemma health_rel_reports:
  "health_rel cfg inner s \<Longrightarrow>
     health_rel cfg (inner_reports cfg rs inner)
       (spec_reports (unat (chc_consider_healthy_threshold cfg))
          (unat (chc_consider_unhealthy_threshold cfg)) (map fst rs) s)"
  unfolding inner_reports_def spec_reports_def
proof (induction rs arbitrary: inner s)
  case Nil
  then show ?case by simp
next
  case (Cons p rs)
  then show ?case by (cases p) (simp add: health_rel_report)
qed

lemma health_rel_new: "health_rel cfg health_master_inner_new spec_new"
  by (simp add: health_rel_def health_master_inner_new_def spec_new_def)

text \<open>A streak of at least the threshold settles the flag, whatever came before.\<close>

lemma spec_reports_history:
  "spec_history (spec_reports h u rs s) = rev rs @ spec_history s"
  unfolding spec_reports_def
  by (induction rs arbitrary: s) (simp_all add: spec_report_def Let_def)

lemma spec_reports_snoc:
  "spec_reports h u (replicate (Suc n) b) s = spec_report h u b (spec_reports h u (replicate n b) s)"
  unfolding spec_reports_def by (simp add: replicate_append_same [symmetric] del: replicate.simps)

lemma last_all_head: "0 < k \<Longrightarrow> \<not> last_all k (\<not> b) (b # xs)"
  by (cases k) (simp_all add: last_all_def)

lemma spec_report_streak:
  assumes "0 < h" "0 < u" "last_all (if b then h else u) b (b # spec_history s)"
  shows "spec_healthy (spec_report h u b s) = b"
  using assms last_all_head [of h False] last_all_head [of u True]
  by (cases b) (auto simp: spec_report_def Let_def)

lemma spec_streak:
  assumes "0 < h" "0 < u" "(if b then h else u) \<le> n"
  shows "spec_healthy (spec_reports h u (replicate n b) s) = b"
proof -
  obtain m where n: "n = Suc m" using assms by (cases n) (auto split: if_splits)
  let ?s = "spec_reports h u (replicate m b) s"
  have "b # spec_history ?s = replicate n b @ spec_history s"
    unfolding spec_reports_history n by simp
  moreover have "last_all (if b then h else u) b (replicate n b @ spec_history s)"
    using assms(3) by (auto simp: last_all_def take_append)
  ultimately have "spec_healthy (spec_report h u b ?s) = b"
    using assms(1,2) by (intro spec_report_streak) simp_all
  then show ?thesis unfolding n spec_reports_snoc .
qed

section \<open>Properties\<close>

definition demo_check :: "u16 \<Rightarrow> u16 \<Rightarrow> concrete_health_check" where
  "demo_check h u = \<lparr>chc_port = 80, chc_consider_healthy_threshold = h,
     chc_consider_unhealthy_threshold = u, chc_type = TCP, chc_frequency_secs = 5\<rparr>"

text \<open>C11. The bounded health memory refines the unbounded one: after any sequence of check results
  the code's flag is the one of the specification that remembers every result, and the results it
  still holds are the newest ones, as many as the larger of the two thresholds.\<close>

theorem health_refines_spec:
  "hm_healthy (inner_reports cfg rs health_master_inner_new) =
     spec_healthy (spec_reports (unat (chc_consider_healthy_threshold cfg))
       (unat (chc_consider_unhealthy_threshold cfg)) (map fst rs) spec_new) \<and>
   hm_recent (inner_reports cfg rs health_master_inner_new) = take (history_cap cfg) (rev rs)"
  using health_rel_reports [OF health_rel_new, of cfg rs] hlog.contents_pushes [of cfg rs]
  by (simp add: health_rel_def inner_reports_def)

text \<open>C32. Health follows the checks: with positive thresholds, a run of equal results at least as long
  as the threshold for that result leaves the endpoint healthy exactly when the results are
  successes, whatever was reported before.\<close>

theorem health_follows_streak:
  assumes "0 < chc_consider_healthy_threshold cfg" and "0 < chc_consider_unhealthy_threshold cfg"
    and "\<forall>p \<in> set bs. fst p = b"
    and "unat (if b then chc_consider_healthy_threshold cfg
               else chc_consider_unhealthy_threshold cfg) \<le> length bs"
  shows "hm_healthy (inner_reports cfg (rs @ bs) health_master_inner_new) = b"
proof -
  let ?h = "unat (chc_consider_healthy_threshold cfg)"
  let ?u = "unat (chc_consider_unhealthy_threshold cfg)"
  let ?i = "inner_reports cfg rs health_master_inner_new"
  let ?s = "spec_reports ?h ?u (map fst rs) spec_new"
  have bs: "map fst bs = replicate (length bs) b"
    using assms(3) by (auto intro: replicate_eqI)
  have "health_rel cfg (inner_reports cfg bs ?i) (spec_reports ?h ?u (map fst bs) ?s)"
    by (intro health_rel_reports health_rel_new)
  then have "hm_healthy (inner_reports cfg bs ?i) = b"
    using spec_streak [of ?h ?u b "length bs" ?s] assms(1,2,4)
    by (simp add: health_rel_def bs word_less_nat_alt split: if_splits)
  then show ?thesis by (simp add: inner_reports_def)
qed

theorem health_follows_streak_witness:
  "hm_healthy (inner_reports (demo_check 2 3) ([(False, 1)] @ [(True, 2), (True, 3)])
     health_master_inner_new) = True"
  by (rule health_follows_streak) (simp_all add: demo_check_def)

text \<open>C40. Thresholds of zero are not refused and make the flag flip on every report: with both
  thresholds zero, a report turns an unhealthy endpoint healthy and a healthy one unhealthy,
  whether the check succeeded or failed.\<close>

theorem zero_thresholds_flip:
  assumes "chc_consider_healthy_threshold cfg = 0" and "chc_consider_unhealthy_threshold cfg = 0"
  shows "fst (inner_report_check_result r now cfg inner) = (\<not> hm_healthy inner)"
  using assms by (simp add: inner_report_eq Let_def)

theorem zero_thresholds_flip_witness:
  "fst (inner_report_check_result False None (demo_check 0 0) health_master_inner_new) = (\<not> False)"
  using zero_thresholds_flip [of "demo_check 0 0" False None health_master_inner_new]
  by (simp add: demo_check_def health_master_inner_new_def)

text \<open>One report through the mutex: the value that \<open>report_check_result\<close> returns is the flag that
  \<open>data\<close> shows afterwards, the newest result comes first (while a threshold is positive), the
  configuration is kept, and at most as many results are kept as the larger threshold.\<close>

theorem report_then_data:
  "let (b, hm') = report_check_result r now hm; (flag, recent) = health_data hm' in
     flag = b \<and> hm_cfg hm' = hm_cfg hm \<and> length recent \<le> history_cap (hm_cfg hm) \<and>
     recent = take (history_cap (hm_cfg hm))
       ((r, case now of Some n \<Rightarrow> n | None \<Rightarrow> 0) # snd (health_data hm))"
  by (simp add: report_check_result_def health_data_def inner_data_def inner_report_eq Let_def)

end
