(* ===== verification/Signal.thy ===== *)
theory Signal
  imports Ebb_Prelude
begin

text \<open>
  The one-shot stop signal of \<open>src/src/signal.rs\<close>, built on the \<open>tokio::sync::watch\<close> channel. The
  channel is a parameter: its operations on an abstract channel state and an abstract receiver
  cursor. \<open>watch_laws\<close> is its documented behaviour: a receiver gets the latest value at its first
  \<open>recv\<close> and again after each \<open>broadcast\<close>, waits in between, and gets \<open>None\<close> once the sender is gone
  and nothing new is left.

  \<open>wait_poll\<close> runs the loop of \<open>SignalReceiver::wait\<close> in one channel state, up to its end or to the
  \<open>recv\<close> that is not ready; \<open>None\<close> would be a loop that does neither, and is shown not to happen.
\<close>

record ('ch, 'r) watch =
  w_channel :: "bool \<Rightarrow> 'ch \<times> 'r"
  w_broadcast :: "bool \<Rightarrow> 'ch \<Rightarrow> 'ch"
  w_close :: "'ch \<Rightarrow> 'ch"
  w_recv :: "'ch \<Rightarrow> 'r \<Rightarrow> (bool option \<times> 'r) option"

record ('ch, 'r) signal_sender =
  ss_sender :: 'ch
  ss_receiver :: 'r

definition signal_sender_new :: "('ch, 'r) watch \<Rightarrow> ('ch, 'r) signal_sender" where
  "signal_sender_new ops = (let (s, r) = w_channel ops False in \<lparr>ss_sender = s, ss_receiver = r\<rparr>)"

text \<open>A \<open>SignalReceiver\<close> is its cursor; \<open>new_receiver\<close> clones the sender's own, which is never read.\<close>

definition new_receiver :: "('ch, 'r) signal_sender \<Rightarrow> 'r" where
  "new_receiver s = ss_receiver s"

definition send_signal :: "('ch, 'r) watch \<Rightarrow> ('ch, 'r) signal_sender \<Rightarrow> ('ch, 'r) signal_sender" where
  "send_signal ops s = s\<lparr>ss_sender := w_broadcast ops True (ss_sender s)\<rparr>"

text \<open>Dropping the last clone of the sender, as a task does when it ends.\<close>

definition drop_sender :: "('ch, 'r) watch \<Rightarrow> ('ch, 'r) signal_sender \<Rightarrow> ('ch, 'r) signal_sender" where
  "drop_sender ops s = s\<lparr>ss_sender := w_close ops (ss_sender s)\<rparr>"

datatype 'r wait_result = Done | Pending 'r

partial_function (option) wait_poll ::
    "('ch, 'r) watch \<Rightarrow> 'ch \<Rightarrow> 'r \<Rightarrow> 'r wait_result option" where
  "wait_poll ops ch r = (case w_recv ops ch r of
     None \<Rightarrow> Some (Pending r)
   | Some (v, r') \<Rightarrow> (case v of
       None \<Rightarrow> Some Done
     | Some b \<Rightarrow> if b then Some Done else wait_poll ops ch r'))"

text \<open>The documented view of a channel: its latest value, whether the sender is gone, and, for the
  cursors that belong to the channel, whether the latest value is new to them.\<close>

record ('ch, 'r) watch_view =
  v_latest :: "'ch \<Rightarrow> bool"
  v_closed :: "'ch \<Rightarrow> bool"
  v_valid :: "'ch \<Rightarrow> 'r \<Rightarrow> bool"
  v_unseen :: "'ch \<Rightarrow> 'r \<Rightarrow> bool"

definition watch_laws :: "('ch, 'r) watch \<Rightarrow> ('ch, 'r) watch_view \<Rightarrow> bool" where
  "watch_laws ops v \<longleftrightarrow>
     (\<forall>b ch r. w_channel ops b = (ch, r) \<longrightarrow>
        v_latest v ch = b \<and> v_valid v ch r \<and> v_unseen v ch r \<and> \<not> v_closed v ch) \<and>
     (\<forall>b ch. v_latest v (w_broadcast ops b ch) = b \<and>
        v_closed v (w_broadcast ops b ch) = v_closed v ch) \<and>
     (\<forall>b ch r. v_valid v ch r \<longrightarrow>
        v_valid v (w_broadcast ops b ch) r \<and> v_unseen v (w_broadcast ops b ch) r) \<and>
     (\<forall>ch. v_latest v (w_close ops ch) = v_latest v ch \<and> v_closed v (w_close ops ch)) \<and>
     (\<forall>ch r. v_valid v ch r \<longrightarrow>
        v_valid v (w_close ops ch) r \<and> v_unseen v (w_close ops ch) r = v_unseen v ch r) \<and>
     (\<forall>ch r. v_valid v ch r \<longrightarrow>
        (if v_unseen v ch r then
           \<exists>r'. w_recv ops ch r = Some (Some (v_latest v ch), r') \<and> v_valid v ch r' \<and> \<not> v_unseen v ch r'
         else if v_closed v ch then \<exists>r'. w_recv ops ch r = Some (None, r')
         else w_recv ops ch r = None))"

section \<open>The loop\<close>

lemma wait_poll_seen:
  assumes "watch_laws ops v" "v_valid v ch r" "\<not> v_unseen v ch r"
  shows "wait_poll ops ch r = Some (if v_closed v ch then Done else Pending r)"
proof -
  have "if v_closed v ch then \<exists>r'. w_recv ops ch r = Some (None, r') else w_recv ops ch r = None"
    using assms unfolding watch_laws_def by metis
  then show ?thesis by (auto simp: wait_poll.simps [of ops ch r] split: if_splits)
qed

lemma wait_poll_unseen:
  assumes "watch_laws ops v" "v_valid v ch r" "v_unseen v ch r"
  shows "\<exists>r'. wait_poll ops ch r = Some (if v_latest v ch \<or> v_closed v ch then Done else Pending r') \<and>
    v_valid v ch r'"
proof -
  obtain r' where r': "w_recv ops ch r = Some (Some (v_latest v ch), r')"
    "v_valid v ch r'" "\<not> v_unseen v ch r'"
    using assms unfolding watch_laws_def by metis
  have "wait_poll ops ch r = (if v_latest v ch then Some Done else wait_poll ops ch r')"
    by (simp add: wait_poll.simps [of ops ch r] r'(1))
  then show ?thesis using wait_poll_seen [OF assms(1) r'(2,3)] r'(2) by auto
qed

text \<open>In a fired channel the loop ends; a cursor the loop suspends with is again one of the channel.\<close>

lemma wait_poll_closed:
  assumes "watch_laws ops v" "v_valid v ch r" "v_closed v ch"
  shows "wait_poll ops ch r = Some Done"
  using wait_poll_seen [OF assms(1,2)] wait_poll_unseen [OF assms(1,2)] assms(3)
  by (cases "v_unseen v ch r") auto

lemma wait_poll_pending_valid:
  assumes "watch_laws ops v" "v_valid v ch r" "wait_poll ops ch r = Some (Pending r')"
  shows "v_valid v ch r'"
  using wait_poll_seen [OF assms(1,2)] wait_poll_unseen [OF assms(1,2)] assms(2,3)
  by (cases "v_unseen v ch r") (auto split: if_splits)

section \<open>Histories of a signal\<close>

datatype signal_op = SendSignal | DropSender

fun apply_signal_op :: "('ch, 'r) watch \<Rightarrow> signal_op \<Rightarrow> ('ch, 'r) signal_sender \<Rightarrow> ('ch, 'r) signal_sender" where
  "apply_signal_op ops SendSignal s = send_signal ops s"
| "apply_signal_op ops DropSender s = drop_sender ops s"

definition signal_run ::
    "('ch, 'r) watch \<Rightarrow> signal_op list \<Rightarrow> ('ch, 'r) signal_sender \<Rightarrow> ('ch, 'r) signal_sender" where
  "signal_run ops h s = fold (apply_signal_op ops) h s"

text \<open>The signal is fired when it was sent or its sender is gone; the invariant relates the channel
  to the operations so far.\<close>

definition signal_inv ::
    "('ch, 'r) watch_view \<Rightarrow> 'r \<Rightarrow> signal_op list \<Rightarrow> ('ch, 'r) signal_sender \<Rightarrow> bool" where
  "signal_inv v r0 h s \<longleftrightarrow>
     (v_latest v (ss_sender s) \<or> v_closed v (ss_sender s) \<longleftrightarrow> h \<noteq> []) \<and>
     v_valid v (ss_sender s) r0 \<and> v_unseen v (ss_sender s) r0 \<and> ss_receiver s = r0"

lemma signal_inv_new:
  assumes "watch_laws ops v"
  shows "signal_inv v (new_receiver (signal_sender_new ops)) [] (signal_sender_new ops)"
  using assms
  by (auto simp: watch_laws_def signal_inv_def signal_sender_new_def new_receiver_def split: prod.splits)

lemma signal_inv_op:
  assumes "watch_laws ops v" and "signal_inv v r0 h s"
  shows "signal_inv v r0 (h @ [a]) (apply_signal_op ops a s)"
  using assms by (cases a) (auto simp: watch_laws_def signal_inv_def send_signal_def drop_sender_def)

lemma signal_inv_run:
  assumes "watch_laws ops v"
  shows "signal_inv v (new_receiver (signal_sender_new ops)) h
    (signal_run ops h (signal_sender_new ops))"
proof (induction h rule: rev_induct)
  case Nil
  then show ?case using signal_inv_new [OF assms] by (simp add: signal_run_def)
next
  case (snoc a h)
  from signal_inv_op [OF assms this] show ?case by (simp add: signal_run_def)
qed

lemma wait_poll_run:
  assumes "watch_laws ops v"
  shows "\<exists>r'. wait_poll ops (ss_sender (signal_run ops h (signal_sender_new ops)))
      (new_receiver (signal_sender_new ops)) = Some (if h = [] then Pending r' else Done)"
proof -
  let ?s = "signal_run ops h (signal_sender_new ops)" and ?r = "new_receiver (signal_sender_new ops)"
  have inv: "signal_inv v ?r h ?s" by (rule signal_inv_run [OF assms])
  then obtain r' where "wait_poll ops (ss_sender ?s) ?r =
      Some (if v_latest v (ss_sender ?s) \<or> v_closed v (ss_sender ?s) then Done else Pending r')"
    using wait_poll_unseen [OF assms, of "ss_sender ?s" ?r] by (auto simp: signal_inv_def)
  with inv show ?thesis by (auto simp: signal_inv_def)
qed

section \<open>Properties\<close>

text \<open>The channel of the witnesses: a value, a version and a closed flag; a cursor is the version
  last seen.\<close>

definition demo_watch :: "(bool \<times> nat \<times> bool, nat) watch" where
  "demo_watch = \<lparr>
     w_channel = (\<lambda>b. ((b, 1, False), 0)),
     w_broadcast = (\<lambda>b (_, n, c). (b, Suc n, c)),
     w_close = (\<lambda>(b, n, _). (b, n, True)),
     w_recv = (\<lambda>(b, n, c) r. if r < n then Some (Some b, n) else if c then Some (None, r) else None)\<rparr>"

definition demo_view :: "(bool \<times> nat \<times> bool, nat) watch_view" where
  "demo_view = \<lparr>v_latest = fst, v_closed = (\<lambda>(b, n, c). c),
     v_valid = (\<lambda>(b, n, c) r. r \<le> n), v_unseen = (\<lambda>(b, n, c) r. r < n)\<rparr>"

lemma demo_watch_laws: "watch_laws demo_watch demo_view"
  by (auto simp: watch_laws_def demo_watch_def demo_view_def)

text \<open>C21. The stop signal is a latch: whatever was done with the sender since the signal was made, the
  loop of \<open>wait\<close> on a receiver of it ends, and it ends at once if the signal was sent or the sender
  dropped at some time before (also when the receiver is taken or read only afterwards); otherwise
  it suspends, so no receiver is woken without a reason.\<close>

theorem wait_is_latch:
  assumes "watch_laws ops v"
  shows "\<exists>r'. wait_poll ops (ss_sender (signal_run ops h (signal_sender_new ops)))
      (new_receiver (signal_sender_new ops)) = Some (if h = [] then Pending r' else Done)"
  using assms by (rule wait_poll_run)

theorem wait_is_latch_witness:
  "\<exists>r'. wait_poll demo_watch
      (ss_sender (signal_run demo_watch [SendSignal] (signal_sender_new demo_watch)))
      (new_receiver (signal_sender_new demo_watch)) = Some (if [SendSignal] = [] then Pending r' else Done)"
  by (rule wait_is_latch [OF demo_watch_laws])

text \<open>A receiver that is already waiting is woken: if \<open>wait\<close> suspended on a cursor of the channel,
  then after \<open>send_signal\<close>, or once the sender is dropped, the loop ends when it goes on from the
  cursor it suspended with.\<close>

theorem pending_wait_is_woken:
  assumes "watch_laws ops v" and "v_valid v (ss_sender s) r"
    and "wait_poll ops (ss_sender s) r = Some (Pending r')"
  shows "wait_poll ops (ss_sender (send_signal ops s)) r' = Some Done \<and>
    wait_poll ops (ss_sender (drop_sender ops s)) r' = Some Done"
proof -
  note val = wait_poll_pending_valid [OF assms]
  from assms(1) val have "v_latest v (ss_sender (send_signal ops s))"
    "v_valid v (ss_sender (send_signal ops s)) r'" "v_unseen v (ss_sender (send_signal ops s)) r'"
    "v_closed v (ss_sender (drop_sender ops s))" "v_valid v (ss_sender (drop_sender ops s)) r'"
    by (simp_all add: watch_laws_def send_signal_def drop_sender_def)
  then show ?thesis
    using wait_poll_unseen [OF assms(1)] wait_poll_closed [OF assms(1)] by fastforce
qed

theorem pending_wait_is_woken_witness:
  "wait_poll demo_watch (ss_sender (send_signal demo_watch (signal_sender_new demo_watch))) 1 = Some Done"
proof -
  have "wait_poll demo_watch (ss_sender (signal_sender_new demo_watch)) 0 = Some (Pending 1)"
    by (simp add: wait_poll.simps signal_sender_new_def demo_watch_def)
  moreover have "v_valid demo_view (ss_sender (signal_sender_new demo_watch)) 0"
    by (simp add: demo_view_def signal_sender_new_def demo_watch_def)
  ultimately show ?thesis using pending_wait_is_woken [OF demo_watch_laws] by blast
qed

end
