(* ===== verification/Shared_Info.thy ===== *)
theory Shared_Info
  imports Config
begin

text \<open>
  What all endpoints of a process share, \<open>SharedInfo\<close> of \<open>src/src/daemon/mod.rs\<close>, and the resolver of
  \<open>src/src/dns.rs\<close> behind it. The DNS library (\<open>trust_dns_resolver\<close>) is a parameter: the outcome of
  an IPv4 lookup of each name within the time limit. The random number generator is a parameter:
  the index it picks below a bound. \<open>webpki\<close>'s test of DNS names is a parameter too.
\<close>

type_synonym ipv4 = "u8 \<times> u8 \<times> u8 \<times> u8"

section \<open>The resolver\<close>

datatype resolve_error_kind = NoRecordsFound | OtherResolveError

datatype lookup_outcome =
    LookupTimedOut
  | LookupFailed resolve_error_kind
  | LookupOk "ipv4 list"

record resolver_config =
  rc_name_servers :: "ipv4 list"
  rc_name_server_port :: u16
  rc_positive_max_ttl_secs :: nat
  rc_negative_max_ttl_secs :: nat

definition dns_resolver_config :: resolver_config where
  "dns_resolver_config =
     \<lparr>rc_name_servers = [(1, 1, 1, 1), (1, 0, 0, 1), (9, 9, 9, 9), (8, 8, 8, 8), (8, 8, 4, 4)],
      rc_name_server_port = 53,
      rc_positive_max_ttl_secs = 60 * 60, rc_negative_max_ttl_secs = 60 * 60\<rparr>"

text \<open>A resolver answers lookups; \<open>build\<close> is \<open>TokioAsyncResolver::tokio\<close>, which may fail.\<close>

type_synonym resolver = "string \<Rightarrow> lookup_outcome"

definition dns_resolver_new :: "(resolver_config \<Rightarrow> resolver option) \<Rightarrow> unit + resolver" where
  "dns_resolver_new build = ok_or () (build dns_resolver_config)"

definition dns_ips :: "resolver \<Rightarrow> string \<Rightarrow> unit + ipv4 list" where
  "dns_ips trust domain = (case trust domain of
     LookupTimedOut \<Rightarrow> Err ()
   | LookupFailed kind \<Rightarrow> (case kind of NoRecordsFound \<Rightarrow> Ok [] | OtherResolveError \<Rightarrow> Err ())
   | LookupOk ips \<Rightarrow> Ok ips)"

section \<open>Shared information\<close>

definition EBBFLOW_DNS :: string where "EBBFLOW_DNS = ''s.ebbflow.io''"
definition EBBFLOW_PORT :: u16 where "EBBFLOW_PORT = 443"

record 'roots shared_info =
  si_dns :: resolver
  si_key :: "string option"
  si_roots :: 'roots
  si_hardcoded_ebbflow_addr :: "socket_addr_v4 option"
  si_hardcoded_ebbflow_dns :: "string option"

definition innernew ::
    "(resolver_config \<Rightarrow> resolver option) \<Rightarrow> socket_addr_v4 option \<Rightarrow> string option \<Rightarrow> 'roots
       \<Rightarrow> unit + 'roots shared_info" where
  "innernew build overriddenmaybe overridedns roots =
     and_then (dns_resolver_new build) (\<lambda>dns.
       Ok \<lparr>si_dns = dns, si_key = None, si_roots = roots,
           si_hardcoded_ebbflow_addr = overriddenmaybe, si_hardcoded_ebbflow_dns = overridedns\<rparr>)"

definition shared_info_new ::
    "(resolver_config \<Rightarrow> resolver option) \<Rightarrow> 'roots \<Rightarrow> unit + 'roots shared_info" where
  "shared_info_new build roots = innernew build None None roots"

definition new_with_ebbflow_overrides ::
    "(resolver_config \<Rightarrow> resolver option) \<Rightarrow> socket_addr_v4 \<Rightarrow> string \<Rightarrow> 'roots
       \<Rightarrow> unit + 'roots shared_info" where
  "new_with_ebbflow_overrides build addr dns roots = innernew build (Some addr) (Some dns) roots"

definition update_key :: "string \<Rightarrow> 'roots shared_info \<Rightarrow> 'roots shared_info" where
  "update_key newkey info = info\<lparr>si_key := Some newkey\<rparr>"

definition fallback_ips :: "ipv4 list" where
  "fallback_ips = [(75, 2, 87, 195), (99, 83, 181, 168), (34, 120, 207, 167)]"

text \<open>\<open>unwrap\<close> on \<open>None\<close> or on an error is a panic, which ends the task that runs it.\<close>

datatype panic = UnwrapFailed

text \<open>\<open>choose\<close> of a slice: \<open>None\<close> when it is empty, else the element at the index the generator picks.\<close>

definition slice_choose :: "(nat \<Rightarrow> nat) \<Rightarrow> 'a list \<Rightarrow> 'a option" where
  "slice_choose rng xs = (if xs = [] then None else Some (xs ! rng (length xs)))"

definition ebbflow_addr :: "(nat \<Rightarrow> nat) \<Rightarrow> 'roots shared_info \<Rightarrow> panic + socket_addr_v4" where
  "ebbflow_addr rng info = (case si_hardcoded_ebbflow_addr info of
     Some overridden \<Rightarrow> Ok overridden
   | None \<Rightarrow>
       (let ips = (case dns_ips (si_dns info) EBBFLOW_DNS of Inr ips \<Rightarrow> ips | Inl _ \<Rightarrow> fallback_ips)
        in case slice_choose rng ips of
             None \<Rightarrow> Err UnwrapFailed
           | Some chosen \<Rightarrow> Ok \<lparr>sa_ip = chosen, sa_port = EBBFLOW_PORT\<rparr>))"

definition ebbflow_dns :: "(string \<Rightarrow> bool) \<Rightarrow> 'roots shared_info \<Rightarrow> panic + string" where
  "ebbflow_dns valid_name info = (case si_hardcoded_ebbflow_dns info of
     Some overridden \<Rightarrow> if valid_name overridden then Ok overridden else Err UnwrapFailed
   | None \<Rightarrow> if valid_name EBBFLOW_DNS then Ok EBBFLOW_DNS else Err UnwrapFailed)"

section \<open>Properties\<close>

lemma slice_choose_Some: "(\<And>n. 0 < n \<Longrightarrow> rng n < n) \<Longrightarrow> xs \<noteq> [] \<Longrightarrow> \<exists>x \<in> set xs. slice_choose rng xs = Some x"
  by (auto simp: slice_choose_def)

text \<open>C36. Where connections go, for every outcome of the lookup: an override is always used; otherwise the
  address is on port 443 and is one of the resolved addresses, if there are any, or one of the three
  built-in ones when the lookup times out or fails. When the lookup succeeds without an address, or
  reports that there are no records, the task panics instead.\<close>

theorem ebbflow_addr_choice:
  assumes "\<And>n. 0 < n \<Longrightarrow> rng n < n"
  shows "(case si_hardcoded_ebbflow_addr info of
      Some a \<Rightarrow> ebbflow_addr rng info = Ok a
    | None \<Rightarrow> (case si_dns info EBBFLOW_DNS of
        LookupOk ips \<Rightarrow>
          if ips = [] then ebbflow_addr rng info = Err UnwrapFailed
          else (\<exists>ip \<in> set ips. ebbflow_addr rng info = Ok \<lparr>sa_ip = ip, sa_port = 443\<rparr>)
      | LookupFailed NoRecordsFound \<Rightarrow> ebbflow_addr rng info = Err UnwrapFailed
      | _ \<Rightarrow> (\<exists>ip \<in> set fallback_ips. ebbflow_addr rng info = Ok \<lparr>sa_ip = ip, sa_port = 443\<rparr>)))"
proof -
  have "\<exists>ip \<in> set fallback_ips. slice_choose rng fallback_ips = Some ip"
    by (rule slice_choose_Some [OF assms]) (simp_all add: fallback_ips_def)
  moreover have "ips \<noteq> [] \<Longrightarrow> \<exists>ip \<in> set ips. slice_choose rng ips = Some ip" for ips :: "ipv4 list"
    by (rule slice_choose_Some [OF assms])
  moreover have "slice_choose rng ([] :: ipv4 list) = None" by (simp add: slice_choose_def)
  ultimately show ?thesis
    by (fastforce simp: ebbflow_addr_def dns_ips_def EBBFLOW_PORT_def
        split: option.splits lookup_outcome.splits resolve_error_kind.splits)
qed

definition demo_info :: "lookup_outcome \<Rightarrow> unit shared_info" where
  "demo_info r = \<lparr>si_dns = (\<lambda>_. r), si_key = None, si_roots = (),
     si_hardcoded_ebbflow_addr = None, si_hardcoded_ebbflow_dns = None\<rparr>"

theorem ebbflow_addr_choice_witness:
  "\<exists>ip \<in> set fallback_ips.
     ebbflow_addr (\<lambda>_. 0) (demo_info LookupTimedOut) = Ok \<lparr>sa_ip = ip, sa_port = 443\<rparr>"
  using ebbflow_addr_choice [of "\<lambda>_. 0" "demo_info LookupTimedOut"] by (simp add: demo_info_def)



end
