(* ===== verification/Endpoint.thy ===== *)
theory Endpoint
  imports Health Signal Message_Queue
begin

text \<open>
  An endpoint of the daemon, \<open>src/src/daemon/mod.rs\<close>: its arguments, the \<open>EndpointMeta\<close> that the
  daemon keeps of it, the addresses it connects to and the part of \<open>spawn_endpoint\<close> that runs in the
  caller. The task it starts is in theory \<open>Supervisor\<close>.

  The world is the state that endpoints and the daemon share: the message queue, with a clock that
  ticks at each message, and the tasks spawned so far. An \<open>Arc<EndpointMeta>\<close> is an index into the
  tasks. The stop signal of an endpoint is the list of the operations done on its sender; theory
  \<open>Signal\<close> shows that its receivers see exactly whether that list is empty.
\<close>

section \<open>Addresses\<close>

datatype socket_addr = V4 socket_addr_v4 | V6 string u16

fun is_ipv4 :: "socket_addr \<Rightarrow> bool" where
  "is_ipv4 (V4 _) = True"
| "is_ipv4 (V6 _ _) = False"

text \<open>\<open>sort_by\<close> is stable; the comparison orders IPv4 before IPv6 and nothing else.\<close>

definition prioritize_ipv4 :: "socket_addr list \<Rightarrow> socket_addr list" where
  "prioritize_ipv4 addrs = sort_key (\<lambda>a. if is_ipv4 a then 0 else 1 :: nat) addrs"

section \<open>The world\<close>

datatype endpoint_connection_type = Ssh | Tls

record endpoint_args =
  ea_ctype :: endpoint_connection_type
  ea_idleconns :: usize
  ea_maxconns :: usize
  ea_endpoint :: string
  ea_port :: u16
  ea_healthcheck :: "health_check option"

record endpoint_meta =
  em_idle :: usize
  em_active :: usize
  em_stopper :: "signal_op list"
  em_healthdata :: "health_master option"

record task =
  tk_meta :: endpoint_meta
  tk_args :: endpoint_args
  tk_conn_addrs :: "socket_addr list"
  tk_hc_addrs :: "socket_addr list option"

record world =
  wd_queue :: message_queue
  wd_clock :: nat
  wd_tasks :: "task list"

text \<open>The environment: the time stamp of each message, the successive answers of the operating system
  to the lookups of one call of \<open>get_addrs\<close> for \<open>localhost\<close> with a port, and its host name. The clock of
  the world counts messages and calls, so each call has answers of its own.\<close>

datatype hostname_outcome = Hostname string | HostnameNotUnicode string | HostnameError string

record env =
  env_now :: "nat \<Rightarrow> string"
  env_lookup :: "nat \<Rightarrow> u16 \<Rightarrow> (string + socket_addr list) list"
  env_hostname :: hostname_outcome

text \<open>A call that does not return: the process exits, or it waits for ever.\<close>

datatype halt = ProcessExit | Hang

definition log_message :: "env \<Rightarrow> string \<Rightarrow> 'z world_scheme \<Rightarrow> 'z world_scheme" where
  "log_message env m w =
     w\<lparr>wd_queue := add_message (env_now env (wd_clock w)) m (wd_queue w), wd_clock := Suc (wd_clock w)\<rparr>"

text \<open>The loop of \<open>get_addrs\<close> over the answers to its lookups; when they run out it is still looping.\<close>

fun get_addrs_loop ::
    "env \<Rightarrow> (string + socket_addr list) list \<Rightarrow> 'z world_scheme \<Rightarrow> halt + (socket_addr list \<times> 'z world_scheme)"
where
  "get_addrs_loop env [] w = Err Hang"
| "get_addrs_loop env (Inr i # _) w = Ok (prioritize_ipv4 i, w)"
| "get_addrs_loop env (Inl e # rest) w =
     get_addrs_loop env rest (log_message env (''Extremely unexpected error, could not resolve DNS of localhost, will try again in a second '' @ e) w)"

definition get_addrs ::
    "env \<Rightarrow> u16 \<Rightarrow> 'z world_scheme \<Rightarrow> halt + (socket_addr list \<times> 'z world_scheme)" where
  "get_addrs env port w = get_addrs_loop env (env_lookup env (wd_clock w) port) (w\<lparr>wd_clock := Suc (wd_clock w)\<rparr>)"

section \<open>The endpoint's meta data\<close>

datatype health_overall =
    NOT_CONFIGURED
  | HEALTHY "(bool \<times> u128) list"
  | UNHEALTHY "(bool \<times> u128) list"

definition endpoint_meta_new :: "health_master option \<Rightarrow> endpoint_meta" where
  "endpoint_meta_new hm = \<lparr>em_idle = 0, em_active = 0, em_stopper = [], em_healthdata = hm\<rparr>"

definition num_active :: "endpoint_meta \<Rightarrow> usize" where "num_active m = em_active m"
definition num_idle :: "endpoint_meta \<Rightarrow> usize" where "num_idle m = em_idle m"

definition meta_stop :: "endpoint_meta \<Rightarrow> endpoint_meta" where
  "meta_stop m = m\<lparr>em_stopper := em_stopper m @ [SendSignal]\<rparr>"

definition meta_health :: "endpoint_meta \<Rightarrow> health_overall" where
  "meta_health m = (case em_healthdata m of
     None \<Rightarrow> NOT_CONFIGURED
   | Some hm \<Rightarrow> (let (status, datapoints) = health_data hm in
        if status then HEALTHY datapoints else UNHEALTHY datapoints))"

definition add_idle :: "endpoint_meta \<Rightarrow> endpoint_meta" where
  "add_idle m = m\<lparr>em_idle := em_idle m + 1\<rparr>"
definition remove_idle :: "endpoint_meta \<Rightarrow> endpoint_meta" where
  "remove_idle m = m\<lparr>em_idle := em_idle m - 1\<rparr>"
definition add_active :: "endpoint_meta \<Rightarrow> endpoint_meta" where
  "add_active m = m\<lparr>em_active := em_active m + 1\<rparr>"
definition remove_active :: "endpoint_meta \<Rightarrow> endpoint_meta" where
  "remove_active m = m\<lparr>em_active := em_active m - 1\<rparr>"

section \<open>Spawning\<close>

definition MAX_IDLE :: usize where "MAX_IDLE = 1000"

definition spawn_endpoint ::
    "env \<Rightarrow> endpoint_args \<Rightarrow> 'z world_scheme \<Rightarrow> halt + (nat \<times> 'z world_scheme)" where
  "spawn_endpoint env args w =
     (let maybe_hc = (case ea_healthcheck args of
            None \<Rightarrow> None
          | Some hc \<Rightarrow> Some (health_master_new (concrete_health_check_new (ea_port args) hc)));
          meta = endpoint_meta_new maybe_hc;
          args1 = args\<lparr>ea_idleconns := min (ea_idleconns args) MAX_IDLE\<rparr>;
          w1 = log_message env (''Endpoint '' @ ea_endpoint args @ '' is enabled'') w
      in and_then (get_addrs env (ea_port args1) w1) (\<lambda>(conn_addrs, w2).
         and_then (case maybe_hc of
             None \<Rightarrow> Ok (None, w2)
           | Some hm \<Rightarrow> and_then (get_addrs env (chc_port (hm_cfg hm)) w2) (\<lambda>(addrs, w3).
               Ok (Some addrs, w3))) (\<lambda>(hc_info, w3).
         Ok (length (wd_tasks w3),
             w3\<lparr>wd_tasks := wd_tasks w3 @
               [\<lparr>tk_meta = meta, tk_args = args1, tk_conn_addrs = conn_addrs, tk_hc_addrs = hc_info\<rparr>]\<rparr>))))"

definition update_meta :: "nat \<Rightarrow> (endpoint_meta \<Rightarrow> endpoint_meta) \<Rightarrow> 'z world_scheme \<Rightarrow> 'z world_scheme" where
  "update_meta i f w =
     w\<lparr>wd_tasks := (wd_tasks w)[i := (wd_tasks w ! i)\<lparr>tk_meta := f (tk_meta (wd_tasks w ! i))\<rparr>]\<rparr>"

definition stop_task :: "nat \<Rightarrow> 'z world_scheme \<Rightarrow> 'z world_scheme" where
  "stop_task i w = update_meta i meta_stop w"

section \<open>Lemmas\<close>

lemma log_message_simps [simp]:
  "wd_tasks (log_message env m w) = wd_tasks w"
  "world.more (log_message env m w) = world.more w"
  by (simp_all add: log_message_def)

text \<open>Looking up addresses only adds messages.\<close>

lemma get_addrs_loop_frame:
  "get_addrs_loop env as w = Inr (addrs, w') \<Longrightarrow>
     wd_tasks w' = wd_tasks w \<and> world.more w' = world.more w"
  by (induction env as w rule: get_addrs_loop.induct) auto

lemma get_addrs_frame:
  "get_addrs env p w = Inr (addrs, w') \<Longrightarrow> wd_tasks w' = wd_tasks w \<and> world.more w' = world.more w"
  by (auto simp: get_addrs_def dest: get_addrs_loop_frame)

lemma get_addrs_loop_returns:
  "(\<exists>r \<in> set as. \<not> isl r) \<Longrightarrow> \<exists>addrs w'. get_addrs_loop env as w = Inr (addrs, w')"
  by (induction env as w rule: get_addrs_loop.induct) auto

text \<open>\<open>localhost\<close> can be resolved on a port when in every call some lookup succeeds.\<close>

definition resolves :: "env \<Rightarrow> u16 \<Rightarrow> bool" where
  "resolves env p \<longleftrightarrow> (\<forall>t. \<exists>r \<in> set (env_lookup env t p). \<not> isl r)"

lemma get_addrs_returns: "resolves env p \<Longrightarrow> \<exists>addrs w'. get_addrs env p w = Inr (addrs, w')"
  by (simp add: get_addrs_def resolves_def get_addrs_loop_returns)

lemma get_addrs_no_exit: "get_addrs env p w \<noteq> Inl ProcessExit"
proof -
  have "get_addrs_loop env as w \<noteq> Inl ProcessExit" for as and w :: "'a world_scheme"
    by (induction env as w rule: get_addrs_loop.induct) auto
  then show ?thesis by (simp add: get_addrs_def)
qed

text \<open>A spawned endpoint is one new task at the end, not stopped, with its idle connections capped.\<close>

lemma spawn_endpoint_Inr:
  assumes "spawn_endpoint env args w = Inr (i, w')"
  shows "\<exists>t. i = length (wd_tasks w) \<and> wd_tasks w' = wd_tasks w @ [t] \<and>
    world.more w' = world.more w \<and> em_stopper (tk_meta t) = [] \<and>
    tk_args t = args\<lparr>ea_idleconns := min (ea_idleconns args) MAX_IDLE\<rparr> \<and>
    em_idle (tk_meta t) = 0 \<and> em_active (tk_meta t) = 0"
  using assms
  by (auto simp: spawn_endpoint_def Let_def and_then_Inr_iff endpoint_meta_new_def
      split: option.splits prod.splits dest!: get_addrs_frame)

lemma spawn_endpoint_returns:
  assumes "resolves env (ea_port args)"
    and "\<And>hc. ea_healthcheck args = Some hc \<Longrightarrow> resolves env (unwrap_or (hc_port hc) (ea_port args))"
  shows "\<exists>i w'. spawn_endpoint env args w = Inr (i, w')"
proof -
  let ?w = "log_message env (''Endpoint '' @ ea_endpoint args @ '' is enabled'') w"
  obtain addrs w1 where 1: "get_addrs env (ea_port args) ?w = Inr (addrs, w1)"
    using get_addrs_returns [OF assms(1)] by blast
  show ?thesis
  proof (cases "ea_healthcheck args")
    case None
    with 1 show ?thesis by (simp add: spawn_endpoint_def Let_def)
  next
    case (Some hc)
    obtain addrs2 w2 where "get_addrs env (unwrap_or (hc_port hc) (ea_port args)) w1 = Inr (addrs2, w2)"
      using get_addrs_returns [OF assms(2) [OF Some]] by blast
    with 1 Some show ?thesis
      by (simp add: spawn_endpoint_def Let_def health_master_new_def concrete_health_check_new_def)
  qed
qed

lemma spawn_endpoint_no_exit: "spawn_endpoint env args w \<noteq> Inl ProcessExit"
  using get_addrs_no_exit
  by (fastforce simp: spawn_endpoint_def Let_def and_then_Inl_iff split: option.splits prod.splits)

lemma stop_task_simps [simp]:
  "length (wd_tasks (stop_task i w)) = length (wd_tasks w)"
  "world.more (stop_task i w) = world.more w"
  "wd_queue (stop_task i w) = wd_queue w"
  by (simp_all add: stop_task_def update_meta_def)

lemma nth_stop_task:
  "j < length (wd_tasks w) \<Longrightarrow>
     wd_tasks (stop_task i w) ! j =
       (if j = i then (wd_tasks w ! i)\<lparr>tk_meta := meta_stop (tk_meta (wd_tasks w ! i))\<rparr> else wd_tasks w ! j)"
  by (simp add: stop_task_def update_meta_def nth_list_update)

lemma unat_ucast_u16: "unat (ucast (x :: u16) :: usize) = unat x"
proof -
  have "unat x < 2 ^ 16" using unsigned_less [of x] by simp
  also have "(2::nat) ^ 16 < 2 ^ 64" by simp
  finally have "unat x < 2 ^ 64" .
  then have "take_bit 64 (unat x) = unat x" by (rule take_bit_nat_eq_self)
  then show ?thesis by (simp add: unsigned_ucast_eq)
qed

lemma ucast_min: "(ucast (min x y :: u16) :: usize) = min (ucast x) (ucast y)"
  by (simp add: min_def word_le_nat_alt unat_ucast_u16)

end
