(* ===== verification/Supervisor.thy ===== *)
theory Supervisor
  imports Endpoint
begin

text \<open>
  The task of an endpoint, which \<open>spawn_endpoint\<close> of \<open>src/src/daemon/mod.rs\<close> starts: it waits until the
  endpoint is healthy, starts a group of connections, waits until the endpoint is unhealthy, stops the
  group and begins again, until the daemon tells it to stop; and the health check it repeats.

  A step of the task is one health check with its report, the start of a group without a health check,
  or the stop signal winning the \<open>select\<close>; the daemon's \<open>EndpointMeta::stop\<close> is a step of the
  environment. A group of connections is known by the operations done so far on the sender of its own
  signal: theory \<open>Signal\<close> shows that its receivers are stopped exactly when there was one.
\<close>

section \<open>Health checks\<close>

text \<open>What the network does with a connection attempt: after some time it succeeds or fails, or it never
  answers (\<open>None\<close>). The check tries the addresses in turn and has one second for all of them.\<close>

type_synonym tcp_net = "socket_addr \<Rightarrow> (millis \<times> bool) option"

fun inner_healthcheck_tcp :: "tcp_net \<Rightarrow> socket_addr list \<Rightarrow> (millis \<times> bool) option" where
  "inner_healthcheck_tcp net [] = Some (0, False)"
| "inner_healthcheck_tcp net (addr # addrs) = (case net addr of
     None \<Rightarrow> None
   | Some (t, ok) \<Rightarrow>
       if ok then Some (t, True)
       else (case inner_healthcheck_tcp net addrs of
               None \<Rightarrow> None
             | Some (t', r) \<Rightarrow> Some (t + t', r)))"

definition inner_healthcheck ::
    "tcp_net \<Rightarrow> concrete_health_check \<Rightarrow> socket_addr list \<Rightarrow> (millis \<times> bool) option" where
  "inner_healthcheck net hc addrs = (case chc_type hc of TCP \<Rightarrow> inner_healthcheck_tcp net addrs)"

definition healthcheck :: "tcp_net \<Rightarrow> concrete_health_check \<Rightarrow> socket_addr list \<Rightarrow> bool" where
  "healthcheck net hc addrs = (case inner_healthcheck net hc addrs of
     Some (t, r) \<Rightarrow> t \<le> 1000 \<and> r
   | None \<Rightarrow> False)"

section \<open>The task\<close>

datatype sup_phase = AwaitHealthy | AwaitUnhealthy | TaskOver

record sup =
  sv_phase :: sup_phase
  sv_meta :: endpoint_meta
  sv_groups :: "signal_op list list"
  sv_messages :: "string list"

definition sup_start :: "endpoint_meta \<Rightarrow> sup" where
  "sup_start meta = \<lparr>sv_phase = AwaitHealthy, sv_meta = meta, sv_groups = [], sv_messages = []\<rparr>"

definition sup_log :: "string \<Rightarrow> sup \<Rightarrow> sup" where
  "sup_log m S = S\<lparr>sv_messages := sv_messages S @ [m]\<rparr>"

text \<open>A new group of connections, with a new signal.\<close>

definition start_group :: "string \<Rightarrow> sup \<Rightarrow> sup" where
  "start_group e S =
     (sup_log (''Endpoint '' @ e @ '' starting up'') S)\<lparr>sv_groups := sv_groups S @ [[]], sv_phase := AwaitUnhealthy\<rparr>"

text \<open>An operation on the sender of the current group.\<close>

definition signal_group :: "signal_op list \<Rightarrow> sup \<Rightarrow> sup" where
  "signal_group ops S = S\<lparr>sv_groups := butlast (sv_groups S) @ [last (sv_groups S) @ ops]\<rparr>"

text \<open>The group is told to stop; at the end of the round of the loop its sender is dropped.\<close>

definition stop_group :: "string \<Rightarrow> sup \<Rightarrow> sup" where
  "stop_group e S =
     (signal_group [DropSender] (sup_log (''Endpoint '' @ e @ '' shutting down'') (signal_group [SendSignal] S)))
       \<lparr>sv_phase := AwaitHealthy\<rparr>"

text \<open>The stop signal: the loop is left, the sender of a running group is dropped on the way, and the
  task is over.\<close>

definition told_to_stop :: "string \<Rightarrow> sup \<Rightarrow> sup" where
  "told_to_stop e S = sup_log (''Endpoint '' @ e @ '' was disabled, shutting down'') S"

definition disabled :: "string \<Rightarrow> sup \<Rightarrow> sup" where
  "disabled e S = (sup_log (''Endpoint '' @ e @ '' is disabled'') S)\<lparr>sv_phase := TaskOver\<rparr>"

definition set_health :: "health_master \<Rightarrow> sup \<Rightarrow> sup" where
  "set_health hm S = S\<lparr>sv_meta := (sv_meta S)\<lparr>em_healthdata := Some hm\<rparr>\<rparr>"

text \<open>One round of the loops of \<open>await_healthy\<close> and \<open>await_unhealthy\<close>, and what follows their return.\<close>

definition await_healthy_round :: "string \<Rightarrow> health_master \<Rightarrow> bool \<Rightarrow> u128 option \<Rightarrow> sup \<Rightarrow> sup" where
  "await_healthy_round e hm r now S =
     (let (healthy, hm') = report_check_result r now hm; S' = set_health hm' S in
      if healthy then start_group e (sup_log (''Endpoint '' @ e @ '' considered healthy'') S') else S')"

definition await_unhealthy_round :: "string \<Rightarrow> health_master \<Rightarrow> bool \<Rightarrow> u128 option \<Rightarrow> sup \<Rightarrow> sup" where
  "await_unhealthy_round e hm r now S =
     (let (healthy, hm') = report_check_result r now hm; S' = set_health hm' S in
      if \<not> healthy then stop_group e (sup_log (''Endpoint '' @ e @ '' considered unhealthy'') S') else S')"

text \<open>\<open>select\<close> asks the health side first: without a health check \<open>await_healthy\<close> is ready at once, so a stop
  can only win against it when there is one.\<close>

inductive sup_step :: "string \<Rightarrow> socket_addr list \<Rightarrow> sup \<Rightarrow> sup \<Rightarrow> bool" for e addrs where
  no_check:
    "sv_phase S = AwaitHealthy \<Longrightarrow> em_healthdata (sv_meta S) = None \<Longrightarrow> sup_step e addrs S (start_group e S)"
| check_up:
    "sv_phase S = AwaitHealthy \<Longrightarrow> em_healthdata (sv_meta S) = Some hm \<Longrightarrow>
     sup_step e addrs S (await_healthy_round e hm (healthcheck net (hm_cfg hm) addrs) now S)"
| check_down:
    "sv_phase S = AwaitUnhealthy \<Longrightarrow> em_healthdata (sv_meta S) = Some hm \<Longrightarrow>
     sup_step e addrs S (await_unhealthy_round e hm (healthcheck net (hm_cfg hm) addrs) now S)"
| stop_waiting:
    "sv_phase S = AwaitHealthy \<Longrightarrow> em_healthdata (sv_meta S) \<noteq> None \<Longrightarrow> em_stopper (sv_meta S) \<noteq> [] \<Longrightarrow>
     sup_step e addrs S (disabled e (told_to_stop e S))"
| stop_running:
    "sv_phase S = AwaitUnhealthy \<Longrightarrow> em_stopper (sv_meta S) \<noteq> [] \<Longrightarrow>
     sup_step e addrs S (disabled e (signal_group [DropSender] (told_to_stop e S)))"

text \<open>The daemon's \<open>stop\<close>, and the other updates of the shared meta data: the counters.\<close>

inductive sup_env :: "sup \<Rightarrow> sup \<Rightarrow> bool" where
  env_stop: "sup_env S (S\<lparr>sv_meta := meta_stop (sv_meta S)\<rparr>)"
| env_count: "sup_env S (S\<lparr>sv_meta := (sv_meta S)\<lparr>em_idle := i, em_active := a\<rparr>\<rparr>)"

definition sup_reach :: "string \<Rightarrow> socket_addr list \<Rightarrow> sup \<Rightarrow> sup \<Rightarrow> bool" where
  "sup_reach e addrs = (\<lambda>S S'. sup_step e addrs S S' \<or> sup_env S S')\<^sup>*\<^sup>*"

inductive_cases sup_stepE: "sup_step e addrs S S'"
inductive_cases sup_envE: "sup_env S S'"

section \<open>The invariant\<close>

definition considered_healthy :: "endpoint_meta \<Rightarrow> bool" where
  "considered_healthy m = (case em_healthdata m of None \<Rightarrow> True | Some hm \<Rightarrow> hm_healthy (hm_inner hm))"

text \<open>A group is live until something was done with its signal. Only the last group can be live, and it is
  exactly while the task waits for the endpoint to become unhealthy; then the endpoint is considered
  healthy, and it is not while the task waits for it to become healthy.\<close>

definition sup_inv :: "sup \<Rightarrow> bool" where
  "sup_inv S \<longleftrightarrow>
     (case sv_phase S of
        AwaitUnhealthy \<Rightarrow>
          sv_groups S \<noteq> [] \<and> last (sv_groups S) = [] \<and> [] \<notin> set (butlast (sv_groups S)) \<and>
          considered_healthy (sv_meta S)
      | AwaitHealthy \<Rightarrow> [] \<notin> set (sv_groups S) \<and> (em_healthdata (sv_meta S) \<noteq> None \<longrightarrow> \<not> considered_healthy (sv_meta S))
      | TaskOver \<Rightarrow> [] \<notin> set (sv_groups S) \<and> em_stopper (sv_meta S) \<noteq> [])"

lemma report_check_result_flag:
  "report_check_result r now hm = (h, hm') \<Longrightarrow> hm_healthy (hm_inner hm') = h \<and> hm_cfg hm' = hm_cfg hm"
  by (auto simp: report_check_result_def inner_report_check_result_def health_status_def Let_def
      split: prod.splits if_splits)

lemma sup_ops_simps [simp]:
  "sv_phase (sup_log m S) = sv_phase S" "sv_meta (sup_log m S) = sv_meta S" "sv_groups (sup_log m S) = sv_groups S"
  "sv_phase (set_health hm S) = sv_phase S" "sv_groups (set_health hm S) = sv_groups S"
  "sv_meta (set_health hm S) = (sv_meta S)\<lparr>em_healthdata := Some hm\<rparr>"
  "sv_phase (signal_group ops S) = sv_phase S" "sv_meta (signal_group ops S) = sv_meta S"
  "sv_groups (signal_group ops S) = butlast (sv_groups S) @ [last (sv_groups S) @ ops]"
  "sv_phase (start_group e S) = AwaitUnhealthy" "sv_meta (start_group e S) = sv_meta S"
  "sv_groups (start_group e S) = sv_groups S @ [[]]"
  "sv_phase (stop_group e S) = AwaitHealthy" "sv_meta (stop_group e S) = sv_meta S"
  "sv_groups (stop_group e S) = butlast (sv_groups S) @ [last (sv_groups S) @ [SendSignal, DropSender]]"
  "sv_phase (disabled e S) = TaskOver" "sv_meta (disabled e S) = sv_meta S" "sv_groups (disabled e S) = sv_groups S"
  "sv_phase (told_to_stop e S) = sv_phase S" "sv_meta (told_to_stop e S) = sv_meta S"
  "sv_groups (told_to_stop e S) = sv_groups S"
  by (simp_all add: sup_log_def set_health_def signal_group_def start_group_def stop_group_def disabled_def
      told_to_stop_def)

lemma sup_inv_step:
  assumes "sup_step e addrs S S'" "sup_inv S"
  shows "sup_inv S'"
  using assms
proof (cases rule: sup_step.cases)
  case (check_up hm net now)
  obtain h hm' where r: "report_check_result (healthcheck net (hm_cfg hm) addrs) now hm = (h, hm')"
    by (cases "report_check_result (healthcheck net (hm_cfg hm) addrs) now hm")
  with check_up assms(2) report_check_result_flag [OF r] show ?thesis
    by (auto simp: sup_inv_def await_healthy_round_def considered_healthy_def)
next
  case (check_down hm net now)
  obtain h hm' where r: "report_check_result (healthcheck net (hm_cfg hm) addrs) now hm = (h, hm')"
    by (cases "report_check_result (healthcheck net (hm_cfg hm) addrs) now hm")
  with check_down assms(2) report_check_result_flag [OF r] show ?thesis
    by (auto simp: sup_inv_def await_unhealthy_round_def considered_healthy_def)
qed (auto simp: sup_inv_def considered_healthy_def)

lemma sup_inv_env:
  assumes "sup_env S S'" "sup_inv S"
  shows "sup_inv S'"
  using assms
  by (cases rule: sup_env.cases) (auto simp: sup_inv_def considered_healthy_def meta_stop_def split: sup_phase.splits)

interpretation sup_steps: step_invariant "\<lambda>S S'. sup_step e addrs S S' \<or> sup_env S S'" sup_inv for e addrs
  by unfold_locales (blast intro: sup_inv_step sup_inv_env)

lemma sup_inv_reach:
  assumes "sup_reach e addrs (sup_start meta) S" "em_healthdata meta \<noteq> None \<longrightarrow> \<not> considered_healthy meta"
  shows "sup_inv S"
proof (rule sup_steps.inv_reached [OF assms(1) [unfolded sup_reach_def]])
  show "sup_inv (sup_start meta)" using assms(2) by (simp add: sup_inv_def sup_start_def)
qed

section \<open>Properties\<close>

text \<open>The meta data that \<open>spawn_endpoint\<close> makes.\<close>

definition spawned_meta :: "concrete_health_check option \<Rightarrow> endpoint_meta" where
  "spawned_meta hc = endpoint_meta_new (map_option health_master_new hc)"

lemma spawned_meta_unhealthy:
  "em_healthdata (spawned_meta hc) \<noteq> None \<longrightarrow> \<not> considered_healthy (spawned_meta hc)"
  by (cases hc)
    (simp_all add: spawned_meta_def endpoint_meta_new_def considered_healthy_def health_master_new_def
      health_master_inner_new_def)

lemma single_live_group:
  assumes "sup_inv S"
  shows "length (filter (\<lambda>g. g = []) (sv_groups S)) = (if sv_phase S = AwaitUnhealthy then 1 else 0)"
proof (cases "sv_phase S = AwaitUnhealthy")
  case True
  with assms have g: "sv_groups S = butlast (sv_groups S) @ [[]]" and "[] \<notin> set (butlast (sv_groups S))"
    by (auto simp: sup_inv_def) (metis append_butlast_last_id)
  then have "filter (\<lambda>g. g = []) (butlast (sv_groups S)) = []" by (auto simp: filter_empty_conv)
  with True show ?thesis by (subst g) simp
next
  case False
  with assms have "[] \<notin> set (sv_groups S)" by (auto simp: sup_inv_def split: sup_phase.splits)
  with False show ?thesis by (auto simp: filter_empty_conv)
qed

text \<open>C7. Connections run only for a healthy endpoint, one group at a time: in every reachable state of the
  task there is one group whose signal has not fired exactly while the task watches for the endpoint
  to become unhealthy, and none otherwise; while there is one, the health data that the status shows
  says healthy (or no check is configured), and while a check is configured and the task waits for
  health, it says unhealthy.\<close>

theorem one_group_when_healthy:
  assumes "sup_reach e addrs (sup_start (spawned_meta hc)) S"
  shows "length (filter (\<lambda>g. g = []) (sv_groups S)) = (if sv_phase S = AwaitUnhealthy then 1 else 0) \<and>
    (sv_phase S = AwaitUnhealthy \<longrightarrow> considered_healthy (sv_meta S)) \<and>
    (sv_phase S = AwaitHealthy \<and> em_healthdata (sv_meta S) \<noteq> None \<longrightarrow> \<not> considered_healthy (sv_meta S))"
proof -
  have inv: "sup_inv S" using assms spawned_meta_unhealthy by (rule sup_inv_reach)
  with single_live_group [OF inv] show ?thesis by (auto simp: sup_inv_def)
qed

theorem one_group_when_healthy_witness:
  "length (filter (\<lambda>g. g = []) (sv_groups (start_group ''a'' (sup_start (spawned_meta None))))) = 1"
proof -
  have "sup_step ''a'' [] (sup_start (spawned_meta None)) (start_group ''a'' (sup_start (spawned_meta None)))"
    by (rule no_check) (simp_all add: sup_start_def spawned_meta_def endpoint_meta_new_def)
  then have "sup_reach ''a'' [] (sup_start (spawned_meta None)) (start_group ''a'' (sup_start (spawned_meta None)))"
    unfolding sup_reach_def by (intro r_into_rtranclp disjI1)
  from one_group_when_healthy [OF this] show ?thesis by simp
qed

text \<open>C10. Stopping an endpoint stops everything: once the daemon has called \<open>stop\<close>, the task can always go to
  its end in at most two steps of its own; and when the task is over it takes no step any more, so it
  starts no connection, and the signal of every group it ever started has fired.\<close>

theorem stop_ends_task:
  assumes "sup_reach e addrs (sup_start (spawned_meta hc)) S"
  shows "(em_stopper (sv_meta S) \<noteq> [] \<longrightarrow>
      sv_phase S = TaskOver \<or>
      (\<exists>S1. sup_step e addrs S S1 \<and> (sv_phase S1 = TaskOver \<or> (\<exists>S2. sup_step e addrs S1 S2 \<and> sv_phase S2 = TaskOver)))) \<and>
    (sv_phase S = TaskOver \<longrightarrow> [] \<notin> set (sv_groups S) \<and> (\<forall>S'. \<not> sup_step e addrs S S'))"
proof -
  have inv: "sup_inv S" using assms spawned_meta_unhealthy by (rule sup_inv_reach)
  have "\<exists>S1. sup_step e addrs S S1 \<and> (sv_phase S1 = TaskOver \<or> (\<exists>S2. sup_step e addrs S1 S2 \<and> sv_phase S2 = TaskOver))"
    if "em_stopper (sv_meta S) \<noteq> []" "sv_phase S \<noteq> TaskOver"
  proof (cases "sv_phase S = AwaitHealthy \<and> em_healthdata (sv_meta S) = None")
    case True
    with that no_check [of S e addrs] stop_running [of "start_group e S" e addrs] show ?thesis
      by (intro exI [of _ "start_group e S"]) (auto intro!: exI)
  next
    case False
    with that stop_waiting [of S e addrs] stop_running [of S e addrs] show ?thesis
      by (cases "sv_phase S") (fastforce intro: exI)+
  qed
  moreover have "\<not> sup_step e addrs S S'" if "sv_phase S = TaskOver" for S'
    using that by (auto elim: sup_stepE)
  moreover have "[] \<notin> set (sv_groups S)" if "sv_phase S = TaskOver"
    using inv that by (simp add: sup_inv_def)
  ultimately show ?thesis by blast
qed

theorem stop_ends_task_witness:
  "let S = sup_start (meta_stop (spawned_meta None)) in
   \<exists>S1 S2. sup_step ''a'' [] (S) S1 \<and> sup_step ''a'' [] S1 S2 \<and> sv_phase S2 = TaskOver"
proof -
  let ?S = "sup_start (meta_stop (spawned_meta None))"
  have "sup_env (sup_start (spawned_meta None)) ?S"
    using env_stop [of "sup_start (spawned_meta None)"] by (simp add: sup_start_def)
  then have "sup_reach ''a'' [] (sup_start (spawned_meta None)) ?S"
    unfolding sup_reach_def by (intro r_into_rtranclp disjI2)
  from stop_ends_task [OF this] obtain S1 where
    "sup_step ''a'' [] ?S S1" "sv_phase S1 = TaskOver \<or> (\<exists>S2. sup_step ''a'' [] S1 S2 \<and> sv_phase S2 = TaskOver)"
    by (auto simp: sup_start_def meta_stop_def)
  then show ?thesis
    by (auto elim: sup_stepE simp: sup_start_def meta_stop_def spawned_meta_def endpoint_meta_new_def start_group_def)
qed

end
