(* ===== verification/Connection.thy ===== *)
theory Connection
  imports Messaging Endpoint
begin

text \<open>
  One connection to Ebbflow, \<open>src/src/daemon/connection.rs\<close>: connecting, the hello handshake, waiting
  for traffic, connecting to the local server, and copying bytes.

  What the network does is an input: the outcome of each connect, the bytes that arrive while the
  connection waits for the hello response and while it is idle, the outcome of each write, and
  whether the stop signal comes first where the code selects on it. A computation on the stream is a
  function on its state; it returns, or blocks for ever where no more bytes come. \<open>run_connection\<close>
  gives the list of its effects in order.
\<close>

section \<open>Types\<close>

datatype connection_error =
    CIo io_error
  | CTimeout string
  | CMessaging message_error
  | CBadRequest
  | CUnexpectedMessage
  | CForbidden
  | CNotFound
  | CShutdown
  | CMultiple string

record endpoint_connection_args =
  ca_endpoint :: string
  ca_key :: string
  ca_addrs :: "socket_addr list"
  ca_ctype :: endpoint_connection_type
  ca_ebbflow_addr :: socket_addr_v4
  ca_ebbflow_dns :: string

datatype 'a timed = TimedOut | Finished 'a

datatype stream_end = StreamFails io_error | StreamStalls

text \<open>How a write ends: all of it is written, it fails after a part, or it never ends after a part.\<close>

datatype write_outcome = Written | WriteFails nat io_error | WriteStalls nat

record stream =
  st_in :: "u8 list"
  st_end :: stream_end
  st_writes :: "write_outcome list"
  st_out :: "u8 list"

record conn_env =
  ce_connect :: "socket_addr_v4 \<Rightarrow> (io_error + unit) timed"
  ce_keepalive :: "io_error option"
  ce_nodelay :: "io_error option"
  ce_tls :: "string \<Rightarrow> (io_error + unit) timed"
  ce_writes :: "write_outcome list"
  ce_hello_in :: "u8 list"
  ce_hello_end :: stream_end
  ce_traffic_in :: "u8 list"
  ce_traffic_end :: stream_end
  ce_stop_before_traffic :: bool
  ce_local_connect :: "socket_addr \<Rightarrow> (io_error + unit) timed"
  ce_local_keepalive :: "socket_addr \<Rightarrow> io_error option"
  ce_local_nodelay :: "socket_addr \<Rightarrow> io_error option"
  ce_stop_while_active :: bool
  ce_debug :: "connection_error \<Rightarrow> string"
  ce_debug_addr :: "socket_addr \<Rightarrow> string"
  ce_debug_addrs :: "socket_addr list \<Rightarrow> string"

text \<open>A step of the task returns a result or never gets one.\<close>

datatype 'a step = Ret "connection_error + 'a" | Blocked

type_synonym 'a stream_op = "stream \<Rightarrow> 'a step \<times> stream"

definition bind_op :: "'a stream_op \<Rightarrow> ('a \<Rightarrow> 'b stream_op) \<Rightarrow> 'b stream_op" where
  "bind_op f g s = (case f s of
     (Ret (Inr x), s') \<Rightarrow> g x s'
   | (Ret (Inl e), s') \<Rightarrow> (Ret (Inl e), s')
   | (Blocked, s') \<Rightarrow> (Blocked, s'))"

definition return_op :: "connection_error + 'a \<Rightarrow> 'a stream_op" where
  "return_op r s = (Ret r, s)"

section \<open>Reading and writing\<close>

definition read_exact :: "nat \<Rightarrow> u8 list stream_op" where
  "read_exact n s =
     (if n \<le> length (st_in s) then (Ret (Ok (take n (st_in s))), s\<lparr>st_in := drop n (st_in s)\<rparr>)
      else case st_end s of
        StreamFails e \<Rightarrow> (Ret (Err (CIo e)), s\<lparr>st_in := []\<rparr>)
      | StreamStalls \<Rightarrow> (Blocked, s\<lparr>st_in := []\<rparr>))"

text \<open>\<open>write_all\<close> and \<open>flush\<close> take the next outcome; past the end of the list they succeed.\<close>

definition write_all :: "u8 list \<Rightarrow> unit stream_op" where
  "write_all bs s = (case st_writes s of
     WriteFails k e # rest \<Rightarrow> (Ret (Err (CIo e)), s\<lparr>st_writes := rest, st_out := st_out s @ take k bs\<rparr>)
   | WriteStalls k # rest \<Rightarrow> (Blocked, s\<lparr>st_writes := rest, st_out := st_out s @ take k bs\<rparr>)
   | Written # rest \<Rightarrow> (Ret (Ok ()), s\<lparr>st_writes := rest, st_out := st_out s @ bs\<rparr>)
   | [] \<Rightarrow> (Ret (Ok ()), s\<lparr>st_out := st_out s @ bs\<rparr>))"

definition flush :: "unit stream_op" where
  "flush = write_all []"

definition MAX_MESSAGE :: nat where "MAX_MESSAGE = 200 * 1024"

definition await_message :: "cbor \<Rightarrow> message stream_op" where
  "await_message cb =
     bind_op (read_exact 4) (\<lambda>lenbuf.
       let len = unat (from_be_bytes lenbuf) in
       if MAX_MESSAGE < len then return_op (Err (CMessaging (Internal ''message too big safeguard'')))
       else bind_op (read_exact len) (\<lambda>msgbuf.
              return_op (map_err CMessaging (from_wire_without_the_length_prefix cb msgbuf))))"

definition await_traffic_start :: "cbor \<Rightarrow> unit stream_op" where
  "await_traffic_start cb =
     bind_op (await_message cb) (\<lambda>message. case message of
       StartTrafficV0 \<Rightarrow> return_op (Ok ())
     | _ \<Rightarrow> return_op (Err CUnexpectedMessage))"

definition create_hello :: "cbor \<Rightarrow> endpoint_connection_args \<Rightarrow> connection_error + u8 list" where
  "create_hello cb args =
     (let t = (case ca_ctype args of Ssh \<Rightarrow> EtSsh | Tls \<Rightarrow> EtTls);
          hello = hello_new (ca_key args) t (ca_endpoint args)
      in map_err CMessaging (to_wire_message cb (HelloV0 hello)))"

definition starttrafficresponse :: "cbor \<Rightarrow> bool \<Rightarrow> connection_error + u8 list" where
  "starttrafficresponse cb good =
     map_err CMessaging (to_wire_message cb (StartTrafficResponseV0 \<lparr>open_local_success_ready = good\<rparr>))"

section \<open>The handshake\<close>

text \<open>The time limits \<open>tol\<close>, \<open>tos\<close> and \<open>toss\<close> turn a wait that is too long into \<open>Timeout\<close>.\<close>

definition to_limit :: "string \<Rightarrow> 'a timed \<Rightarrow> connection_error + 'a" where
  "to_limit msg r = (case r of TimedOut \<Rightarrow> Err (CTimeout msg) | Finished x \<Rightarrow> Ok x)"

definition to_limit_op :: "string \<Rightarrow> 'a stream_op \<Rightarrow> 'a stream_op" where
  "to_limit_op msg f s = (case f s of (Blocked, s') \<Rightarrow> (Ret (Err (CTimeout msg)), s') | r \<Rightarrow> r)"

definition io_result :: "io_error + 'a \<Rightarrow> connection_error + 'a" where
  "io_result r = map_err CIo r"

definition sockopt :: "io_error option \<Rightarrow> connection_error + unit" where
  "sockopt r = (case r of None \<Rightarrow> Ok () | Some e \<Rightarrow> Err (CIo e))"

definition connect_ebbflow :: "conn_env \<Rightarrow> endpoint_connection_args \<Rightarrow> unit stream_op" where
  "connect_ebbflow ce args =
     bind_op (return_op (and_then (to_limit ''connecting to ebbflow'' (ce_connect ce (ca_ebbflow_addr args)))
       io_result)) (\<lambda>_.
     bind_op (return_op (sockopt (ce_keepalive ce))) (\<lambda>_.
     bind_op (return_op (sockopt (ce_nodelay ce))) (\<lambda>_ s.
       case ce_tls ce (ca_ebbflow_dns args) of
         TimedOut \<Rightarrow> (Blocked, s)
       | Finished (Inl e) \<Rightarrow> (Ret (Err (CIo e)), s)
       | Finished (Inr _) \<Rightarrow> (Ret (Ok ()),
           \<lparr>st_in = ce_hello_in ce, st_end = ce_hello_end ce, st_writes = ce_writes ce, st_out = []\<rparr>))))"

definition hello_accepted :: "message \<Rightarrow> connection_error + unit" where
  "hello_accepted m = (case m of
     HelloResponseV0 hr \<Rightarrow> (case hr_issue hr of
         Some IssueForbidden \<Rightarrow> Err CForbidden
       | Some IssueNotFound \<Rightarrow> Err CNotFound
       | Some IssueBadRequest \<Rightarrow> Err CBadRequest
       | None \<Rightarrow> Ok ())
   | _ \<Rightarrow> Err CUnexpectedMessage)"

text \<open>The bytes that come while the connection is idle follow those of the handshake.\<close>

definition begin_idle :: "conn_env \<Rightarrow> unit stream_op" where
  "begin_idle ce s = (Ret (Ok ()), s\<lparr>st_in := st_in s @ ce_traffic_in ce, st_end := ce_traffic_end ce\<rparr>)"

definition establish_ebbflow_connection_and_await_traffic_signal ::
    "cbor \<Rightarrow> conn_env \<Rightarrow> endpoint_connection_args \<Rightarrow> unit stream_op" where
  "establish_ebbflow_connection_and_await_traffic_signal cb ce args =
     bind_op (connect_ebbflow ce args) (\<lambda>_.
     bind_op (return_op (create_hello cb args)) (\<lambda>hello.
     bind_op (write_all hello) (\<lambda>_.
     bind_op flush (\<lambda>_.
     bind_op (to_limit_op ''error waiting for hello response'' (await_message cb)) (\<lambda>message.
     bind_op (return_op (hello_accepted message)) (\<lambda>_.
     bind_op (begin_idle ce) (\<lambda>_.
       if ce_stop_before_traffic ce then return_op (Err CShutdown) else await_traffic_start cb)))))))"

section \<open>The local server\<close>

fun connect_local_loop ::
    "conn_env \<Rightarrow> socket_addr list \<Rightarrow> (socket_addr \<times> connection_error) list \<Rightarrow> connection_error + socket_addr"
where
  "connect_local_loop ce [] errors = Err (CMultiple (''multiple '' @
     concat (map (\<lambda>(k, (a, e)). (if k = 0 then '''' else '', '') @ ce_debug_addr ce a @ '' - '' @ ce_debug ce e)
       (zip [0..<length errors] errors))))"
| "connect_local_loop ce (a # as) errors =
     (case to_limit ''connecting to local host'' (ce_local_connect ce a) of
        Inr (Inr _) \<Rightarrow>
          and_then (sockopt (ce_local_keepalive ce a)) (\<lambda>_.
          and_then (sockopt (ce_local_nodelay ce a)) (\<lambda>_. Ok a))
      | Inr (Inl e) \<Rightarrow> connect_local_loop ce as (errors @ [(a, CIo e)])
      | Inl e \<Rightarrow> connect_local_loop ce as (errors @ [(a, e)]))"

definition connect_local :: "conn_env \<Rightarrow> socket_addr list \<Rightarrow> connection_error + socket_addr" where
  "connect_local ce addrs = connect_local_loop ce addrs []"

section \<open>Effects\<close>

datatype effect =
    AddIdle | RemoveIdle | AddActive | RemoveActive
  | DropIdlePermit
  | IdleTimeout millis
  | Log string
  | Sleep millis millis
  | Proxy socket_addr

text \<open>\<open>jittersleep1p5\<close> sleeps for a random number of milliseconds from the duration up to, and not
  including, one and a half times the duration (the factor is exact in \<open>f32\<close> for the durations used).\<close>

definition jittersleep1p5 :: "millis \<Rightarrow> effect list" where
  "jittersleep1p5 dur = [Sleep dur (dur * 3 div 2)]"

definition KILL_ACTIVE_DELAY :: millis where "KILL_ACTIVE_DELAY = 60000"
definition BAD_ERROR_DELAY :: millis where "BAD_ERROR_DELAY = 55000"
definition MIN_EBBFLOW_ERROR_DELAY :: millis where "MIN_EBBFLOW_ERROR_DELAY = 5000"
definition MAX_IDLE_CONNETION_TIME :: millis where "MAX_IDLE_CONNETION_TIME = 60 * 62 * 1000"

definition connect_local_with_ebbflow_communication ::
    "cbor \<Rightarrow> conn_env \<Rightarrow> endpoint_connection_args \<Rightarrow> stream
       \<Rightarrow> effect list \<times> socket_addr step \<times> stream" where
  "connect_local_with_ebbflow_communication cb ce args s =
     (case connect_local ce (ca_addrs args) of
        Inr localstream \<Rightarrow>
          ([], bind_op (return_op (starttrafficresponse cb True)) (\<lambda>response.
               bind_op (write_all response) (\<lambda>_. return_op (Ok localstream))) s)
      | Inl e \<Rightarrow>
          ([Log (''ERROR: Received traffic but could not connect to local host addr ''
              @ ce_debug_addrs ce (ca_addrs args) @ '' for '' @ ca_endpoint args @ '' '' @ ce_debug ce e)],
           bind_op (return_op (starttrafficresponse cb False)) (\<lambda>response.
           bind_op (write_all response) (\<lambda>_. return_op (Err e))) s))"

text \<open>\<open>proxy_data\<close>: when the stop signal comes first, the proxy goes on for the kill delay and is then
  aborted; otherwise it runs its course. Its result is ignored.\<close>

definition proxy_data :: "conn_env \<Rightarrow> socket_addr \<Rightarrow> effect list" where
  "proxy_data ce local =
     Proxy local # (if ce_stop_while_active ce then jittersleep1p5 KILL_ACTIVE_DELAY else [])"

definition failure_effects :: "conn_env \<Rightarrow> endpoint_connection_args \<Rightarrow> connection_error \<Rightarrow> effect list" where
  "failure_effects ce args e =
     (case e of
        CForbidden \<Rightarrow> Log (''A connection for endpoint '' @ ca_endpoint args @ '' failed due to '' @ ce_debug ce e)
          # jittersleep1p5 BAD_ERROR_DELAY
      | CNotFound \<Rightarrow> Log (''A connection for endpoint '' @ ca_endpoint args @ '' failed due to '' @ ce_debug ce e)
          # jittersleep1p5 BAD_ERROR_DELAY
      | CBadRequest \<Rightarrow> Log (''A connection for endpoint '' @ ca_endpoint args @ '' failed due to '' @ ce_debug ce e)
          # jittersleep1p5 BAD_ERROR_DELAY
      | _ \<Rightarrow> [Log (''Failed to connect to Ebbflow for endpoint '' @ ca_endpoint args @ '' failed due to ''
                 @ ce_debug ce e)])
     @ jittersleep1p5 MIN_EBBFLOW_ERROR_DELAY"

definition no_stream :: stream where
  "no_stream = \<lparr>st_in = [], st_end = StreamStalls, st_writes = [], st_out = []\<rparr>"

text \<open>The idle permit that is not dropped on the way is dropped when the function returns; that is not
  listed. A blocked handshake is ended by the idle time limit, which neither logs nor sleeps.\<close>

definition run_connection ::
    "cbor \<Rightarrow> conn_env \<Rightarrow> endpoint_connection_args \<Rightarrow> effect list \<times> stream" where
  "run_connection cb ce args =
     (let (getstreamresult, s) = establish_ebbflow_connection_and_await_traffic_signal cb ce args no_stream in
      case getstreamresult of
        Blocked \<Rightarrow> ([AddIdle, IdleTimeout MAX_IDLE_CONNETION_TIME, RemoveIdle], s)
      | Ret (Inl e) \<Rightarrow> ([AddIdle, RemoveIdle] @ failure_effects ce args e, s)
      | Ret (Inr _) \<Rightarrow>
          (let (effs, r, s') = connect_local_with_ebbflow_communication cb ce args s;
               started = [AddIdle, RemoveIdle, DropIdlePermit] @ effs in
           case r of
             Blocked \<Rightarrow> (started, s')
           | Ret (Inl _) \<Rightarrow> (started @ jittersleep1p5 MIN_EBBFLOW_ERROR_DELAY, s')
           | Ret (Inr local) \<Rightarrow> (started @ [AddActive] @ proxy_data ce local @ [RemoveActive], s')))"

section \<open>Copying bytes\<close>

text \<open>\<open>copy_bytes_ez\<close> waits for a read of at most the buffer of 10 KiB, then writes what it read, possibly in
  several pieces, then flushes, and starts again; it ends at the end of the stream or with an error. A
  write that takes no bytes is the error \<open>WriteZero\<close> of \<open>write_all\<close>. Each event is an outcome the network
  gives to the call that the copy waits for; \<open>None\<close> is an event that the call cannot have.\<close>

datatype copy_state =
    Reading
  | Writing "u8 list"
  | Flushing
  | Ended "connection_error + unit"

record copy =
  cp_state :: copy_state
  cp_out :: "u8 list"

datatype copy_event =
    ReadDone "io_error + u8 list"
  | WriteSome "io_error + nat"
  | FlushDone "io_error option"

definition COPY_BUFFER :: nat where "COPY_BUFFER = 10 * 1024"

definition io_write_zero :: io_error where
  "io_write_zero = \<lparr>io_kind = OtherKind, io_debug = ''Kind(WriteZero)''\<rparr>"

definition copy_start :: copy where
  "copy_start = \<lparr>cp_state = Reading, cp_out = []\<rparr>"

definition copy_step :: "copy_event \<Rightarrow> copy \<Rightarrow> copy option" where
  "copy_step ev c = (case (cp_state c, ev) of
     (Reading, ReadDone (Inl e)) \<Rightarrow> Some (c\<lparr>cp_state := Ended (Err (CIo e))\<rparr>)
   | (Reading, ReadDone (Inr buf)) \<Rightarrow>
       if COPY_BUFFER < length buf then None
       else Some (c\<lparr>cp_state := (if buf = [] then Ended (Ok ()) else Writing buf)\<rparr>)
   | (Writing buf, WriteSome (Inl e)) \<Rightarrow> Some (c\<lparr>cp_state := Ended (Err (CIo e))\<rparr>)
   | (Writing buf, WriteSome (Inr n)) \<Rightarrow>
       if length buf < n then None
       else if n = 0 then Some (c\<lparr>cp_state := Ended (Err (CIo io_write_zero))\<rparr>)
       else Some (c\<lparr>cp_out := cp_out c @ take n buf,
                    cp_state := (if n = length buf then Flushing else Writing (drop n buf))\<rparr>)
   | (Flushing, FlushDone (Some e)) \<Rightarrow> Some (c\<lparr>cp_state := Ended (Err (CIo e))\<rparr>)
   | (Flushing, FlushDone None) \<Rightarrow> Some (c\<lparr>cp_state := Reading\<rparr>)
   | _ \<Rightarrow> None)"

fun copy_run :: "copy_event list \<Rightarrow> copy \<Rightarrow> copy option" where
  "copy_run [] c = Some c"
| "copy_run (ev # evs) c = (case copy_step ev c of None \<Rightarrow> None | Some c' \<Rightarrow> copy_run evs c')"

definition copy_bytes_ez :: "copy_event list \<Rightarrow> copy option" where
  "copy_bytes_ez evs = copy_run evs copy_start"

definition copy_ended :: "copy \<Rightarrow> bool" where
  "copy_ended c = (case cp_state c of Ended _ \<Rightarrow> True | _ \<Rightarrow> False)"

text \<open>\<open>proxy\<close> runs one copy in each direction until the first of them ends; the other is dropped where it
  is. A schedule lists the events of both in the order in which they happen.\<close>

datatype direction = Local2Ebb | Ebb2Local

record proxied =
  px_local2ebb :: copy
  px_ebb2local :: copy

definition proxy_over :: "proxied \<Rightarrow> bool" where
  "proxy_over p \<longleftrightarrow> copy_ended (px_local2ebb p) \<or> copy_ended (px_ebb2local p)"

definition proxy_step :: "direction \<times> copy_event \<Rightarrow> proxied \<Rightarrow> proxied option" where
  "proxy_step x p =
     (if proxy_over p then None
      else case x of
        (Local2Ebb, ev) \<Rightarrow> map_option (\<lambda>c. p\<lparr>px_local2ebb := c\<rparr>) (copy_step ev (px_local2ebb p))
      | (Ebb2Local, ev) \<Rightarrow> map_option (\<lambda>c. p\<lparr>px_ebb2local := c\<rparr>) (copy_step ev (px_ebb2local p)))"

fun proxy_run :: "(direction \<times> copy_event) list \<Rightarrow> proxied \<Rightarrow> proxied option" where
  "proxy_run [] p = Some p"
| "proxy_run (x # sched) p = (case proxy_step x p of None \<Rightarrow> None | Some q \<Rightarrow> proxy_run sched q)"

definition proxy :: "(direction \<times> copy_event) list \<Rightarrow> proxied option" where
  "proxy sched = proxy_run sched \<lparr>px_local2ebb = copy_start, px_ebb2local = copy_start\<rparr>"

section \<open>Lemmas on streams\<close>

lemma bind_op_simps [simp]:
  "f s = (Ret (Inr x), s') \<Longrightarrow> bind_op f g s = g x s'"
  "f s = (Ret (Inl e), s') \<Longrightarrow> bind_op f g s = (Ret (Inl e), s')"
  "f s = (Blocked, s') \<Longrightarrow> bind_op f g s = (Blocked, s')"
  by (simp_all add: bind_op_def)

lemma bind_return_op [simp]:
  "bind_op (return_op (Inr x)) g s = g x s"
  "bind_op (return_op (Inl e)) g s = (Ret (Inl e), s)"
  by (simp_all add: bind_op_def return_op_def)

lemma bind_op_Ok_iff:
  "bind_op f g s = (Ret (Inr y), s'') \<longleftrightarrow> (\<exists>x s'. f s = (Ret (Inr x), s') \<and> g x s' = (Ret (Inr y), s''))"
  by (auto simp: bind_op_def split: prod.splits step.splits sum.splits)

lemma return_op_iff [simp]: "return_op r s = (Ret r', s') \<longleftrightarrow> r = r' \<and> s' = s"
  by (auto simp: return_op_def)

lemma read_exact_append:
  "st_in s = xs @ ys \<Longrightarrow> n = length xs \<Longrightarrow> read_exact n s = (Ret (Ok xs), s\<lparr>st_in := ys\<rparr>)"
  by (simp add: read_exact_def)

lemma read_exact_Ok:
  "read_exact n s = (Ret (Inr xs), s') \<longleftrightarrow>
     (\<exists>ys. st_in s = xs @ ys \<and> n = length xs \<and> s' = s\<lparr>st_in := ys\<rparr>)"
  by (auto simp: read_exact_def split: stream_end.splits if_splits
      intro: exI [of _ "drop n (st_in s)"])

lemma write_all_Ok:
  "write_all bs s = (Ret (Inr u), s') \<Longrightarrow> st_out s' = st_out s @ bs \<and> st_in s' = st_in s"
  by (auto simp: write_all_def split: list.splits write_outcome.splits)

lemma write_all_free [simp]:
  "st_writes s = [] \<Longrightarrow> write_all bs s = (Ret (Ok ()), s\<lparr>st_out := st_out s @ bs\<rparr>)"
  by (simp add: write_all_def)

text \<open>What an effect does to the counters of the endpoint.\<close>

fun count_effect :: "effect \<Rightarrow> endpoint_meta \<Rightarrow> endpoint_meta" where
  "count_effect AddIdle m = add_idle m"
| "count_effect RemoveIdle m = remove_idle m"
| "count_effect AddActive m = add_active m"
| "count_effect RemoveActive m = remove_active m"
| "count_effect _ m = m"

section \<open>The phases of a connection\<close>

text \<open>The order of the effects of \<open>run_connection\<close> as an automaton: the connection is counted as idle, then
  no more; after a successful handshake it gives its idle permit back, and only then it can be
  counted as active. Other orders have no step.\<close>

datatype conn_phase = NotStarted | Idling | HandshakeOver | PermitDropped | Proxying | Closed

fun phase_step :: "effect \<Rightarrow> conn_phase \<Rightarrow> conn_phase option" where
  "phase_step AddIdle NotStarted = Some Idling"
| "phase_step (IdleTimeout t) Idling = Some Idling"
| "phase_step RemoveIdle Idling = Some HandshakeOver"
| "phase_step DropIdlePermit HandshakeOver = Some PermitDropped"
| "phase_step AddActive PermitDropped = Some Proxying"
| "phase_step (Proxy a) Proxying = Some Proxying"
| "phase_step RemoveActive Proxying = Some Closed"
| "phase_step (Log m) HandshakeOver = Some HandshakeOver"
| "phase_step (Log m) PermitDropped = Some PermitDropped"
| "phase_step (Sleep lo hi) HandshakeOver = Some HandshakeOver"
| "phase_step (Sleep lo hi) PermitDropped = Some PermitDropped"
| "phase_step (Sleep lo hi) Proxying = Some Proxying"
| "phase_step _ _ = None"

fun run_phases :: "effect list \<Rightarrow> conn_phase \<Rightarrow> conn_phase option" where
  "run_phases [] p = Some p"
| "run_phases (e # es) p = (case phase_step e p of None \<Rightarrow> None | Some q \<Rightarrow> run_phases es q)"

definition phase_idle :: "conn_phase \<Rightarrow> nat" where "phase_idle p = (if p = Idling then 1 else 0)"
definition phase_active :: "conn_phase \<Rightarrow> nat" where "phase_active p = (if p = Proxying then 1 else 0)"

lemma phase_step_counts:
  assumes "phase_step e p = Some q"
  shows "em_idle (count_effect e m) + of_nat (phase_idle p) = em_idle m + of_nat (phase_idle q) \<and>
    em_active (count_effect e m) + of_nat (phase_active p) = em_active m + of_nat (phase_active q) \<and>
    em_stopper (count_effect e m) = em_stopper m \<and> em_healthdata (count_effect e m) = em_healthdata m"
  using assms
  by (cases "(e, p)" rule: phase_step.cases)
    (simp_all add: phase_idle_def phase_active_def add_idle_def remove_idle_def add_active_def remove_active_def)

lemma add_chain:
  fixes a :: "'a :: cancel_comm_monoid_add"
  assumes "a + i = m + j" "b + j = a + k"
  shows "b + i = m + k"
proof -
  have "(b + i) + (a + j) = (b + j) + (a + i)" by (simp add: ac_simps)
  also have "\<dots> = (m + k) + (a + j)" by (simp add: assms ac_simps)
  finally show ?thesis by (simp only: add_right_cancel)
qed

lemma run_phases_counts:
  assumes "run_phases es p = Some q"
  shows "em_idle (fold count_effect es m) + of_nat (phase_idle p) = em_idle m + of_nat (phase_idle q) \<and>
    em_active (fold count_effect es m) + of_nat (phase_active p) = em_active m + of_nat (phase_active q) \<and>
    em_stopper (fold count_effect es m) = em_stopper m \<and> em_healthdata (fold count_effect es m) = em_healthdata m"
  using assms
proof (induction es arbitrary: p m)
  case (Cons e es)
  then obtain p' where "phase_step e p = Some p'" "run_phases es p' = Some q"
    by (auto split: option.splits)
  from phase_step_counts [OF this(1), of m] Cons.IH [OF this(2), of "count_effect e m"]
  show ?case by (auto intro: add_chain)
qed simp

lemma run_phases_append:
  "run_phases (es @ es') p = (case run_phases es p of None \<Rightarrow> None | Some q \<Rightarrow> run_phases es' q)"
  by (induction es arbitrary: p) (auto split: option.splits)

end
