(* ===== verification/Connection_Props.thy ===== *)
theory Connection_Props
  imports Connection
begin

text \<open>
  The properties of one connection (theory \<open>Connection\<close>): framing on the stream, the limit on the
  length of a message, what a successful handshake means, the order of the bookkeeping in
  \<open>run_connection\<close>, the answer to Ebbflow about the local server, delays after errors, and the proxy.
\<close>

section \<open>Frames on a stream\<close>

text \<open>A stretch of bytes that \<open>await_message\<close> takes for one message: a length of four bytes that is
  within the limit, and a body of that length.\<close>

definition framed :: "cbor \<Rightarrow> u8 list \<Rightarrow> message \<Rightarrow> bool" where
  "framed cb bs m \<longleftrightarrow>
     4 \<le> length bs \<and> unat (from_be_bytes (take 4 bs)) = length bs - 4 \<and> length bs - 4 \<le> MAX_MESSAGE \<and>
     from_wire_without_the_length_prefix cb (drop 4 bs) = Ok m"

lemma await_message_framed:
  assumes "framed cb bs m" and "st_in s = bs @ rest"
  shows "await_message cb s = (Ret (Ok m), s\<lparr>st_in := rest\<rparr>)"
proof -
  let ?l = "take 4 bs" and ?b = "drop 4 bs"
  have fr: "4 \<le> length bs" "unat (from_be_bytes ?l) = length ?b" "\<not> MAX_MESSAGE < length ?b"
    "from_wire_without_the_length_prefix cb ?b = Ok m"
    using assms(1) by (auto simp: framed_def)
  have 1: "read_exact 4 s = (Ret (Ok ?l), s\<lparr>st_in := ?b @ rest\<rparr>)"
    by (rule read_exact_append) (use assms(2) fr(1) in \<open>simp_all flip: append_assoc\<close>)
  have 2: "read_exact (length ?b) (s\<lparr>st_in := ?b @ rest\<rparr>) = (Ret (Ok ?b), s\<lparr>st_in := rest\<rparr>)"
    by (subst read_exact_append [of _ ?b rest]) simp_all
  show ?thesis by (simp add: await_message_def 1 2 fr Let_def return_op_def del: length_drop)
qed

lemma await_message_Ok:
  assumes "await_message cb s = (Ret (Inr m), s')"
  obtains bs rest where "framed cb bs m" "st_in s = bs @ rest" "s' = s\<lparr>st_in := rest\<rparr>"
proof -
  from assms obtain l b rest where
    "st_in s = l @ b @ rest" "length l = 4" "unat (from_be_bytes l) = length b"
    "length b \<le> MAX_MESSAGE" "from_wire_without_the_length_prefix cb b = Inr m"
    "s' = s\<lparr>st_in := rest\<rparr>"
    by (auto simp: await_message_def bind_op_Ok_iff read_exact_Ok Let_def split: if_splits)
  then show thesis by (intro that [of "l @ b" rest]) (auto simp: framed_def)
qed

lemma to_wire_framed:
  assumes "cbor_roundtrip cb" "to_wire_message cb m = Ok bs" "length bs \<le> 4 + MAX_MESSAGE"
  shows "framed cb bs m"
proof -
  from assms(2) obtain pl where pl: "payload cb m = Inr pl"
    and bs: "bs = to_be_bytes (of_nat (4 + length pl)) @ to_be_bytes (message_id m) @ pl"
    by (auto simp: to_wire_message_Inr_iff)
  have "unat (of_nat (4 + length pl) :: u32) = 4 + length pl"
    using assms(3) by (simp only: unat_of_nat) (simp add: bs MAX_MESSAGE_def)
  then show ?thesis
    using assms(3) from_wire_payload [OF assms(1) pl] by (simp add: bs framed_def)
qed

text \<open>C16. Framing on the stream: if the payload codec round-trips, then whatever follows on the stream,
  \<open>await_message\<close> on the bytes of a frame that \<open>to_wire_message\<close> built, of at most 200 KiB, returns
  that message and takes exactly its bytes.\<close>

theorem await_message_reads_frame:
  assumes "cbor_roundtrip cb" and "to_wire_message cb m = Ok bs" and "length bs \<le> 4 + MAX_MESSAGE"
    and "st_in s = bs @ rest"
  shows "await_message cb s = (Ret (Ok m), s\<lparr>st_in := rest\<rparr>)"
  using assms by (intro await_message_framed to_wire_framed)

theorem await_message_reads_frame_witness:
  "await_message demo_cbor (no_stream\<lparr>st_in := [0, 0, 0, 7, 0, 0, 0, 1, 1, 2, 3] @ [5]\<rparr>)
     = (Ret (Ok (HelloV0 demo_hello)), no_stream\<lparr>st_in := [5]\<rparr>)"
  using await_message_reads_frame [OF demo_cbor_roundtrip demo_wire_hello, of
      "no_stream\<lparr>st_in := [0, 0, 0, 7, 0, 0, 0, 1, 1, 2, 3] @ [5]\<rparr>" "[5]"]
  by (simp add: MAX_MESSAGE_def)

text \<open>C25. The length safeguard: whatever arrives, one \<open>await_message\<close> takes at most 200 KiB and the four
  bytes of the length from the stream; a length above the limit is refused with the four bytes taken
  and nothing else of the stream changed.\<close>

theorem await_message_bounded:
  "length (st_in s) \<le> length (st_in (snd (await_message cb s))) + 4 + MAX_MESSAGE \<and>
   (4 \<le> length (st_in s) \<and> MAX_MESSAGE < unat (from_be_bytes (take 4 (st_in s))) \<longrightarrow>
      await_message cb s =
        (Ret (Err (CMessaging (Internal ''message too big safeguard''))), s\<lparr>st_in := drop 4 (st_in s)\<rparr>))"
proof (cases "4 \<le> length (st_in s)")
  case False
  then show ?thesis
    by (auto simp: await_message_def bind_op_def read_exact_def split: stream_end.splits)
next
  case True
  let ?l = "take 4 (st_in s)" and ?s = "s\<lparr>st_in := drop 4 (st_in s)\<rparr>"
  from True have r: "read_exact 4 s = (Ret (Ok ?l), ?s)" by (simp add: read_exact_def)
  show ?thesis
  proof (cases "MAX_MESSAGE < unat (from_be_bytes ?l)")
    case True
    with r show ?thesis by (auto simp: await_message_def return_op_def)
  next
    case False
    have len: "length (st_in ?s) \<le> length (st_in (snd (bind_op (read_exact n) (\<lambda>x. return_op (f x)) ?s))) + n"
      for n and f :: "u8 list \<Rightarrow> connection_error + message"
      by (auto simp: bind_op_def read_exact_def return_op_def split: stream_end.splits)
    have eq: "await_message cb s = bind_op (read_exact (unat (from_be_bytes ?l))) (\<lambda>msgbuf.
        return_op (map_err CMessaging (from_wire_without_the_length_prefix cb msgbuf))) ?s"
      using False r by (simp add: await_message_def Let_def)
    have "length (st_in s) = length (st_in ?s) + 4" using \<open>4 \<le> length (st_in s)\<close> by simp
    moreover have "length (st_in ?s) \<le> length (st_in (snd (await_message cb s))) + unat (from_be_bytes ?l)"
      unfolding eq by (rule len)
    ultimately have "length (st_in s) \<le> length (st_in (snd (await_message cb s))) + 4 + MAX_MESSAGE"
      using False by linarith
    with False show ?thesis by blast
  qed
qed

theorem await_message_bounded_witness:
  "await_message demo_cbor (no_stream\<lparr>st_in := [0xFF, 0, 0, 0, 7]\<rparr>) =
     (Ret (Err (CMessaging (Internal ''message too big safeguard''))), no_stream\<lparr>st_in := [7]\<rparr>)"
  using await_message_bounded [of "no_stream\<lparr>st_in := [0xFF, 0, 0, 0, 7]\<rparr>" demo_cbor]
  by (simp add: MAX_MESSAGE_def)

section \<open>The handshake\<close>

definition tcp_ready :: "conn_env \<Rightarrow> endpoint_connection_args \<Rightarrow> bool" where
  "tcp_ready ce args \<longleftrightarrow>
     ce_connect ce (ca_ebbflow_addr args) = Finished (Ok ()) \<and> ce_keepalive ce = None \<and>
     ce_nodelay ce = None \<and> ce_tls ce (ca_ebbflow_dns args) = Finished (Ok ())"

definition hello_stream :: "conn_env \<Rightarrow> stream" where
  "hello_stream ce =
     \<lparr>st_in = ce_hello_in ce, st_end = ce_hello_end ce, st_writes = ce_writes ce, st_out = []\<rparr>"

lemma connect_ebbflow_Ok:
  "connect_ebbflow ce args s = (Ret (Inr u), s') \<longleftrightarrow> tcp_ready ce args \<and> s' = hello_stream ce"
  by (auto simp: connect_ebbflow_def bind_op_Ok_iff and_then_Inr_iff to_limit_def io_result_def sockopt_def
      tcp_ready_def hello_stream_def split: timed.splits sum.splits option.splits)

lemma hello_accepted_Ok:
  "hello_accepted m = Inr u \<longleftrightarrow> (\<exists>hr. m = HelloResponseV0 hr \<and> hr_issue hr = None)"
  by (auto simp: hello_accepted_def split: message.splits option.splits hello_response_issue.splits)

lemma await_traffic_start_Ok:
  "await_traffic_start cb s = (Ret (Inr u), s') \<longleftrightarrow> await_message cb s = (Ret (Inr StartTrafficV0), s')"
proof -
  have "(case m of StartTrafficV0 \<Rightarrow> return_op (Ok ()) | _ \<Rightarrow> return_op (Err CUnexpectedMessage)) s1
      = (Ret (Inr u), s') \<longleftrightarrow> m = StartTrafficV0 \<and> s1 = s'" for m s1
    by (cases m) auto
  then show ?thesis by (simp add: await_traffic_start_def bind_op_Ok_iff)
qed

lemma to_limit_op_Ok:
  "to_limit_op msg f s = (Ret (Inr x), s') \<longleftrightarrow> f s = (Ret (Inr x), s')"
  by (auto simp: to_limit_op_def split: prod.splits step.splits)

lemma handshake_framed:
  assumes "tcp_ready ce args" and "ce_writes ce = []" and "create_hello cb args = Ok hello"
    and "framed cb f1 (HelloResponseV0 \<lparr>hr_issue = None\<rparr>)" and "framed cb f2 StartTrafficV0"
    and "ce_hello_in ce = f1 @ early" and "early @ ce_traffic_in ce = f2 @ rest"
    and "\<not> ce_stop_before_traffic ce"
  shows "establish_ebbflow_connection_and_await_traffic_signal cb ce args s0 =
    (Ret (Ok ()), \<lparr>st_in = rest, st_end = ce_traffic_end ce, st_writes = [], st_out = hello\<rparr>)"
proof -
  let ?hs = "hello_stream ce\<lparr>st_out := hello\<rparr>"
  let ?ts = "\<lparr>st_in = f2 @ rest, st_end = ce_traffic_end ce, st_writes = [], st_out = hello\<rparr>"
  have c: "connect_ebbflow ce args s0 = (Ret (Ok ()), hello_stream ce)"
    using assms(1) by (simp add: connect_ebbflow_Ok)
  have m1: "to_limit_op l (await_message cb) ?hs
      = (Ret (Ok (HelloResponseV0 \<lparr>hr_issue = None\<rparr>)), ?hs\<lparr>st_in := early\<rparr>)" for l
    unfolding to_limit_op_Ok using assms(4,6) by (intro await_message_framed) (auto simp: hello_stream_def)
  have m2: "await_traffic_start cb ?ts = (Ret (Ok ()), ?ts\<lparr>st_in := rest\<rparr>)"
    unfolding await_traffic_start_Ok using assms(5) by (intro await_message_framed) auto
  show ?thesis
    using assms(2,3,7,8) m1 m2
    by (simp add: establish_ebbflow_connection_and_await_traffic_signal_def c flush_def
        hello_stream_def hello_accepted_def begin_idle_def)
qed

text \<open>C24. A correct server is served: if the connection to Ebbflow opens, the hello can be written, the
  server answers with a \<open>HelloResponse\<close> without an issue and later sends \<open>StartTraffic\<close> (the two frames
  may come split over the two waits in any way that gives the whole response in the first), and no
  stop comes, then the handshake returns the stream with exactly the bytes after the two frames unread
  and exactly the hello frame written.\<close>

theorem handshake_succeeds:
  assumes "cbor_roundtrip cb" and "tcp_ready ce args" and "ce_writes ce = []"
    and "create_hello cb args = Ok hello"
    and "to_wire_message cb (HelloResponseV0 \<lparr>hr_issue = None\<rparr>) = Ok f1" and "length f1 \<le> 4 + MAX_MESSAGE"
    and "to_wire_message cb StartTrafficV0 = Ok f2"
    and "ce_hello_in ce = f1 @ early" and "early @ ce_traffic_in ce = f2 @ rest"
    and "\<not> ce_stop_before_traffic ce"
  shows "establish_ebbflow_connection_and_await_traffic_signal cb ce args s0 =
    (Ret (Ok ()), \<lparr>st_in = rest, st_end = ce_traffic_end ce, st_writes = [], st_out = hello\<rparr>)"
proof -
  have "length f2 \<le> 4 + MAX_MESSAGE"
    using assms(7) by (auto simp: to_wire_message_Inr_iff MAX_MESSAGE_def)
  with assms show ?thesis by (intro handshake_framed to_wire_framed)
qed

text \<open>C4. What a successful handshake means: the connection is open, the whole hello frame for this key,
  type and endpoint was written, the first message received is a \<open>HelloResponse\<close> without an issue, the
  second is \<open>StartTraffic\<close>, each within the limit on length, no stop came first, and the bytes after
  the two frames are left for the proxy. No other message from the server starts traffic.\<close>

theorem handshake_safety:
  assumes "establish_ebbflow_connection_and_await_traffic_signal cb ce args s0 = (Ret (Ok u), s)"
  shows "tcp_ready ce args \<and> \<not> ce_stop_before_traffic ce \<and> create_hello cb args = Ok (st_out s) \<and>
    (\<exists>f1 early f2 hr.
       framed cb f1 (HelloResponseV0 hr) \<and> hr_issue hr = None \<and> ce_hello_in ce = f1 @ early \<and>
       framed cb f2 StartTrafficV0 \<and> early @ ce_traffic_in ce = f2 @ st_in s)"
proof -
  from assms obtain hello s1 s2 s3 m where
    ready: "tcp_ready ce args" and hello: "create_hello cb args = Inr hello"
    and w: "write_all hello (hello_stream ce) = (Ret (Inr ()), s1)"
    and f: "write_all [] s1 = (Ret (Inr ()), s2)"
    and m: "await_message cb s2 = (Ret (Inr m), s3)" and acc: "hello_accepted m = Inr ()"
    and stop: "\<not> ce_stop_before_traffic ce"
    and t: "await_message cb (s3\<lparr>st_in := st_in s3 @ ce_traffic_in ce, st_end := ce_traffic_end ce\<rparr>)
      = (Ret (Inr StartTrafficV0), s)"
    by (auto simp: establish_ebbflow_connection_and_await_traffic_signal_def bind_op_Ok_iff connect_ebbflow_Ok
        to_limit_op_Ok flush_def begin_idle_def await_traffic_start_Ok split: if_splits)
  obtain hr where hr: "m = HelloResponseV0 hr" "hr_issue hr = None"
    using acc by (auto simp: hello_accepted_Ok)
  have io: "st_in s2 = ce_hello_in ce" "st_out s2 = hello"
    using write_all_Ok [OF w] write_all_Ok [OF f] by (simp_all add: hello_stream_def)
  obtain f1 early where f1: "framed cb f1 m" "st_in s2 = f1 @ early" "s3 = s2\<lparr>st_in := early\<rparr>"
    using m by (rule await_message_Ok)
  obtain f2 rest where "framed cb f2 StartTrafficV0" "early @ ce_traffic_in ce = f2 @ rest"
    "st_in s = rest" "st_out s = st_out s3"
    using t by (rule await_message_Ok) (auto simp: f1(3))
  then have "framed cb f1 (HelloResponseV0 hr) \<and> hr_issue hr = None \<and> ce_hello_in ce = f1 @ early \<and>
      framed cb f2 StartTrafficV0 \<and> early @ ce_traffic_in ce = f2 @ st_in s"
    and "st_out s = hello"
    using hr io f1 by simp_all
  with ready hello stop show ?thesis by blast
qed

text \<open>The connection of the witnesses: Ebbflow answers the hello and starts traffic with the response
  still in flight; only the second local address answers.\<close>

definition demo_args :: endpoint_connection_args where
  "demo_args = \<lparr>ca_endpoint = ''example.com'', ca_key = ''k'',
     ca_addrs = [V6 ''::1'' 80, V4 \<lparr>sa_ip = (127, 0, 0, 1), sa_port = 80\<rparr>], ca_ctype = Tls,
     ca_ebbflow_addr = \<lparr>sa_ip = (34, 120, 207, 167), sa_port = 443\<rparr>, ca_ebbflow_dns = ''s.ebbflow.io''\<rparr>"

definition demo_conn :: conn_env where
  "demo_conn = \<lparr>
     ce_connect = (\<lambda>_. Finished (Ok ())), ce_keepalive = None, ce_nodelay = None,
     ce_tls = (\<lambda>_. Finished (Ok ())), ce_writes = [],
     ce_hello_in = [0, 0, 0, 5, 0, 0, 0, 6, 9, 0, 0], ce_hello_end = StreamStalls,
     ce_traffic_in = [0, 4, 0, 0, 0, 7, 42], ce_traffic_end = StreamStalls,
     ce_stop_before_traffic = False,
     ce_local_connect = (\<lambda>a. if is_ipv4 a then Finished (Ok ()) else TimedOut),
     ce_local_keepalive = (\<lambda>_. None), ce_local_nodelay = (\<lambda>_. None), ce_stop_while_active = False,
     ce_debug = (\<lambda>_. ''error''), ce_debug_addr = (\<lambda>_. ''addr''), ce_debug_addrs = (\<lambda>_. ''addrs'')\<rparr>"

lemma demo_frames:
  "to_wire_message demo_cbor (HelloResponseV0 \<lparr>hr_issue = None\<rparr>) = Ok [0, 0, 0, 5, 0, 0, 0, 6, 9]"
  "to_wire_message demo_cbor StartTrafficV0 = Ok [0, 0, 0, 4, 0, 0, 0, 7]"
  "create_hello demo_cbor demo_args = Ok [0, 0, 0, 7, 0, 0, 0, 1, 1, 2, 3]"
  using demo_wire_hello
  by (simp_all add: to_wire_message_def demo_cbor_def one_value_def Let_def to_be_bytes_def create_hello_def
      demo_args_def demo_hello_def)

theorem handshake_succeeds_witness:
  "establish_ebbflow_connection_and_await_traffic_signal demo_cbor demo_conn demo_args no_stream =
    (Ret (Ok ()), \<lparr>st_in = [42], st_end = StreamStalls, st_writes = [],
       st_out = [0, 0, 0, 7, 0, 0, 0, 1, 1, 2, 3]\<rparr>)"
  using handshake_succeeds [OF demo_cbor_roundtrip _ _ demo_frames(3) demo_frames(1) _ demo_frames(2),
      of demo_conn "[0, 0]" "[42]" no_stream]
  by (simp add: tcp_ready_def demo_conn_def demo_args_def MAX_MESSAGE_def)

lemma demo_handshake:
  "establish_ebbflow_connection_and_await_traffic_signal demo_cbor demo_conn demo_args no_stream =
    (Ret (Ok ()), \<lparr>st_in = [42], st_end = StreamStalls, st_writes = [],
       st_out = [0, 0, 0, 7, 0, 0, 0, 1, 1, 2, 3]\<rparr>)"
proof -
  have "framed demo_cbor [0, 0, 0, 5, 0, 0, 0, 6, 9] (HelloResponseV0 \<lparr>hr_issue = None\<rparr>)"
    "framed demo_cbor [0, 0, 0, 4, 0, 0, 0, 7] StartTrafficV0"
    by (rule to_wire_framed [OF demo_cbor_roundtrip demo_frames(1)],
        simp add: MAX_MESSAGE_def)
      (rule to_wire_framed [OF demo_cbor_roundtrip demo_frames(2)], simp add: MAX_MESSAGE_def)
  from handshake_framed [OF _ _ demo_frames(3) this, of demo_conn "[0, 0]" "[42]" no_stream]
  show ?thesis by (simp add: tcp_ready_def demo_conn_def demo_args_def)
qed

theorem handshake_safety_witness:
  "tcp_ready demo_conn demo_args \<and>
   (\<exists>f early. framed demo_cbor f (HelloResponseV0 \<lparr>hr_issue = None\<rparr>) \<and> ce_hello_in demo_conn = f @ early)"
proof -
  note safe = handshake_safety [OF demo_handshake]
  then obtain f1 early hr where "framed demo_cbor f1 (HelloResponseV0 hr)" "hr_issue hr = None"
    "ce_hello_in demo_conn = f1 @ early" by blast
  moreover from \<open>hr_issue hr = None\<close> have "hr = \<lparr>hr_issue = None\<rparr>" by simp
  ultimately show ?thesis using safe by blast
qed

section \<open>Bookkeeping\<close>

lemma run_phases_failure:
  "run_phases (failure_effects ce args e) HandshakeOver = Some HandshakeOver"
  by (cases e) (simp_all add: failure_effects_def jittersleep1p5_def)

lemma run_phases_proxy:
  "run_phases (proxy_data ce local) Proxying = Some Proxying"
  by (simp add: proxy_data_def jittersleep1p5_def)

lemma local_effects_phases:
  "run_phases (fst (connect_local_with_ebbflow_communication cb ce args s)) PermitDropped = Some PermitDropped"
  by (simp add: connect_local_with_ebbflow_communication_def split: sum.splits)

lemmas phase_lemmas = run_phases_append run_phases_failure run_phases_proxy

lemma run_connection_phases:
  "\<exists>p \<in> {HandshakeOver, PermitDropped, Closed}.
     run_phases (fst (run_connection cb ce args)) NotStarted = Some p"
proof -
  obtain r s where rs: "establish_ebbflow_connection_and_await_traffic_signal cb ce args no_stream = (r, s)"
    by (cases "establish_ebbflow_connection_and_await_traffic_signal cb ce args no_stream")
  obtain effs r' s' where l: "connect_local_with_ebbflow_communication cb ce args s = (effs, r', s')"
    by (cases "connect_local_with_ebbflow_communication cb ce args s") auto
  have "run_phases effs PermitDropped = Some PermitDropped"
    using local_effects_phases [of cb ce args s] by (simp add: l)
  then show ?thesis
    by (auto simp: run_connection_def rs l Let_def phase_lemmas jittersleep1p5_def split: step.splits sum.splits)
qed

text \<open>C12. The bookkeeping of a connection, whatever the network does: the effects of \<open>run_connection\<close> come
  in the order of the automaton of phases, so a connection is counted as idle once and no more before
  anything else happens, it is counted as active only after its idle permit is back, never as both; and
  when it is over the endpoint's counters are what they were.\<close>

theorem run_connection_balanced:
  "(\<exists>p \<in> {HandshakeOver, PermitDropped, Closed}.
      run_phases (fst (run_connection cb ce args)) NotStarted = Some p) \<and>
   fold count_effect (fst (run_connection cb ce args)) m = m"
proof -
  obtain p where p: "p \<in> {HandshakeOver, PermitDropped, Closed}"
    "run_phases (fst (run_connection cb ce args)) NotStarted = Some p"
    using run_connection_phases by blast
  from run_phases_counts [OF p(2), of m] p(1)
  have "fold count_effect (fst (run_connection cb ce args)) m = m"
    by (auto simp: phase_idle_def phase_active_def intro!: endpoint_meta.equality)
  with p show ?thesis by blast
qed

theorem run_connection_balanced_witness:
  "fold count_effect (fst (run_connection demo_cbor demo_conn demo_args)) (endpoint_meta_new None) =
     endpoint_meta_new None"
  using run_connection_balanced [of demo_cbor demo_conn demo_args "endpoint_meta_new None"] by blast

section \<open>Delays\<close>

text \<open>What a connection does to slow the pool down and to tell the user, from its effects: the intervals of
  its sleeps and its messages, in order.\<close>

definition sleeps :: "effect list \<Rightarrow> (millis \<times> millis) list" where
  "sleeps es = concat (map (\<lambda>e. case e of Sleep lo hi \<Rightarrow> [(lo, hi)] | _ \<Rightarrow> []) es)"

definition logs :: "effect list \<Rightarrow> string list" where
  "logs es = concat (map (\<lambda>e. case e of Log m \<Rightarrow> [m] | _ \<Rightarrow> []) es)"

lemma sleeps_logs_simps [simp]:
  "sleeps [] = []" "sleeps (es @ es') = sleeps es @ sleeps es'"
  "sleeps (e # es) = (case e of Sleep lo hi \<Rightarrow> [(lo, hi)] | _ \<Rightarrow> []) @ sleeps es"
  "logs [] = []" "logs (es @ es') = logs es @ logs es'"
  "logs (e # es) = (case e of Log m \<Rightarrow> [m] | _ \<Rightarrow> []) @ logs es"
  by (simp_all add: sleeps_def logs_def)

definition refused :: "connection_error \<Rightarrow> bool" where
  "refused e \<longleftrightarrow> e \<in> {CForbidden, CNotFound, CBadRequest}"

definition failure_message :: "conn_env \<Rightarrow> endpoint_connection_args \<Rightarrow> connection_error \<Rightarrow> string" where
  "failure_message ce args e =
     (if refused e then ''A connection for endpoint '' else ''Failed to connect to Ebbflow for endpoint '')
       @ ca_endpoint args @ '' failed due to '' @ ce_debug ce e"

lemma failure_delays:
  "sleeps (failure_effects ce args e) = (if refused e then [(55000, 82500), (5000, 7500)] else [(5000, 7500)])"
  "logs (failure_effects ce args e) = [failure_message ce args e]"
  by (cases e; simp add: failure_effects_def jittersleep1p5_def refused_def failure_message_def
      BAD_ERROR_DELAY_def MIN_EBBFLOW_ERROR_DELAY_def)+

lemma local_effects:
  assumes "connect_local_with_ebbflow_communication cb ce args s = (effs, r, s')"
  shows "sleeps effs = []" "length (logs effs) = (if isl (connect_local ce (ca_addrs args)) then 1 else 0)"
    "r = Ret (Inr a) \<Longrightarrow> \<not> isl (connect_local ce (ca_addrs args))"
  using assms
  by (auto simp: connect_local_with_ebbflow_communication_def bind_op_Ok_iff split: sum.splits)

text \<open>C34. No tight retry loop, for every way a connection can end. One that could not be established sleeps
  for between five and seven and a half seconds before it ends, after a first sleep of between 55 and
  82.5 seconds when Ebbflow refused the endpoint, and queues exactly one message, about the error; one
  that hits the idle limit has waited for the limit of 62 minutes, and neither sleeps nor says anything;
  one that was established and then fails, for want of a local server or because Ebbflow cannot be
  answered, sleeps for between five and seven and a half seconds, and one that proxies does not sleep,
  unless the kill delay runs. A message then says, exactly once, when no local server was found.\<close>

theorem error_delays:
  "case establish_ebbflow_connection_and_await_traffic_signal cb ce args no_stream of
     (Ret (Inl e), s) \<Rightarrow>
       sleeps (fst (run_connection cb ce args)) = (if refused e then [(55000, 82500), (5000, 7500)] else [(5000, 7500)]) \<and>
       logs (fst (run_connection cb ce args)) = [failure_message ce args e]
   | (Blocked, s) \<Rightarrow> fst (run_connection cb ce args) = [AddIdle, IdleTimeout (62 * 60 * 1000), RemoveIdle]
   | (Ret (Inr _), s) \<Rightarrow>
       length (logs (fst (run_connection cb ce args))) = (if isl (connect_local ce (ca_addrs args)) then 1 else 0) \<and>
       sleeps (fst (run_connection cb ce args)) =
         (case fst (snd (connect_local_with_ebbflow_communication cb ce args s)) of
            Ret (Inl _) \<Rightarrow> [(5000, 7500)]
          | Ret (Inr _) \<Rightarrow> if ce_stop_while_active ce then [(60000, 90000)] else []
          | Blocked \<Rightarrow> [])"
proof -
  obtain r s where rs: "establish_ebbflow_connection_and_await_traffic_signal cb ce args no_stream = (r, s)"
    by (cases "establish_ebbflow_connection_and_await_traffic_signal cb ce args no_stream")
  obtain effs r' s' where l: "connect_local_with_ebbflow_communication cb ce args s = (effs, r', s')"
    by (cases "connect_local_with_ebbflow_communication cb ce args s") auto
  show ?thesis
    using local_effects [OF l]
    by (auto simp: rs l run_connection_def Let_def failure_delays jittersleep1p5_def proxy_data_def
        MIN_EBBFLOW_ERROR_DELAY_def KILL_ACTIVE_DELAY_def MAX_IDLE_CONNETION_TIME_def split: step.splits sum.splits)
qed

lemma demo_unreachable:
  "establish_ebbflow_connection_and_await_traffic_signal demo_cbor (demo_conn\<lparr>ce_connect := \<lambda>_. TimedOut\<rparr>)
     demo_args no_stream = (Ret (Err (CTimeout ''connecting to ebbflow'')), no_stream)"
  by (simp add: establish_ebbflow_connection_and_await_traffic_signal_def connect_ebbflow_def to_limit_def
      bind_op_def return_op_def)

theorem error_delays_witness:
  "sleeps (fst (run_connection demo_cbor (demo_conn\<lparr>ce_connect := \<lambda>_. TimedOut\<rparr>) demo_args)) = [(5000, 7500)]"
  using error_delays [of demo_cbor "demo_conn\<lparr>ce_connect := \<lambda>_. TimedOut\<rparr>" demo_args]
  by (simp add: demo_unreachable refused_def)

section \<open>The local server\<close>

definition connects :: "conn_env \<Rightarrow> socket_addr \<Rightarrow> bool" where
  "connects ce a \<longleftrightarrow> ce_local_connect ce a = Finished (Ok ())"

lemma first_split_Cons:
  "(\<exists>as bs. x # xs = as @ a # bs \<and> (\<forall>y \<in> set as. \<not> P y)) \<longleftrightarrow>
     x = a \<or> \<not> P x \<and> (\<exists>as bs. xs = as @ a # bs \<and> (\<forall>y \<in> set as. \<not> P y))"
  (is "?L \<longleftrightarrow> ?R")
proof
  assume ?L
  then obtain as bs where "x # xs = as @ a # bs" "\<forall>y \<in> set as. \<not> P y" by blast
  then show ?R by (cases as) auto
next
  assume ?R
  then consider "x = a" | as bs where "\<not> P x" "xs = as @ a # bs" "\<forall>y \<in> set as. \<not> P y" by blast
  then show ?L
  proof cases
    case 1
    then show ?thesis by (intro exI [of _ "[]"] exI [of _ xs]) simp
  next
    case 2
    then show ?thesis by (intro exI [of _ "x # as"] exI [of _ bs]) simp
  qed
qed

lemma connect_local_loop_Ok:
  "connect_local_loop ce addrs errors = Inr a \<longleftrightarrow>
     (\<exists>as bs. addrs = as @ a # bs \<and> (\<forall>x \<in> set as. \<not> connects ce x)) \<and> connects ce a \<and>
     ce_local_keepalive ce a = None \<and> ce_local_nodelay ce a = None"
proof (induction ce addrs errors rule: connect_local_loop.induct)
  case (2 ce x xs errors)
  show ?case
  proof (cases "connects ce x")
    case True
    then have "connect_local_loop ce (x # xs) errors = Inr a \<longleftrightarrow>
        x = a \<and> ce_local_keepalive ce x = None \<and> ce_local_nodelay ce x = None"
      by (auto simp: connects_def to_limit_def sockopt_def split: option.splits)
    with True show ?thesis unfolding first_split_Cons by blast
  next
    case False
    then have "connect_local_loop ce (x # xs) errors = Inr a \<longleftrightarrow>
        (\<exists>as bs. xs = as @ a # bs \<and> (\<forall>x \<in> set as. \<not> connects ce x)) \<and> connects ce a \<and>
          ce_local_keepalive ce a = None \<and> ce_local_nodelay ce a = None"
      using 2 by (simp add: connects_def to_limit_def split: timed.splits sum.splits)
    with False show ?thesis unfolding first_split_Cons by blast
  qed
qed simp

text \<open>The local server is the first address that accepts: \<open>connect_local\<close> returns an address exactly
  when it is one of the endpoint's, no address before it accepted a connection in time, it did, and its
  socket options could be set.\<close>

theorem connect_local_first:
  "connect_local ce addrs = Ok a \<longleftrightarrow>
     (\<exists>as bs. addrs = as @ a # bs \<and> (\<forall>x \<in> set as. \<not> connects ce x) \<and> connects ce a \<and>
        ce_local_keepalive ce a = None \<and> ce_local_nodelay ce a = None)"
  unfolding connect_local_def connect_local_loop_Ok by blast

theorem connect_local_first_witness:
  "connect_local demo_conn [V6 ''::1'' 80, V4 \<lparr>sa_ip = (127, 0, 0, 1), sa_port = 80\<rparr>]
     = Ok (V4 \<lparr>sa_ip = (127, 0, 0, 1), sa_port = 80\<rparr>)"
  unfolding connect_local_first
  by (intro exI [of _ "[V6 ''::1'' 80]"] exI [of _ "[]"]) (simp add: connects_def demo_conn_def)

text \<open>C35. Ebbflow is told the truth about the local server: when the answer can be encoded and written,
  \<open>connect_local_with_ebbflow_communication\<close> returns what \<open>connect_local\<close> returned, and what it wrote is
  one \<open>StartTrafficResponse\<close> that says ready exactly when the local server was connected.\<close>

theorem local_answer_truthful:
  assumes "starttrafficresponse cb (\<not> isl (connect_local ce (ca_addrs args))) = Ok f" and "st_writes s = []"
  shows "snd (connect_local_with_ebbflow_communication cb ce args s) =
    (Ret (connect_local ce (ca_addrs args)), s\<lparr>st_out := st_out s @ f\<rparr>)"
  using assms
  by (auto simp: connect_local_with_ebbflow_communication_def return_op_def split: sum.splits)

theorem local_answer_truthful_witness:
  "snd (connect_local_with_ebbflow_communication demo_cbor demo_conn demo_args no_stream) =
     (Ret (Ok (V4 \<lparr>sa_ip = (127, 0, 0, 1), sa_port = 80\<rparr>)),
      no_stream\<lparr>st_out := [0, 0, 0, 5, 0, 0, 0, 8, 0xF5]\<rparr>)"
proof -
  have c: "connect_local demo_conn (ca_addrs demo_args) = Ok (V4 \<lparr>sa_ip = (127, 0, 0, 1), sa_port = 80\<rparr>)"
    by (simp add: connect_local_def demo_conn_def demo_args_def to_limit_def sockopt_def)
  have "starttrafficresponse demo_cbor True = Ok [0, 0, 0, 5, 0, 0, 0, 8, 0xF5]"
    by (simp add: starttrafficresponse_def to_wire_message_def demo_cbor_def bool_bytes_def Let_def to_be_bytes_def)
  then show ?thesis
    using local_answer_truthful [of demo_cbor demo_conn demo_args _ no_stream] by (simp add: c no_stream_def)
qed

section \<open>The proxy\<close>

text \<open>What one direction was given to read, from the events alone, and its copy.\<close>

definition events_of :: "direction \<Rightarrow> (direction \<times> copy_event) list \<Rightarrow> copy_event list" where
  "events_of dir sched = map snd (filter (\<lambda>(d, ev). d = dir) sched)"

definition bytes_read :: "copy_event list \<Rightarrow> u8 list" where
  "bytes_read evs = concat (map (\<lambda>ev. case ev of ReadDone (Inr buf) \<Rightarrow> buf | _ \<Rightarrow> []) evs)"

definition copy_of :: "direction \<Rightarrow> proxied \<Rightarrow> copy" where
  "copy_of dir p = (case dir of Local2Ebb \<Rightarrow> px_local2ebb p | Ebb2Local \<Rightarrow> px_ebb2local p)"

lemma events_of_simps [simp]:
  "events_of dir [] = []"
  "events_of dir ((d, ev) # sched) = (if d = dir then ev # events_of dir sched else events_of dir sched)"
  by (simp_all add: events_of_def)

lemma bytes_read_simps [simp]:
  "bytes_read [] = []" "bytes_read (evs @ evs') = bytes_read evs @ bytes_read evs'"
  "bytes_read (ev # evs) = (case ev of ReadDone (Inr buf) \<Rightarrow> buf | _ \<Rightarrow> []) @ bytes_read evs"
  by (simp_all add: bytes_read_def)

text \<open>A copy that was given the bytes \<open>bs\<close> has handed all of them to its writer in order, up to what it
  holds in its buffer; what an error leaves in the buffer is lost.\<close>

definition copied :: "u8 list \<Rightarrow> copy \<Rightarrow> bool" where
  "copied bs c \<longleftrightarrow> (\<exists>left. bs = cp_out c @ left \<and> length left \<le> 10240 \<and>
     (case cp_state c of Writing buf \<Rightarrow> left = buf | Ended (Inl e) \<Rightarrow> True | _ \<Rightarrow> left = []))"

lemma copied_step:
  assumes "copied bs c" "copy_step ev c = Some c'"
  shows "copied (bs @ bytes_read [ev]) c'"
  using assms
  by (auto simp: copied_def copy_step_def COPY_BUFFER_def
      split: copy_state.splits copy_event.splits sum.splits option.splits if_splits)

lemma copied_run:
  assumes "copied bs c" "copy_run evs c = Some c'"
  shows "copied (bs @ bytes_read evs) c'"
  using assms
proof (induction evs arbitrary: bs c)
  case (Cons ev evs)
  then obtain c1 where c1: "copy_step ev c = Some c1" "copy_run evs c1 = Some c'" by (auto split: option.splits)
  from Cons.IH [OF copied_step [OF Cons.prems(1) c1(1)] c1(2)] show ?case by simp
qed simp

lemma copied_bytes:
  assumes "copy_bytes_ez evs = Some c"
  shows "copied (bytes_read evs) c"
  using copied_run [of "[]" copy_start evs c] assms
  by (simp add: copy_bytes_ez_def copied_def copy_start_def)

lemma proxy_run_copies:
  "proxy_run sched p = Some q \<Longrightarrow> copy_run (events_of dir sched) (copy_of dir p) = Some (copy_of dir q)"
proof (induction sched arbitrary: p)
  case (Cons x sched)
  obtain d ev where x: "x = (d, ev)" by (cases x)
  from Cons.prems obtain p1 where p1: "proxy_step x p = Some p1" "proxy_run sched p1 = Some q"
    by (auto split: option.splits)
  have "if d = dir then copy_step ev (copy_of dir p) = Some (copy_of dir p1) else copy_of dir p1 = copy_of dir p"
    using p1(1) by (cases d; cases dir) (auto simp: x proxy_step_def copy_of_def split: if_splits)
  with Cons.IH [OF p1(2)] show ?case by (simp add: x split: if_splits)
qed simp

lemma proxy_run_append:
  "proxy_run (xs @ ys) p = (case proxy_run xs p of None \<Rightarrow> None | Some q \<Rightarrow> proxy_run ys q)"
  by (induction xs arbitrary: p) (auto split: option.splits)

lemma proxy_not_over:
  assumes "proxy (xs @ y # ys) = Some p"
  shows "\<exists>q. proxy xs = Some q \<and> \<not> proxy_over q"
  using assms by (auto simp: proxy_def proxy_run_append proxy_step_def split: option.splits if_splits)

text \<open>C26. The proxy neither loses, invents nor reorders bytes, however the reads, the partial writes and the
  flushes of its two directions interleave. Each direction is a run of \<open>copy_bytes_ez\<close> on its own events
  alone; the bytes it was given to read are those it has handed over followed by at most 10 KiB, which
  are the buffer it is writing, or what an error of its own has cut off, and none in every other state,
  in particular at the end of its stream. The proxy goes on as long as neither direction has ended, and
  neither makes the other wait: what a copy could do next alone, it can do next in the proxy.\<close>

theorem proxy_copies_both_ways:
  assumes "proxy sched = Some p"
  shows "copy_bytes_ez (events_of dir sched) = Some (copy_of dir p) \<and>
    (\<exists>left. bytes_read (events_of dir sched) = cp_out (copy_of dir p) @ left \<and> length left \<le> 10240 \<and>
       (case cp_state (copy_of dir p) of
          Writing buf \<Rightarrow> left = buf
        | Ended (Inl e) \<Rightarrow> True
        | _ \<Rightarrow> left = [])) \<and>
    (\<forall>k < length sched. \<exists>q. proxy (take k sched) = Some q \<and> \<not> proxy_over q) \<and>
    (\<not> proxy_over p \<longrightarrow> (proxy (sched @ [(dir, ev)]) = None \<longleftrightarrow> copy_step ev (copy_of dir p) = None))"
proof (intro conjI allI impI)
  show run: "copy_bytes_ez (events_of dir sched) = Some (copy_of dir p)"
    using proxy_run_copies [OF assms [unfolded proxy_def], of dir]
    by (cases dir) (simp_all add: copy_bytes_ez_def copy_of_def)
  show "\<exists>left. bytes_read (events_of dir sched) = cp_out (copy_of dir p) @ left \<and> length left \<le> 10240 \<and>
       (case cp_state (copy_of dir p) of Writing buf \<Rightarrow> left = buf | Ended (Inl e) \<Rightarrow> True | _ \<Rightarrow> left = [])"
    using copied_bytes [OF run] by (simp add: copied_def)
  show "\<exists>q. proxy (take k sched) = Some q \<and> \<not> proxy_over q" if "k < length sched" for k
    using proxy_not_over [of "take k sched" "sched ! k" "drop (Suc k) sched" p] assms id_take_nth_drop [OF that]
    by simp
  show "proxy (sched @ [(dir, ev)]) = None \<longleftrightarrow> copy_step ev (copy_of dir p) = None" if "\<not> proxy_over p"
    using assms that by (cases dir) (simp_all add: proxy_def proxy_run_append proxy_step_def copy_of_def split: option.splits)
qed

text \<open>In the witness the local server sends two pieces, of which the first is written in two goes; Ebbflow's
  three bytes are half written when the local server closes.\<close>

definition demo_schedule :: "(direction \<times> copy_event) list" where
  "demo_schedule =
     [(Ebb2Local, ReadDone (Ok [7, 8, 9])), (Local2Ebb, ReadDone (Ok [1, 2, 3])), (Local2Ebb, WriteSome (Ok 2)),
      (Ebb2Local, WriteSome (Ok 1)), (Local2Ebb, WriteSome (Ok 1)), (Local2Ebb, FlushDone None),
      (Local2Ebb, ReadDone (Ok [4])), (Local2Ebb, WriteSome (Ok 1)), (Local2Ebb, FlushDone None),
      (Local2Ebb, ReadDone (Ok []))]"

theorem proxy_copies_both_ways_witness:
  "\<exists>p. proxy demo_schedule = Some p \<and> proxy_over p \<and> cp_out (copy_of Local2Ebb p) = [1, 2, 3, 4] \<and>
     bytes_read (events_of Ebb2Local demo_schedule) = cp_out (copy_of Ebb2Local p) @ [8, 9]"
proof -
  obtain p where p: "proxy demo_schedule = Some p" "cp_state (px_local2ebb p) = Ended (Ok ())"
    "cp_state (px_ebb2local p) = Writing [8, 9]"
    by (simp add: demo_schedule_def proxy_def proxy_step_def proxy_over_def copy_ended_def copy_step_def
        copy_start_def COPY_BUFFER_def)
  have "bytes_read (events_of Local2Ebb demo_schedule) = [1, 2, 3, 4]" by (simp add: demo_schedule_def)
  with p proxy_copies_both_ways [OF p(1), of Local2Ebb] proxy_copies_both_ways [OF p(1), of Ebb2Local]
  show ?thesis by (auto simp: copy_of_def proxy_over_def copy_ended_def)
qed

end
