(* ===== verification/Conn_Pool.thy ===== *)
theory Conn_Pool
  imports Connection_Props Shared_Info "HOL-Library.Multiset"
begin

text \<open>
  The pool of connections of an endpoint: \<open>inner_run_endpoint\<close> and \<open>create_args\<close> of
  \<open>src/src/daemon/mod.rs\<close>, with the connections of theory \<open>Connection\<close> as its tasks.

  The loop takes a permit of the semaphore for all connections, then one of the semaphore for idle
  connections, makes the arguments and spawns a connection. The loop and the connections run
  concurrently: a step of the pool is one step of the loop, one effect of one connection, or the end of
  a connection. A connection is the list of the effects of \<open>run_connection\<close> in some network, split into
  those done and those to come.

  \<open>tokio::sync::Semaphore\<close> is a parameter; an \<open>acquire_owned\<close> that is not ready is a step that cannot be
  taken. \<open>semaphore_laws\<close> is its documented behaviour, over the number of permits that are available.

  Each connection group has its own loop and semaphores, but all groups of an endpoint share its
  counters: a connection of an earlier group may still be proxying in its kill delay. What those do to
  the counters is a step too, and \<open>pl_others\<close>, which is for the proofs only, lists it.
\<close>

section \<open>Arguments of a connection\<close>

definition create_args ::
    "(nat \<Rightarrow> nat) \<Rightarrow> (string \<Rightarrow> bool) \<Rightarrow> 'roots shared_info \<Rightarrow> endpoint_args \<Rightarrow> socket_addr list
       \<Rightarrow> panic + endpoint_connection_args" where
  "create_args rng valid_name info args addrs =
     and_then (ebbflow_addr rng info) (\<lambda>addr.
     and_then (ebbflow_dns valid_name info) (\<lambda>dns.
       Ok \<lparr>ca_endpoint = ea_endpoint args, ca_key = unwrap_or (si_key info) ''unset'', ca_addrs = addrs,
           ca_ctype = ea_ctype args, ca_ebbflow_addr = addr, ca_ebbflow_dns = dns\<rparr>))"

section \<open>The pool\<close>

record 's semaphore =
  sem_new :: "nat \<Rightarrow> 's"
  sem_acquire :: "'s \<Rightarrow> 's option"
  sem_release :: "'s \<Rightarrow> 's"

definition semaphore_laws :: "'s semaphore \<Rightarrow> ('s \<Rightarrow> nat) \<Rightarrow> bool" where
  "semaphore_laws ops permits \<longleftrightarrow>
     (\<forall>n. permits (sem_new ops n) = n) \<and>
     (\<forall>s. permits (sem_release ops s) = Suc (permits s)) \<and>
     (\<forall>s. case sem_acquire ops s of
        None \<Rightarrow> permits s = 0
      | Some s' \<Rightarrow> permits s = Suc (permits s'))"

text \<open>Where the loop is: it waits for the first permit, for the second one while it holds the first, or
  makes arguments while it holds both; or it is over.\<close>

datatype pool_loop = WantMax | WantIdle | CreateArgs | LoopOver

record conn_task =
  ct_done :: "effect list"
  ct_todo :: "effect list"
  ct_idle_permit :: bool

record 's pool =
  pl_loop :: pool_loop
  pl_idlesem :: 's
  pl_maxsem :: 's
  pl_meta :: endpoint_meta
  pl_tasks :: "conn_task multiset"
  pl_others :: "effect list"

definition pool_start :: "'s semaphore \<Rightarrow> endpoint_args \<Rightarrow> endpoint_meta \<Rightarrow> 's pool" where
  "pool_start ops args meta =
     \<lparr>pl_loop = WantMax, pl_idlesem = sem_new ops (unat (ea_idleconns args)),
      pl_maxsem = sem_new ops (unat (ea_maxconns args)), pl_meta = meta, pl_tasks = {#},
      pl_others = []\<rparr>"

text \<open>The loop ends with what it holds being dropped: when the stop signal of the group wins the
  \<open>select\<close> around it, or in a panic.\<close>

definition end_loop :: "'s semaphore \<Rightarrow> 's pool \<Rightarrow> 's pool" where
  "end_loop ops P =
     (let P1 = (if pl_loop P = WantIdle \<or> pl_loop P = CreateArgs
                then P\<lparr>pl_maxsem := sem_release ops (pl_maxsem P)\<rparr> else P);
          P2 = (if pl_loop P = CreateArgs then P1\<lparr>pl_idlesem := sem_release ops (pl_idlesem P1)\<rparr> else P1)
      in P2\<lparr>pl_loop := LoopOver\<rparr>)"

definition new_task :: "effect list \<Rightarrow> conn_task" where
  "new_task effs = \<lparr>ct_done = [], ct_todo = effs, ct_idle_permit = True\<rparr>"

text \<open>The next effect of a connection: the counters, and the idle permit when it is dropped.\<close>

definition task_effect :: "'s semaphore \<Rightarrow> conn_task \<Rightarrow> effect \<Rightarrow> effect list \<Rightarrow> 's pool \<Rightarrow> 's pool" where
  "task_effect ops t e es P =
     P\<lparr>pl_meta := count_effect e (pl_meta P),
       pl_idlesem := (if e = DropIdlePermit then sem_release ops (pl_idlesem P) else pl_idlesem P),
       pl_tasks := add_mset (t\<lparr>ct_done := ct_done t @ [e], ct_todo := es,
                               ct_idle_permit := (e \<noteq> DropIdlePermit \<and> ct_idle_permit t)\<rparr>)
                            (pl_tasks P - {#t#})\<rparr>"

text \<open>The end of a connection: an idle permit that it still has is dropped, then its other permit.\<close>

definition task_end :: "'s semaphore \<Rightarrow> conn_task \<Rightarrow> 's pool \<Rightarrow> 's pool" where
  "task_end ops t P =
     P\<lparr>pl_idlesem := (if ct_idle_permit t then sem_release ops (pl_idlesem P) else pl_idlesem P),
       pl_maxsem := sem_release ops (pl_maxsem P),
       pl_tasks := pl_tasks P - {#t#}\<rparr>"

inductive pool_step ::
    "'s semaphore \<Rightarrow> cbor \<Rightarrow> (string \<Rightarrow> bool) \<Rightarrow> endpoint_args \<Rightarrow> socket_addr list \<Rightarrow> 's pool \<Rightarrow> 's pool \<Rightarrow> bool"
  for ops cb valid_name args addrs where
  acquire_max:
    "pl_loop P = WantMax \<Longrightarrow> sem_acquire ops (pl_maxsem P) = Some s \<Longrightarrow>
     pool_step ops cb valid_name args addrs P (P\<lparr>pl_loop := WantIdle, pl_maxsem := s\<rparr>)"
| acquire_idle:
    "pl_loop P = WantIdle \<Longrightarrow> sem_acquire ops (pl_idlesem P) = Some s \<Longrightarrow>
     pool_step ops cb valid_name args addrs P (P\<lparr>pl_loop := CreateArgs, pl_idlesem := s\<rparr>)"
| spawn:
    "pl_loop P = CreateArgs \<Longrightarrow> create_args rng valid_name (info :: unit shared_info) args addrs = Ok cargs \<Longrightarrow>
     pool_step ops cb valid_name args addrs P
       (P\<lparr>pl_loop := WantMax, pl_tasks := add_mset (new_task (fst (run_connection cb ce cargs))) (pl_tasks P)\<rparr>)"
| panic:
    "pl_loop P = CreateArgs \<Longrightarrow> create_args rng valid_name (info :: unit shared_info) args addrs = Err UnwrapFailed \<Longrightarrow>
     pool_step ops cb valid_name args addrs P (end_loop ops P)"
| stop:
    "pl_loop P \<noteq> LoopOver \<Longrightarrow> pool_step ops cb valid_name args addrs P (end_loop ops P)"
| effect:
    "t \<in># pl_tasks P \<Longrightarrow> ct_todo t = e # es \<Longrightarrow>
     pool_step ops cb valid_name args addrs P (task_effect ops t e es P)"
| finish:
    "t \<in># pl_tasks P \<Longrightarrow> ct_todo t = [] \<Longrightarrow>
     pool_step ops cb valid_name args addrs P (task_end ops t P)"
| others:
    "pool_step ops cb valid_name args addrs P
       (P\<lparr>pl_meta := count_effect e (pl_meta P), pl_others := pl_others P @ [e]\<rparr>)"

inductive_cases pool_stepE: "pool_step ops cb valid_name args addrs P P'"

definition pool_reach ::
    "'s semaphore \<Rightarrow> cbor \<Rightarrow> (string \<Rightarrow> bool) \<Rightarrow> endpoint_args \<Rightarrow> socket_addr list \<Rightarrow> 's pool \<Rightarrow> 's pool \<Rightarrow> bool" where
  "pool_reach ops cb valid_name args addrs = (pool_step ops cb valid_name args addrs)\<^sup>*\<^sup>*"

section \<open>The invariant\<close>

text \<open>The permits the loop holds, and the phase of a connection.\<close>

definition loop_max :: "pool_loop \<Rightarrow> nat" where
  "loop_max l = (if l = WantIdle \<or> l = CreateArgs then 1 else 0)"

definition loop_idle :: "pool_loop \<Rightarrow> nat" where
  "loop_idle l = (if l = CreateArgs then 1 else 0)"

definition task_phase :: "conn_task \<Rightarrow> conn_phase" where
  "task_phase t = the (run_phases (ct_done t) NotStarted)"

definition task_ok :: "conn_task \<Rightarrow> bool" where
  "task_ok t \<longleftrightarrow> run_phases (ct_done t) NotStarted = Some (task_phase t) \<and>
     (\<exists>q \<in> {HandshakeOver, PermitDropped, Closed}. run_phases (ct_todo t) (task_phase t) = Some q) \<and>
     (ct_idle_permit t \<longleftrightarrow> task_phase t \<in> {NotStarted, Idling, HandshakeOver})"

definition count_phase :: "(conn_phase \<Rightarrow> nat) \<Rightarrow> conn_task multiset \<Rightarrow> nat" where
  "count_phase f ts = sum_mset (image_mset (f \<circ> task_phase) ts)"

definition holders :: "conn_task multiset \<Rightarrow> nat" where
  "holders ts = sum_mset (image_mset (\<lambda>t. if ct_idle_permit t then 1 else 0) ts)"

text \<open>The counters as the connections of the other groups alone would have left them.\<close>

abbreviation others_meta :: "endpoint_meta \<Rightarrow> 's pool \<Rightarrow> endpoint_meta" where
  "others_meta m0 P \<equiv> fold count_effect (pl_others P) m0"

lemma count_effect_shift:
  "em_idle m = em_idle m' + k \<Longrightarrow> em_idle (count_effect e m) = em_idle (count_effect e m') + k"
  "em_active m = em_active m' + k \<Longrightarrow> em_active (count_effect e m) = em_active (count_effect e m') + k"
  by (cases e; simp add: add_idle_def remove_idle_def add_active_def remove_active_def)+

definition pool_inv :: "('s \<Rightarrow> nat) \<Rightarrow> endpoint_args \<Rightarrow> endpoint_meta \<Rightarrow> 's pool \<Rightarrow> bool" where
  "pool_inv permits args m0 P \<longleftrightarrow>
     (\<forall>t \<in># pl_tasks P. task_ok t) \<and>
     permits (pl_maxsem P) + size (pl_tasks P) + loop_max (pl_loop P) = unat (ea_maxconns args) \<and>
     permits (pl_idlesem P) + holders (pl_tasks P) + loop_idle (pl_loop P) = unat (ea_idleconns args) \<and>
     em_idle (pl_meta P) = em_idle (others_meta m0 P) + of_nat (count_phase phase_idle (pl_tasks P)) \<and>
     em_active (pl_meta P) = em_active (others_meta m0 P) + of_nat (count_phase phase_active (pl_tasks P))"

lemma pool_counts_simps [simp]:
  "count_phase f {#} = 0" "holders {#} = 0"
  "count_phase f (add_mset t ts) = f (task_phase t) + count_phase f ts"
  "holders (add_mset t ts) = (if ct_idle_permit t then 1 else 0) + holders ts"
  by (simp_all add: count_phase_def holders_def)

lemma loop_permits_simps [simp]:
  "loop_max WantMax = 0" "loop_max WantIdle = 1" "loop_max CreateArgs = 1" "loop_max LoopOver = 0"
  "loop_idle WantMax = 0" "loop_idle WantIdle = 0" "loop_idle CreateArgs = 1" "loop_idle LoopOver = 0"
  by (simp_all add: loop_max_def loop_idle_def)

text \<open>Taking a connection out of the pool, as an equation on what is left.\<close>

lemma take_task:
  assumes "t \<in># ts"
  obtains ts' where "ts = add_mset t ts'" "ts - {#t#} = ts'"
  using assms by (metis add_mset_remove_trivial insert_DiffM)

lemma new_task_ok:
  "task_ok (new_task (fst (run_connection cb ce cargs)))"
  "task_phase (new_task effs) = NotStarted" "ct_idle_permit (new_task effs)"
  using run_connection_phases [of cb ce cargs] by (auto simp: task_ok_def task_phase_def new_task_def)

lemma task_ok_effect:
  assumes "task_ok t" "ct_todo t = e # es"
  defines "t' \<equiv> t\<lparr>ct_done := ct_done t @ [e], ct_todo := es, ct_idle_permit := (e \<noteq> DropIdlePermit \<and> ct_idle_permit t)\<rparr>"
  shows "task_ok t'" and "phase_step e (task_phase t) = Some (task_phase t')"
    and "e = DropIdlePermit \<Longrightarrow> ct_idle_permit t"
proof -
  obtain p where p: "phase_step e (task_phase t) = Some p"
    and todo: "\<exists>q \<in> {HandshakeOver, PermitDropped, Closed}. run_phases es p = Some q"
    using assms(1,2) by (auto simp: task_ok_def split: option.splits)
  have d: "run_phases (ct_done t') NotStarted = Some p"
    using assms(1) p by (simp add: t'_def task_ok_def run_phases_append)
  then have p': "task_phase t' = p" by (simp add: task_phase_def)
  show "phase_step e (task_phase t) = Some (task_phase t')" by (simp add: p p')
  have permit: "ct_idle_permit t \<longleftrightarrow> task_phase t \<in> {NotStarted, Idling, HandshakeOver}"
    using assms(1) by (simp add: task_ok_def)
  have "e \<noteq> DropIdlePermit \<and> ct_idle_permit t \<longleftrightarrow> p \<in> {NotStarted, Idling, HandshakeOver}"
    using p unfolding permit by (cases "(e, task_phase t)" rule: phase_step.cases) auto
  with d p' todo show "task_ok t'" by (simp add: task_ok_def t'_def)
  show "ct_idle_permit t" if "e = DropIdlePermit"
    using p that unfolding permit by (cases "(e, task_phase t)" rule: phase_step.cases) auto
qed

lemma semaphore_lawsD:
  assumes "semaphore_laws ops permits"
  shows "permits (sem_new ops n) = n" and "permits (sem_release ops s) = Suc (permits s)"
    and "sem_acquire ops s = Some s' \<Longrightarrow> permits s = Suc (permits s')"
    and "sem_acquire ops s = None \<Longrightarrow> permits s = 0"
proof -
  have acq: "case sem_acquire ops s of None \<Rightarrow> permits s = 0 | Some s' \<Rightarrow> permits s = Suc (permits s')"
    using assms by (simp only: semaphore_laws_def)
  show "permits (sem_new ops n) = n" and "permits (sem_release ops s) = Suc (permits s)"
    using assms by (simp_all add: semaphore_laws_def)
  show "sem_acquire ops s = Some s' \<Longrightarrow> permits s = Suc (permits s')"
    and "sem_acquire ops s = None \<Longrightarrow> permits s = 0"
    using acq by auto
qed

lemma pool_inv_start:
  "semaphore_laws ops permits \<Longrightarrow> pool_inv permits args m0 (pool_start ops args m0)"
  by (simp add: pool_inv_def pool_start_def semaphore_lawsD)

lemma pool_inv_end_loop:
  assumes "semaphore_laws ops permits" "pool_inv permits args m0 P"
  shows "pool_inv permits args m0 (end_loop ops P)"
  using assms(2) semaphore_lawsD(2) [OF assms(1)]
  by (cases "pl_loop P") (simp_all add: pool_inv_def end_loop_def)

lemma pool_inv_effect:
  assumes laws: "semaphore_laws ops permits" and inv: "pool_inv permits args m0 P"
    and t: "t \<in># pl_tasks P" "ct_todo t = e # es"
  shows "pool_inv permits args m0 (task_effect ops t e es P)"
proof -
  let ?t' = "t\<lparr>ct_done := ct_done t @ [e], ct_todo := es, ct_idle_permit := (e \<noteq> DropIdlePermit \<and> ct_idle_permit t)\<rparr>"
  obtain ts where ts: "pl_tasks P = add_mset t ts" "pl_tasks P - {#t#} = ts"
    using t(1) by (rule take_task)
  have ok: "task_ok t" using inv t(1) by (simp add: pool_inv_def)
  note step = task_ok_effect [OF ok t(2)]
  note cnt = phase_step_counts [OF step(2), of "pl_meta P"]
  have idle: "em_idle (count_effect e (pl_meta P)) = em_idle (others_meta m0 P) + of_nat (count_phase phase_idle (add_mset ?t' ts))"
    using inv cnt by (simp add: pool_inv_def ts algebra_simps)
  have active: "em_active (count_effect e (pl_meta P)) = em_active (others_meta m0 P) + of_nat (count_phase phase_active (add_mset ?t' ts))"
    using inv cnt by (simp add: pool_inv_def ts algebra_simps)
  show ?thesis
    using inv step(1,3) idle active semaphore_lawsD(2) [OF laws]
    unfolding pool_inv_def task_effect_def ts by auto
qed

lemma pool_inv_end:
  assumes laws: "semaphore_laws ops permits" and inv: "pool_inv permits args m0 P"
    and t: "t \<in># pl_tasks P" "ct_todo t = []"
  shows "pool_inv permits args m0 (task_end ops t P)"
proof -
  obtain ts where ts: "pl_tasks P = add_mset t ts" "pl_tasks P - {#t#} = ts"
    using t(1) by (rule take_task)
  have "task_ok t" using inv t(1) by (simp add: pool_inv_def)
  then have "phase_idle (task_phase t) = 0" "phase_active (task_phase t) = 0"
    using t(2) by (auto simp: task_ok_def phase_idle_def phase_active_def)
  with inv semaphore_lawsD(2) [OF laws] show ?thesis
    by (auto simp: pool_inv_def task_end_def ts)
qed

lemma pool_inv_step:
  assumes "semaphore_laws ops permits" "pool_inv permits args m0 P" "pool_step ops cb valid_name args addrs P P'"
  shows "pool_inv permits args m0 P'"
  using assms(3)
proof (cases rule: pool_step.cases)
  case (acquire_max s)
  with assms(2) semaphore_lawsD(3) [OF assms(1) acquire_max(3)] show ?thesis by (simp add: pool_inv_def)
next
  case (acquire_idle s)
  with assms(2) semaphore_lawsD(3) [OF assms(1) acquire_idle(3)] show ?thesis by (simp add: pool_inv_def)
next
  case (spawn rng info cargs ce)
  with assms(2) show ?thesis by (auto simp: pool_inv_def new_task_ok phase_idle_def phase_active_def)
next
  case (others e)
  have "em_idle (count_effect e (pl_meta P)) = em_idle (count_effect e (others_meta m0 P)) + of_nat (count_phase phase_idle (pl_tasks P))"
    "em_active (count_effect e (pl_meta P)) = em_active (count_effect e (others_meta m0 P)) + of_nat (count_phase phase_active (pl_tasks P))"
    by (rule count_effect_shift, use assms(2) in \<open>simp add: pool_inv_def\<close>)+
  with assms(2) others show ?thesis by (simp add: pool_inv_def)
qed (use assms in \<open>simp_all add: pool_inv_end_loop pool_inv_effect pool_inv_end\<close>)

interpretation pool_steps: step_invariant "pool_step ops cb valid_name args addrs"
    "\<lambda>P. semaphore_laws ops permits \<and> pool_inv permits args m0 P" for ops cb valid_name args addrs permits m0
  by unfold_locales (blast intro: pool_inv_step)

lemma pool_inv_reach:
  assumes "semaphore_laws ops permits" "pool_reach ops cb valid_name args addrs (pool_start ops args m0) P"
  shows "pool_inv permits args m0 P"
  using pool_steps.inv_reached [OF assms(2) [unfolded pool_reach_def]] assms(1) pool_inv_start by blast

lemma count_phase_idle_le_holders:
  "\<forall>t \<in># ts. task_ok t \<Longrightarrow> count_phase phase_idle ts \<le> holders ts"
  by (induction ts) (auto simp: task_ok_def phase_idle_def)

section \<open>Refilling\<close>

text \<open>The loop can go on by itself until it has added a connection.\<close>

definition refills ::
    "'s semaphore \<Rightarrow> cbor \<Rightarrow> (string \<Rightarrow> bool) \<Rightarrow> endpoint_args \<Rightarrow> socket_addr list \<Rightarrow> conn_task \<Rightarrow> 's pool \<Rightarrow> bool" where
  "refills ops cb valid_name args addrs t P \<longleftrightarrow>
     (\<exists>P'. pool_reach ops cb valid_name args addrs P P' \<and> pl_loop P' = WantMax \<and>
        pl_tasks P' = add_mset t (pl_tasks P))"

lemma refills_step:
  assumes "pool_step ops cb valid_name args addrs P Q" "pl_tasks Q = pl_tasks P"
    and "refills ops cb valid_name args addrs t Q"
  shows "refills ops cb valid_name args addrs t P"
  using assms unfolding refills_def pool_reach_def by (metis converse_rtranclp_into_rtranclp)

lemma refills_create:
  assumes "pl_loop P = CreateArgs" "create_args rng valid_name (info :: unit shared_info) args addrs = Ok cargs"
  shows "refills ops cb valid_name args addrs (new_task (fst (run_connection cb ce cargs))) P"
  using spawn [OF assms, of ops cb ce] unfolding refills_def pool_reach_def
  by (intro exI conjI, rule r_into_rtranclp) simp_all

lemma refills_idle:
  assumes "semaphore_laws ops permits" "pl_loop P = WantIdle" "permits (pl_idlesem P) \<noteq> 0"
    and "create_args rng valid_name (info :: unit shared_info) args addrs = Ok cargs"
  shows "refills ops cb valid_name args addrs (new_task (fst (run_connection cb ce cargs))) P"
proof -
  obtain s where "sem_acquire ops (pl_idlesem P) = Some s"
    using semaphore_lawsD(4) [OF assms(1)] assms(3) by fastforce
  from acquire_idle [OF assms(2) this] show ?thesis
    by (rule refills_step) (simp_all add: refills_create [OF _ assms(4)])
qed

lemma refills_max:
  assumes "semaphore_laws ops permits" "pl_loop P = WantMax" "permits (pl_maxsem P) \<noteq> 0"
    and "permits (pl_idlesem P) \<noteq> 0"
    and "create_args rng valid_name (info :: unit shared_info) args addrs = Ok cargs"
  shows "refills ops cb valid_name args addrs (new_task (fst (run_connection cb ce cargs))) P"
proof -
  obtain s where "sem_acquire ops (pl_maxsem P) = Some s"
    using semaphore_lawsD(4) [OF assms(1)] assms(3) by fastforce
  from acquire_max [OF assms(2) this] show ?thesis
    by (rule refills_step) (simp_all add: refills_idle [OF assms(1) _ _ assms(5)] assms(4))
qed

section \<open>Properties\<close>

text \<open>C3. The limits of an endpoint hold in every interleaving: however the loop and the connections run,
  there are never more connections than \<open>maxconns\<close> nor more idle ones than \<open>idleconns\<close>; and the counters
  that the status shows have gone up by exactly the number of connections that are idle and active now,
  on top of what the connections of earlier groups of the endpoint did to them, so they do not drift
  and are back where they were when the last connection is over.\<close>

theorem pool_limits:
  assumes "semaphore_laws ops permits"
    and "pool_reach ops cb valid_name args addrs (pool_start ops args m0) P"
  shows "size (pl_tasks P) \<le> unat (ea_maxconns args) \<and>
    count_phase phase_idle (pl_tasks P) \<le> unat (ea_idleconns args) \<and>
    em_idle (pl_meta P) = em_idle (fold count_effect (pl_others P) m0) + of_nat (count_phase phase_idle (pl_tasks P)) \<and>
    em_active (pl_meta P) = em_active (fold count_effect (pl_others P) m0) + of_nat (count_phase phase_active (pl_tasks P))"
proof -
  note inv = pool_inv_reach [OF assms]
  have "count_phase phase_idle (pl_tasks P) \<le> holders (pl_tasks P)"
    by (rule count_phase_idle_le_holders) (use inv in \<open>simp add: pool_inv_def\<close>)
  with inv show ?thesis by (simp add: pool_inv_def)
qed

text \<open>C23. The pool refills: while the loop runs and there are fewer connections than \<open>maxconns\<close>, counting
  the one the loop may be about to start, and fewer holders of an idle permit than \<open>idleconns\<close>, the loop
  can go on without waiting for any connection until it has spawned one more.\<close>

theorem pool_refills:
  assumes "semaphore_laws ops permits"
    and "pool_reach ops cb valid_name args addrs (pool_start ops args m0) P"
    and "pl_loop P \<noteq> LoopOver"
    and "size (pl_tasks P) < unat (ea_maxconns args)" and "holders (pl_tasks P) < unat (ea_idleconns args)"
    and "create_args rng valid_name (info :: unit shared_info) args addrs = Ok cargs"
  shows "\<exists>P'. pool_reach ops cb valid_name args addrs P P' \<and> pl_loop P' = WantMax \<and>
    pl_tasks P' = add_mset (new_task (fst (run_connection cb ce cargs))) (pl_tasks P)"
proof -
  note inv = pool_inv_reach [OF assms(1,2)]
  have idle: "pl_loop P \<noteq> CreateArgs \<Longrightarrow> permits (pl_idlesem P) \<noteq> 0"
    and max: "pl_loop P = WantMax \<Longrightarrow> permits (pl_maxsem P) \<noteq> 0"
    using inv assms(4,5) by (auto simp: pool_inv_def loop_idle_def)
  have "refills ops cb valid_name args addrs (new_task (fst (run_connection cb ce cargs))) P"
    using refills_create [OF _ assms(6)] refills_idle [OF assms(1) _ _ assms(6)]
      refills_max [OF assms(1) _ _ _ assms(6)] idle max assms(3)
    by (cases "pl_loop P") auto
  then show ?thesis by (simp add: refills_def)
qed

text \<open>The semaphore of the witnesses counts its permits.\<close>

definition counting :: "nat semaphore" where
  "counting = \<lparr>sem_new = id, sem_acquire = (\<lambda>n. if n = 0 then None else Some (n - 1)), sem_release = Suc\<rparr>"

lemma counting_laws: "semaphore_laws counting id"
  by (simp add: semaphore_laws_def counting_def)

definition demo_ep_args :: endpoint_args where
  "demo_ep_args = \<lparr>ea_ctype = Tls, ea_idleconns = 1, ea_maxconns = 2, ea_endpoint = ''example.com'', ea_port = 80,
     ea_healthcheck = None\<rparr>"

definition demo_pool :: "nat pool" where
  "demo_pool = pool_start counting demo_ep_args (endpoint_meta_new None)"

lemma demo_create_args:
  "\<exists>cargs. create_args (\<lambda>_. 0) (\<lambda>_. True) (demo_info LookupTimedOut) demo_ep_args [] = Ok cargs"
  by (simp add: create_args_def ebbflow_addr_def ebbflow_dns_def demo_info_def dns_ips_def slice_choose_def
      fallback_ips_def)

lemma run_connection_starts: "\<exists>es. fst (run_connection cb ce cargs) = AddIdle # es"
  by (simp add: run_connection_def Let_def split: prod.splits step.splits sum.splits)

text \<open>In the witness the pool has started a connection, which is counted as idle, while a connection of an
  earlier group is active.\<close>

definition demo_running_pool :: "effect list \<Rightarrow> nat pool" where
  "demo_running_pool es = \<lparr>pl_loop = WantMax, pl_idlesem = 0, pl_maxsem = 1,
     pl_meta = add_active (add_idle (endpoint_meta_new None)),
     pl_tasks = {#\<lparr>ct_done = [AddIdle], ct_todo = es, ct_idle_permit = True\<rparr>#}, pl_others = [AddActive]\<rparr>"

lemma demo_running_pool_reach:
  "\<exists>es. pool_reach counting demo_cbor (\<lambda>_. True) demo_ep_args [] demo_pool (demo_running_pool es)"
proof -
  obtain cargs where ok: "create_args (\<lambda>_. 0) (\<lambda>_. True) (demo_info LookupTimedOut) demo_ep_args [] = Ok cargs"
    using demo_create_args by blast
  obtain es where es: "fst (run_connection demo_cbor demo_conn cargs) = AddIdle # es"
    using run_connection_starts by blast
  let ?step = "pool_step counting demo_cbor (\<lambda>_. True) demo_ep_args []"
  let ?P1 = "demo_pool\<lparr>pl_loop := WantIdle, pl_maxsem := 1\<rparr>"
  let ?P2 = "?P1\<lparr>pl_loop := CreateArgs, pl_idlesem := 0\<rparr>"
  let ?P3 = "?P2\<lparr>pl_loop := WantMax, pl_tasks := add_mset (new_task (AddIdle # es)) (pl_tasks ?P2)\<rparr>"
  let ?P4 = "task_effect counting (new_task (AddIdle # es)) AddIdle es ?P3"
  have demo: "pl_loop demo_pool = WantMax" "pl_maxsem demo_pool = 2" "pl_idlesem demo_pool = 1"
    "pl_tasks demo_pool = {#}" "pl_meta demo_pool = endpoint_meta_new None" "pl_others demo_pool = []"
    by (simp_all add: demo_pool_def pool_start_def counting_def demo_ep_args_def)
  have "?step demo_pool ?P1" by (rule acquire_max) (simp_all add: demo counting_def)
  moreover have "?step ?P1 ?P2" by (rule acquire_idle) (simp_all add: demo counting_def)
  moreover have "?step ?P2 ?P3" using spawn [OF _ ok, of ?P2 counting demo_cbor demo_conn] by (simp add: es)
  moreover have "?step ?P3 ?P4" by (rule effect) (simp_all add: new_task_def)
  moreover have "demo_running_pool es = ?P4\<lparr>pl_meta := count_effect AddActive (pl_meta ?P4), pl_others := pl_others ?P4 @ [AddActive]\<rparr>"
    by (simp add: task_effect_def new_task_def demo demo_running_pool_def)
  then have "?step ?P4 (demo_running_pool es)" by (simp only: others)
  ultimately show ?thesis unfolding pool_reach_def
    by (intro exI [of _ es] converse_rtranclp_into_rtranclp [of ?step demo_pool ?P1]
        converse_rtranclp_into_rtranclp [of ?step ?P1 ?P2] converse_rtranclp_into_rtranclp [of ?step ?P2 ?P3]
        converse_rtranclp_into_rtranclp [of ?step ?P3 ?P4] r_into_rtranclp)
qed

theorem pool_limits_witness:
  "\<exists>es. size (pl_tasks (demo_running_pool es)) \<le> 2 \<and> em_idle (pl_meta (demo_running_pool es)) = 1 \<and>
     em_active (pl_meta (demo_running_pool es)) = 1"
proof -
  obtain es where "pool_reach counting demo_cbor (\<lambda>_. True) demo_ep_args [] demo_pool (demo_running_pool es)"
    using demo_running_pool_reach by blast
  from pool_limits [OF counting_laws this [unfolded demo_pool_def]] show ?thesis
    by (intro exI [of _ es]) (simp add: demo_running_pool_def demo_ep_args_def task_phase_def phase_idle_def
        phase_active_def add_active_def endpoint_meta_new_def)
qed

theorem pool_refills_witness:
  "\<exists>P' cargs. pool_reach counting demo_cbor (\<lambda>_. True) demo_ep_args []
       (pool_start counting demo_ep_args (endpoint_meta_new None)) P' \<and>
     pl_tasks P' = {#new_task (fst (run_connection demo_cbor demo_conn cargs))#}"
proof -
  obtain cargs where "create_args (\<lambda>_. 0) (\<lambda>_. True) (demo_info LookupTimedOut) demo_ep_args [] = Ok cargs"
    using demo_create_args by blast
  from pool_refills [OF counting_laws _ _ _ _ this, of demo_cbor "endpoint_meta_new None"
      "pool_start counting demo_ep_args (endpoint_meta_new None)" demo_conn]
  show ?thesis by (auto simp: pool_reach_def pool_start_def demo_ep_args_def)
qed

end
