(* ===== verification/Runner.thy ===== *)
theory Runner
  imports Endpoint "HOL-Library.Multiset"
begin

text \<open>
  The daemon of \<open>src/src/lib.rs\<close>: \<open>InnerDaemonRunner\<close> with \<open>update_config\<close>, \<open>status\<close> and
  \<open>submit_error_message\<close>, and the reload loop of \<open>run_daemon\<close>. The mutex of \<open>DaemonRunner\<close> runs one
  operation at a time, so an operation is a function on the daemon's state. The state extends the
  world of theory \<open>Endpoint\<close>; the key of \<open>SharedInfo\<close> is one of its fields.

  The main invariant, \<open>runner_inv\<close>, says that the running tasks are exactly those that the daemon's
  enabled entries hold, each held once.
\<close>

section \<open>State\<close>

datatype daemon_status_meta = Uninitialized | Good

datatype daemon_endpoint_status =
    StatusDisabled
  | StatusEnabled usize usize "health_overall option"

record daemon_status =
  ds_meta :: daemon_status_meta
  ds_endpoints :: "(string \<times> daemon_endpoint_status) list"
  ds_ssh :: "(string \<times> daemon_endpoint_status) option"
  ds_messages :: "(string \<times> string) list"

datatype enabled_disabled = Enabled nat | Disabled

record endpoint_instance =
  ei_enabledisable :: enabled_disabled
  ei_existing_config :: endpoint

record ssh_configuration =
  sc_port :: u16
  sc_max :: usize
  sc_hostname :: string
  sc_enabled :: bool
  sc_maxidle :: usize

record ssh_instance =
  si_existing_config :: ssh_configuration
  si_enabledisable :: enabled_disabled

record daemon = world +
  d_endpoints :: "(string \<times> endpoint_instance) list"
  d_statusmeta :: daemon_status_meta
  d_ssh :: "ssh_instance option"
  d_key :: "string option"

definition daemon_new :: daemon where
  "daemon_new = \<lparr>wd_queue = mq_new, wd_clock = 0, wd_tasks = [], d_endpoints = [],
     d_statusmeta = Uninitialized, d_ssh = None, d_key = None\<rparr>"

section \<open>Operations\<close>

definition MAX_MAX_IDLE :: nat where "MAX_MAX_IDLE = 1000"

definition endpoint_status :: "daemon \<Rightarrow> enabled_disabled \<Rightarrow> daemon_endpoint_status" where
  "endpoint_status d ed = (case ed of
     Disabled \<Rightarrow> StatusDisabled
   | Enabled i \<Rightarrow> (let meta = tk_meta (wd_tasks d ! i) in
        StatusEnabled (num_active meta) (num_idle meta) (Some (meta_health meta))))"

text \<open>\<open>EnabledDisabled::stop\<close>: the value itself becomes \<open>Disabled\<close>.\<close>

fun ed_stop :: "enabled_disabled \<Rightarrow> daemon \<Rightarrow> daemon" where
  "ed_stop (Enabled i) d = stop_task i d"
| "ed_stop Disabled d = d"

definition submit_error_message :: "env \<Rightarrow> string \<Rightarrow> daemon \<Rightarrow> daemon" where
  "submit_error_message env m d = log_message env m d"

definition spawn_endpointasdfsfa :: "env \<Rightarrow> endpoint \<Rightarrow> daemon \<Rightarrow> halt + (nat \<times> daemon)" where
  "spawn_endpointasdfsfa env e d =
     (let idle = min (ep_maxidle e) (of_nat MAX_MAX_IDLE);
          args = \<lparr>ea_ctype = Tls, ea_idleconns = ucast idle, ea_maxconns = ucast (ep_maxconns e),
                  ea_endpoint = ep_dns e, ea_port = ep_port e, ea_healthcheck = ep_healthcheck e\<rparr>
      in spawn_endpoint env args d)"

definition hostname_or_die :: "env \<Rightarrow> halt + string" where
  "hostname_or_die env = (case env_hostname env of
     Hostname s \<Rightarrow> Ok s | HostnameNotUnicode _ \<Rightarrow> Err ProcessExit | HostnameError _ \<Rightarrow> Err ProcessExit)"

text \<open>The \<open>retain\<close> of the endpoints: an entry that is no longer configured is stopped and removed.\<close>

fun retain_endpoints ::
    "string set \<Rightarrow> (string \<times> endpoint_instance) list \<Rightarrow> daemon
       \<Rightarrow> (string \<times> endpoint_instance) list \<times> daemon" where
  "retain_endpoints S [] d = ([], d)"
| "retain_endpoints S ((existing_dns, existing_instance) # rest) d =
     (if existing_dns \<in> S
      then let (kept, d') = retain_endpoints S rest d in ((existing_dns, existing_instance) # kept, d')
      else retain_endpoints S rest (ed_stop (ei_enabledisable existing_instance) d))"

text \<open>The new state of an entry: a new task when the configuration is enabled.\<close>

definition start_endpoint :: "env \<Rightarrow> endpoint \<Rightarrow> daemon \<Rightarrow> halt + (enabled_disabled \<times> daemon)" where
  "start_endpoint env e d =
     (if ep_enabled e
      then and_then (spawn_endpointasdfsfa env e d) (\<lambda>(i, d'). Ok (Enabled i, d'))
      else Ok (Disabled, d))"

definition insert_endpoint :: "endpoint \<Rightarrow> enabled_disabled \<Rightarrow> daemon \<Rightarrow> daemon" where
  "insert_endpoint e ed d =
     d\<lparr>d_endpoints := entry_insert (ep_dns e)
         \<lparr>ei_enabledisable = ed, ei_existing_config = e\<rparr> (d_endpoints d)\<rparr>"

definition apply_endpoint :: "env \<Rightarrow> endpoint \<Rightarrow> daemon \<Rightarrow> halt + daemon" where
  "apply_endpoint env e d = (case map_of (d_endpoints d) (ep_dns e) of
     Some current_instance \<Rightarrow>
       if ei_existing_config current_instance = e then Ok d
       else and_then (start_endpoint env e (ed_stop (ei_enabledisable current_instance) d)) (\<lambda>(ed, d').
              Ok (insert_endpoint e ed d'))
   | None \<Rightarrow> and_then (start_endpoint env e d) (\<lambda>(ed, d'). Ok (insert_endpoint e ed d')))"

fun apply_endpoints :: "env \<Rightarrow> endpoint list \<Rightarrow> daemon \<Rightarrow> halt + daemon" where
  "apply_endpoints env [] d = Ok d"
| "apply_endpoints env (e # es) d =
     and_then (apply_endpoint env e d) (\<lambda>d'. apply_endpoints env es d')"

definition ssh_configuration_of :: "env \<Rightarrow> ssh \<Rightarrow> halt + ssh_configuration" where
  "ssh_configuration_of env newcfg =
     and_then (case ssh_hostname_override newcfg of
         Some hn \<Rightarrow> Ok hn | None \<Rightarrow> hostname_or_die env) (\<lambda>hn.
       Ok \<lparr>sc_port = ssh_port newcfg, sc_max = ucast (ssh_maxconns newcfg), sc_hostname = hn,
           sc_enabled = ssh_enabled newcfg, sc_maxidle = ucast (ssh_maxidle newcfg)\<rparr>)"

definition stop_ssh :: "daemon \<Rightarrow> daemon" where
  "stop_ssh d = (case d_ssh d of None \<Rightarrow> d | Some inst \<Rightarrow> ed_stop (si_enabledisable inst) d)"

definition start_ssh :: "env \<Rightarrow> ssh_configuration \<Rightarrow> daemon \<Rightarrow> halt + (enabled_disabled \<times> daemon)" where
  "start_ssh env newconfig d =
     (if sc_enabled newconfig
      then and_then (spawn_endpoint env
             \<lparr>ea_ctype = Ssh, ea_idleconns = sc_maxidle newconfig, ea_maxconns = sc_max newconfig,
              ea_endpoint = sc_hostname newconfig, ea_port = sc_port newconfig, ea_healthcheck = None\<rparr> d)
             (\<lambda>(i, d'). Ok (Enabled i, d'))
      else Ok (Disabled, d))"

definition apply_ssh :: "env \<Rightarrow> ssh option \<Rightarrow> daemon \<Rightarrow> halt + daemon" where
  "apply_ssh env cfg d = (case cfg of
     Some newcfg \<Rightarrow>
       and_then (ssh_configuration_of env newcfg) (\<lambda>newconfig.
         if d_ssh d = None \<or> newconfig \<noteq> si_existing_config (the (d_ssh d)) then
           and_then (start_ssh env newconfig (stop_ssh d)) (\<lambda>(ed, d').
             Ok (d'\<lparr>d_ssh := Some \<lparr>si_existing_config = newconfig, si_enabledisable = ed\<rparr>\<rparr>))
         else Ok d)
   | None \<Rightarrow> (case d_ssh d of
       Some oldcfg \<Rightarrow> Ok ((ed_stop (si_enabledisable oldcfg) d)\<lparr>d_ssh := None\<rparr>)
     | None \<Rightarrow> Ok d))"

definition update_config ::
    "env \<Rightarrow> daemon_config option \<Rightarrow> string option \<Rightarrow> daemon \<Rightarrow> halt + daemon" where
  "update_config env config key d =
     (let d1 = (case key of Some k \<Rightarrow> d\<lparr>d_key := Some k\<rparr> | None \<Rightarrow> d) in
      if d_key d1 = None then
        Ok (submit_error_message env
             (''INFO: Key not set, doing nothing (cfg present '' @ show_bool (config \<noteq> None) @ '')'')
             (d1\<lparr>d_statusmeta := Uninitialized\<rparr>))
      else
        (let d2 = d1\<lparr>d_statusmeta := Good\<rparr> in
         case config of
           None \<Rightarrow> Ok d2
         | Some c \<Rightarrow>
             (let S = set (map ep_dns (cfg_endpoints c));
                  (kept, d3) = retain_endpoints S (d_endpoints d2) d2
              in and_then (apply_endpoints env (cfg_endpoints c) (d3\<lparr>d_endpoints := kept\<rparr>))
                   (\<lambda>d4. apply_ssh env (cfg_ssh c) d4))))"

definition runner_status :: "daemon \<Rightarrow> daemon_status" where
  "runner_status d =
     \<lparr>ds_meta = d_statusmeta d,
      ds_endpoints = map (\<lambda>(s, e). (s, endpoint_status d (ei_enabledisable e))) (d_endpoints d),
      ds_ssh = (case d_ssh d of
         Some sshinstance \<Rightarrow> Some (sc_hostname (si_existing_config sshinstance),
           endpoint_status d (si_enabledisable sshinstance))
       | None \<Rightarrow> None),
      ds_messages = get_messages (wd_queue d)\<rparr>"

text \<open>The loop of \<open>run_daemon\<close> over the results of the reload function, one per notification; \<open>dbg\<close>
  is the debug form of an error.\<close>

definition reload_step ::
    "env \<Rightarrow> (config_error \<Rightarrow> string) \<Rightarrow> config_error + (daemon_config option \<times> string option) \<Rightarrow>
     daemon \<Rightarrow> halt + daemon" where
  "reload_step env dbg r d = (case r of
     Inr (newconfig, newkey) \<Rightarrow> update_config env newconfig newkey d
   | Inl e \<Rightarrow> Ok (submit_error_message env (''Error reading new configuration '' @ dbg e) d))"

fun run_daemon ::
    "env \<Rightarrow> (config_error \<Rightarrow> string) \<Rightarrow> (config_error + (daemon_config option \<times> string option)) list \<Rightarrow>
     daemon \<Rightarrow> halt + daemon" where
  "run_daemon env dbg [] d = Ok d"
| "run_daemon env dbg (r # rs) d = and_then (reload_step env dbg r d) (\<lambda>d'. run_daemon env dbg rs d')"

section \<open>The ownership invariant\<close>

fun ed_ids :: "enabled_disabled \<Rightarrow> nat list" where
  "ed_ids (Enabled i) = [i]"
| "ed_ids Disabled = []"

definition entry_ids :: "(string \<times> endpoint_instance) list \<Rightarrow> nat list" where
  "entry_ids es = concat (map (\<lambda>(_, inst). ed_ids (ei_enabledisable inst)) es)"

definition ssh_ids :: "ssh_instance option \<Rightarrow> nat list" where
  "ssh_ids s = (case s of None \<Rightarrow> [] | Some inst \<Rightarrow> ed_ids (si_enabledisable inst))"

definition held_ids :: "daemon \<Rightarrow> nat list" where
  "held_ids d = entry_ids (d_endpoints d) @ ssh_ids (d_ssh d)"

definition live :: "task list \<Rightarrow> nat set" where
  "live ts = {i. i < length ts \<and> em_stopper (tk_meta (ts ! i)) = []}"

definition is_enabled :: "enabled_disabled \<Rightarrow> bool" where
  "is_enabled ed \<longleftrightarrow> ed \<noteq> Disabled"

definition entries_match :: "(string \<times> endpoint_instance) list \<Rightarrow> bool" where
  "entries_match es \<longleftrightarrow>
     distinct (map fst es) \<and>
     (\<forall>(dns, inst) \<in> set es. dns = ep_dns (ei_existing_config inst) \<and>
        is_enabled (ei_enabledisable inst) = ep_enabled (ei_existing_config inst))"

definition ssh_match :: "ssh_instance option \<Rightarrow> bool" where
  "ssh_match s \<longleftrightarrow> (\<forall>inst. s = Some inst \<longrightarrow>
     is_enabled (si_enabledisable inst) = sc_enabled (si_existing_config inst))"

definition runner_inv :: "daemon \<Rightarrow> bool" where
  "runner_inv d \<longleftrightarrow>
     distinct (held_ids d) \<and> set (held_ids d) = live (wd_tasks d) \<and>
     entries_match (d_endpoints d) \<and> ssh_match (d_ssh d)"

section \<open>Frames\<close>

text \<open>Operations on the world leave the daemon's own fields alone.\<close>

lemma daemon_more_eq:
  fixes d d' :: daemon
  assumes "world.more d' = world.more d"
  shows "d_endpoints d' = d_endpoints d" "d_ssh d' = d_ssh d" "d_key d' = d_key d"
    "d_statusmeta d' = d_statusmeta d"
  using assms by (cases d; cases d'; simp)+

lemma log_message_daemon [simp]:
  fixes d :: daemon
  shows "d_endpoints (log_message env m d) = d_endpoints d" "d_ssh (log_message env m d) = d_ssh d"
    "d_key (log_message env m d) = d_key d" "d_statusmeta (log_message env m d) = d_statusmeta d"
  by (rule daemon_more_eq; simp)+

lemma ed_stop_more [simp]: "world.more (ed_stop ed d) = world.more d"
  by (cases ed) simp_all

lemma ed_stop_daemon [simp]:
  "d_endpoints (ed_stop ed d) = d_endpoints d" "d_ssh (ed_stop ed d) = d_ssh d"
  "d_key (ed_stop ed d) = d_key d" "d_statusmeta (ed_stop ed d) = d_statusmeta d"
  by (rule daemon_more_eq; simp)+

lemma insert_endpoint_simps [simp]:
  "wd_tasks (insert_endpoint e ed d) = wd_tasks d" "d_ssh (insert_endpoint e ed d) = d_ssh d"
  "d_key (insert_endpoint e ed d) = d_key d" "d_statusmeta (insert_endpoint e ed d) = d_statusmeta d"
  "d_endpoints (insert_endpoint e ed d) =
     entry_insert (ep_dns e) \<lparr>ei_enabledisable = ed, ei_existing_config = e\<rparr> (d_endpoints d)"
  by (simp_all add: insert_endpoint_def)

section \<open>Ownership\<close>

lemma finite_live [simp]: "finite (live ts)"
  by (simp add: live_def)

lemma live_ed_stop: "live (wd_tasks (ed_stop ed d)) = live (wd_tasks d) - set (ed_ids ed)"
  by (cases ed) (auto simp: live_def nth_stop_task meta_stop_def split: if_splits)

lemma live_snoc:
  "live (ts @ [t]) = (if em_stopper (tk_meta t) = [] then insert (length ts) (live ts) else live ts)"
  by (auto simp: live_def nth_append less_Suc_eq)

definition owned :: "nat list \<Rightarrow> task list \<Rightarrow> bool" where
  "owned ids ts \<longleftrightarrow> mset ids = mset_set (live ts)"

lemma owned_iff: "owned ids ts \<longleftrightarrow> distinct ids \<and> set ids = live ts"
  unfolding owned_def
  by (metis finite_live finite_set_mset_mset_set mset_set_set set_mset_mset distinct_count_atmost_1
      count_mset_set(1,3))

lemma owned_stop:
  assumes "owned ids (wd_tasks d)" and "mset ids = mset ids' + mset (ed_ids ed)"
  shows "owned ids' (wd_tasks (ed_stop ed d))"
proof (cases ed)
  case (Enabled i)
  with assms have m: "mset_set (live (wd_tasks d)) = add_mset i (mset ids')" by (simp add: owned_def)
  then have "i \<in># mset_set (live (wd_tasks d))" by simp
  then have "i \<in> live (wd_tasks d)" by simp
  with m show ?thesis
    unfolding owned_def live_ed_stop Enabled by (simp add: mset_set_Diff)
next
  case Disabled
  with assms show ?thesis by (simp add: owned_def)
qed

text \<open>What \<open>start_endpoint\<close> and \<open>start_ssh\<close> share: the tasks grow at the end, the new ones are held by
  the result.\<close>

definition started :: "bool \<Rightarrow> daemon \<Rightarrow> enabled_disabled \<Rightarrow> daemon \<Rightarrow> bool" where
  "started en d ed d' \<longleftrightarrow>
     is_enabled ed = en \<and> world.more d' = world.more d \<and>
     (\<exists>ts. wd_tasks d' = wd_tasks d @ ts \<and>
        (\<forall>ids. owned ids (wd_tasks d) \<longrightarrow> owned (ids @ ed_ids ed) (wd_tasks d')) \<and>
        length ts = length (ed_ids ed))"

lemma started_spawn:
  assumes "spawn_endpoint env args d = Inr (i, d')"
  shows "started True d (Enabled i) d'"
proof -
  from spawn_endpoint_Inr [OF assms] obtain t where
    t: "i = length (wd_tasks d)" "wd_tasks d' = wd_tasks d @ [t]" "world.more d' = world.more d"
      "em_stopper (tk_meta t) = []"
    by blast
  have "i \<notin> live (wd_tasks d)" by (simp add: t(1) live_def)
  with t have "owned ids (wd_tasks d) \<Longrightarrow> owned (ids @ [i]) (wd_tasks d')" for ids
    by (simp add: owned_def live_snoc)
  with t show ?thesis by (simp add: started_def is_enabled_def)
qed

lemma started_endpoint: "start_endpoint env e d = Inr (ed, d') \<Longrightarrow> started (ep_enabled e) d ed d'"
  by (auto simp: start_endpoint_def spawn_endpointasdfsfa_def Let_def and_then_Inr_iff
      split: if_splits dest: started_spawn) (simp add: started_def is_enabled_def)

lemma started_ssh: "start_ssh env c d = Inr (ed, d') \<Longrightarrow> started (sc_enabled c) d ed d'"
  by (auto simp: start_ssh_def and_then_Inr_iff split: if_splits dest: started_spawn)
    (simp add: started_def is_enabled_def)

lemma started_daemon:
  assumes "started en d ed d'"
  shows "d_endpoints d' = d_endpoints d" "d_ssh d' = d_ssh d" "d_key d' = d_key d"
    "d_statusmeta d' = d_statusmeta d" "is_enabled ed = en"
    "owned ids (wd_tasks d) \<Longrightarrow> owned (ids @ ed_ids ed) (wd_tasks d')"
  using assms daemon_more_eq [of d' d] by (auto simp: started_def)

lemma entry_ids_insert_None:
  "map_of es k = None \<Longrightarrow>
     mset (entry_ids (entry_insert k v es)) = mset (entry_ids es) + mset (ed_ids (ei_enabledisable v))"
  by (induction k v es rule: entry_insert.induct) (auto simp: entry_ids_def split: if_splits)

lemma entry_ids_insert_Some:
  "map_of es k = Some old \<Longrightarrow>
     mset (entry_ids (entry_insert k v es)) + mset (ed_ids (ei_enabledisable old))
       = mset (entry_ids es) + mset (ed_ids (ei_enabledisable v))"
  by (induction k v es rule: entry_insert.induct) (auto simp: entry_ids_def split: if_splits)

lemma entry_ids_insert_Disabled:
  "mset (entry_ids (entry_insert k v es)) =
     mset (entry_ids (entry_insert k (v\<lparr>ei_enabledisable := Disabled\<rparr>) es))
     + mset (ed_ids (ei_enabledisable v))"
  by (induction es) (auto simp: entry_ids_def)

lemma entries_match_insert:
  assumes "entries_match es" and "is_enabled ed = ep_enabled e"
  shows "entries_match (entry_insert (ep_dns e) \<lparr>ei_enabledisable = ed, ei_existing_config = e\<rparr> es)"
  using assms set_entry_insert [of "ep_dns e" "\<lparr>ei_enabledisable = ed, ei_existing_config = e\<rparr>" es]
  by (fastforce simp: entries_match_def)

section \<open>The invariant is kept\<close>

lemma runner_inv_owned:
  "runner_inv d \<longleftrightarrow> owned (held_ids d) (wd_tasks d) \<and> entries_match (d_endpoints d) \<and> ssh_match (d_ssh d)"
  by (auto simp: runner_inv_def owned_iff)

lemma owned_cong: "mset ids = mset ids' \<Longrightarrow> owned ids ts = owned ids' ts"
  by (simp add: owned_def)

lemma runner_inv_new: "runner_inv daemon_new"
  by (simp add: runner_inv_def daemon_new_def held_ids_def entry_ids_def ssh_ids_def live_def
      entries_match_def ssh_match_def)

text \<open>Replacing or adding one entry, after its old task was stopped.\<close>

lemma runner_inv_insert:
  assumes inv: "runner_inv d"
    and old: "d0 = (case map_of (d_endpoints d) (ep_dns e) of
                Some inst \<Rightarrow> ed_stop (ei_enabledisable inst) d | None \<Rightarrow> d)"
    and st: "started (ep_enabled e) d0 ed d'"
  shows "runner_inv (insert_endpoint e ed d')"
proof -
  let ?v = "\<lparr>ei_enabledisable = ed, ei_existing_config = e\<rparr>"
  let ?es = "d_endpoints d" and ?k = "ep_dns e"
  have fr: "d_endpoints d0 = ?es" "d_ssh d0 = d_ssh d" using old by (auto split: option.splits)
  note d' = started_daemon [OF st]
  have own: "owned (held_ids d) (wd_tasks d)" and em: "entries_match ?es" and sm: "ssh_match (d_ssh d)"
    using inv by (auto simp: runner_inv_owned)
  have "owned (held_ids (insert_endpoint e ed d')) (wd_tasks d')"
  proof (cases "map_of ?es ?k")
    case None
    then have "owned (held_ids d @ ed_ids ed) (wd_tasks d')" using own old d'(6) by simp
    with None fr d' show ?thesis
      by (subst owned_cong [where ids' = "held_ids d @ ed_ids ed"])
        (simp_all add: held_ids_def entry_ids_insert_None)
  next
    case (Some inst)
    let ?ids = "entry_ids (entry_insert ?k \<lparr>ei_enabledisable = Disabled, ei_existing_config = e\<rparr> ?es)
      @ ssh_ids (d_ssh d)"
    have eq: "mset (entry_ids (entry_insert ?k ?v ?es)) =
        mset (entry_ids (entry_insert ?k \<lparr>ei_enabledisable = Disabled, ei_existing_config = e\<rparr> ?es))
        + mset (ed_ids ed)"
      using entry_ids_insert_Disabled [of ?k ?v ?es] by simp
    have "mset (held_ids d) = mset ?ids + mset (ed_ids (ei_enabledisable inst))"
      using entry_ids_insert_Some [OF Some, of "\<lparr>ei_enabledisable = Disabled, ei_existing_config = e\<rparr>"]
      by (simp add: held_ids_def)
    then have "owned ?ids (wd_tasks d0)" using owned_stop [OF own] old Some by simp
    then have "owned (?ids @ ed_ids ed) (wd_tasks d')" by (rule d'(6))
    with fr d' eq show ?thesis
      by (subst owned_cong [where ids' = "?ids @ ed_ids ed"]) (simp_all add: held_ids_def)
  qed
  moreover have "entries_match (d_endpoints (insert_endpoint e ed d'))"
    using entries_match_insert [OF em d'(5)] d' fr by simp
  ultimately show ?thesis using sm d' fr by (simp add: runner_inv_owned)
qed

lemma apply_endpoint_cases:
  assumes "apply_endpoint env e d = Inr d'"
  obtains (same) inst where "map_of (d_endpoints d) (ep_dns e) = Some inst"
      "ei_existing_config inst = e" "d' = d"
  | (changed) d0 ed d1 where
      "d0 = (case map_of (d_endpoints d) (ep_dns e) of
              Some inst \<Rightarrow> ed_stop (ei_enabledisable inst) d | None \<Rightarrow> d)"
      "started (ep_enabled e) d0 ed d1" "d' = insert_endpoint e ed d1"
      "\<And>inst. map_of (d_endpoints d) (ep_dns e) = Some inst \<Longrightarrow> ei_existing_config inst \<noteq> e"
proof (cases "map_of (d_endpoints d) (ep_dns e)")
  case None
  with assms show ?thesis
    by (auto simp: apply_endpoint_def and_then_Inr_iff intro!: changed started_endpoint)
next
  case (Some inst)
  show ?thesis
  proof (cases "ei_existing_config inst = e")
    case True
    with assms Some show ?thesis by (intro same) (auto simp: apply_endpoint_def)
  next
    case False
    with assms Some show ?thesis
      by (auto simp: apply_endpoint_def and_then_Inr_iff intro!: changed started_endpoint)
  qed
qed

lemma runner_inv_apply_endpoint:
  "apply_endpoint env e d = Inr d' \<Longrightarrow> runner_inv d \<Longrightarrow> runner_inv d'"
  by (erule apply_endpoint_cases) (auto intro: runner_inv_insert)

lemma runner_inv_apply_endpoints:
  "apply_endpoints env es d = Inr d' \<Longrightarrow> runner_inv d \<Longrightarrow> runner_inv d'"
  by (induction es arbitrary: d) (auto simp: and_then_Inr_iff intro: runner_inv_apply_endpoint)

lemma retain_endpoints_daemon:
  "retain_endpoints S es d = (kept, d') \<Longrightarrow>
     kept = filter (\<lambda>p. fst p \<in> S) es \<and> world.more d' = world.more d"
  by (induction S es d arbitrary: kept rule: retain_endpoints.induct)
    (auto split: if_splits prod.splits)

lemma retain_endpoints_owned:
  "retain_endpoints S es d = (kept, d') \<Longrightarrow> owned (entry_ids es @ ids) (wd_tasks d) \<Longrightarrow>
     owned (entry_ids kept @ ids) (wd_tasks d')"
proof (induction S es d arbitrary: kept ids rule: retain_endpoints.induct)
  case (1 S d)
  then show ?case by simp
next
  case (2 S dns inst rest d)
  let ?e = "ed_ids (ei_enabledisable inst)"
  have split: "entry_ids ((dns, inst) # es) = ?e @ entry_ids es" for es by (simp add: entry_ids_def)
  show ?case
  proof (cases "dns \<in> S")
    case True
    with 2(3) obtain kept' where r: "retain_endpoints S rest d = (kept', d')"
      and k: "kept = (dns, inst) # kept'" by (auto split: prod.splits)
    from 2(4) have "owned (entry_ids rest @ ?e @ ids) (wd_tasks d)"
      by (subst owned_cong [where ids' = "entry_ids ((dns, inst) # rest) @ ids"]) (simp_all add: split)
    from 2(1) [OF True r this] show ?thesis
      by (subst owned_cong [where ids' = "entry_ids kept' @ ?e @ ids"]) (simp_all add: split k)
  next
    case False
    with 2(3) have r: "retain_endpoints S rest (ed_stop (ei_enabledisable inst) d) = (kept, d')" by simp
    from 2(4) have "owned (entry_ids rest @ ids) (wd_tasks (ed_stop (ei_enabledisable inst) d))"
      by (rule owned_stop) (simp add: split)
    from 2(2) [OF False r this] show ?thesis .
  qed
qed

lemma entries_match_filter: "entries_match es \<Longrightarrow> entries_match (filter P es)"
  by (auto simp: entries_match_def intro: distinct_map_filter)

lemma runner_inv_retain:
  assumes "runner_inv d" and "retain_endpoints S (d_endpoints d) d = (kept, d')"
  shows "runner_inv (d'\<lparr>d_endpoints := kept\<rparr>)"
proof -
  note r = retain_endpoints_daemon [OF assms(2)]
  then have "d_ssh d' = d_ssh d" using daemon_more_eq by blast
  with assms r show ?thesis
    using retain_endpoints_owned [OF assms(2)]
    by (auto simp: runner_inv_owned held_ids_def entries_match_filter)
qed

lemma stop_ssh_daemon [simp]:
  "d_endpoints (stop_ssh d) = d_endpoints d" "d_ssh (stop_ssh d) = d_ssh d"
  "d_key (stop_ssh d) = d_key d" "d_statusmeta (stop_ssh d) = d_statusmeta d"
  by (auto simp: stop_ssh_def split: option.splits)

lemma stop_ssh_owned:
  assumes "runner_inv d"
  shows "owned (entry_ids (d_endpoints d)) (wd_tasks (stop_ssh d))"
proof (cases "d_ssh d")
  case None
  with assms show ?thesis by (simp add: runner_inv_owned held_ids_def ssh_ids_def stop_ssh_def)
next
  case (Some inst)
  have "owned (held_ids d) (wd_tasks d)" using assms by (simp add: runner_inv_owned)
  then have "owned (entry_ids (d_endpoints d)) (wd_tasks (ed_stop (si_enabledisable inst) d))"
    by (rule owned_stop) (simp add: held_ids_def ssh_ids_def Some)
  with Some show ?thesis by (simp add: stop_ssh_def)
qed

lemma apply_ssh_cases:
  assumes "apply_ssh env cfg d = Inr d'"
  obtains (removed) "cfg = None" "d' = (stop_ssh d)\<lparr>d_ssh := None\<rparr>"
  | (same) c new inst where "cfg = Some c" "ssh_configuration_of env c = Inr new"
      "d_ssh d = Some inst" "si_existing_config inst = new" "d' = d"
  | (changed) c new ed d1 where "cfg = Some c" "ssh_configuration_of env c = Inr new"
      "started (sc_enabled new) (stop_ssh d) ed d1"
      "d' = d1\<lparr>d_ssh := Some \<lparr>si_existing_config = new, si_enabledisable = ed\<rparr>\<rparr>"
proof (cases cfg)
  case None
  have "d = d\<lparr>d_ssh := None\<rparr>" if "d_ssh d = None" using that by (cases d) simp
  with assms None show ?thesis
    by (intro removed) (auto simp: apply_ssh_def stop_ssh_def split: option.splits)
next
  case (Some c)
  with assms obtain new where new: "ssh_configuration_of env c = Inr new"
    by (auto simp: apply_ssh_def and_then_Inr_iff)
  show ?thesis
  proof (cases "d_ssh d = None \<or> new \<noteq> si_existing_config (the (d_ssh d))")
    case True
    with assms Some new show ?thesis
      by (auto simp: apply_ssh_def and_then_Inr_iff intro!: changed started_ssh)
  next
    case False
    with assms Some new show ?thesis by (auto simp: apply_ssh_def intro!: same)
  qed
qed

lemma runner_inv_apply_ssh:
  assumes "apply_ssh env cfg d = Inr d'" and inv: "runner_inv d"
  shows "runner_inv d'"
  using assms(1)
proof (cases rule: apply_ssh_cases)
  case removed
  with stop_ssh_owned [OF inv] inv show ?thesis
    by (simp add: runner_inv_owned held_ids_def ssh_ids_def ssh_match_def)
next
  case same
  with inv show ?thesis by simp
next
  case (changed c new ed d1)
  note st = started_daemon [OF changed(3)]
  from st(6) [OF stop_ssh_owned [OF inv]] changed(4) st inv show ?thesis
    by (simp add: runner_inv_owned held_ids_def ssh_ids_def ssh_match_def)
qed

lemma runner_inv_update:
  "runner_inv (d\<lparr>d_statusmeta := m\<rparr>) = runner_inv d" "runner_inv (d\<lparr>d_key := k\<rparr>) = runner_inv d"
  "runner_inv (log_message env s d) = runner_inv d"
  by (simp_all add: runner_inv_def held_ids_def)

section \<open>What a configuration update does\<close>

definition keyed :: "string option \<Rightarrow> daemon \<Rightarrow> daemon" where
  "keyed key d = (case key of Some k \<Rightarrow> d\<lparr>d_key := Some k\<rparr> | None \<Rightarrow> d)"

lemma keyed_simps [simp]:
  "wd_tasks (keyed key d) = wd_tasks d" "d_endpoints (keyed key d) = d_endpoints d"
  "d_ssh (keyed key d) = d_ssh d" "runner_inv (keyed key d) = runner_inv d"
  by (simp_all add: keyed_def runner_inv_update split: option.splits)

lemma update_config_cases:
  assumes "update_config env config key d = Inr d'"
  obtains (nokey) m where "d_key (keyed key d) = None"
      "d' = log_message env m ((keyed key d)\<lparr>d_statusmeta := Uninitialized\<rparr>)"
  | (noconfig) k where "d_key (keyed key d) = Some k" "config = None"
      "d' = (keyed key d)\<lparr>d_statusmeta := Good\<rparr>"
  | (applied) k c kept d3 d4 where "d_key (keyed key d) = Some k" "config = Some c"
      "retain_endpoints (ep_dns ` set (cfg_endpoints c)) (d_endpoints d)
         ((keyed key d)\<lparr>d_statusmeta := Good\<rparr>) = (kept, d3)"
      "apply_endpoints env (cfg_endpoints c) (d3\<lparr>d_endpoints := kept\<rparr>) = Inr d4"
      "apply_ssh env (cfg_ssh c) d4 = Inr d'"
proof (cases "d_key (keyed key d)")
  case None
  with assms show ?thesis
    by (intro nokey [OF None]) (auto simp: update_config_def keyed_def [symmetric] submit_error_message_def)
next
  case (Some k)
  note key = this
  show ?thesis
  proof (cases config)
    case None
    with assms key show ?thesis
      by (intro noconfig [OF key None]) (simp add: update_config_def keyed_def [symmetric])
  next
    case (Some c)
    obtain kept d3 where r: "retain_endpoints (ep_dns ` set (cfg_endpoints c)) (d_endpoints d)
         ((keyed key d)\<lparr>d_statusmeta := Good\<rparr>) = (kept, d3)" by (metis surj_pair)
    with assms key Some obtain d4 where
      "apply_endpoints env (cfg_endpoints c) (d3\<lparr>d_endpoints := kept\<rparr>) = Inr d4"
      "apply_ssh env (cfg_ssh c) d4 = Inr d'"
      by (auto simp: update_config_def keyed_def [symmetric] Let_def and_then_Inr_iff)
    with r show ?thesis by (rule applied [OF key Some])
  qed
qed

lemma runner_inv_update_config:
  assumes "update_config env config key d = Inr d'" and inv: "runner_inv d"
  shows "runner_inv d'"
  using assms(1)
proof (cases rule: update_config_cases)
  case nokey
  with inv show ?thesis by (simp add: runner_inv_update)
next
  case noconfig
  with inv show ?thesis by (simp add: runner_inv_update)
next
  case (applied k c kept d3 d4)
  have "runner_inv (d3\<lparr>d_endpoints := kept\<rparr>)"
    by (rule runner_inv_retain [of "(keyed key d)\<lparr>d_statusmeta := Good\<rparr>"])
      (use applied inv in \<open>simp_all add: runner_inv_update\<close>)
  then show ?thesis using applied runner_inv_apply_endpoints runner_inv_apply_ssh by blast
qed

text \<open>What a property of the daemon's state needs to hold at all times: the operations of the runner keep it.\<close>

locale daemon_invariant =
  fixes inv :: "daemon \<Rightarrow> bool"
  assumes inv_new: "inv daemon_new"
    and inv_message: "inv d \<Longrightarrow> inv (submit_error_message env m d)"
    and inv_update_config: "update_config env config key d = Inr d' \<Longrightarrow> inv d \<Longrightarrow> inv d'"
begin

lemma inv_reload_step: "reload_step env dbg r d = Inr d' \<Longrightarrow> inv d \<Longrightarrow> inv d'"
  by (auto simp: reload_step_def inv_message split: sum.splits intro: inv_update_config)

lemma inv_run_daemon: "run_daemon env dbg rs d = Inr d' \<Longrightarrow> inv d \<Longrightarrow> inv d'"
  by (induction rs arbitrary: d) (auto simp: and_then_Inr_iff intro: inv_reload_step)

lemma inv_from_start: "run_daemon env dbg rs daemon_new = Inr d \<Longrightarrow> inv d"
  by (erule inv_run_daemon) (rule inv_new)

end

interpretation owning: daemon_invariant runner_inv
  by unfold_locales
    (auto simp: runner_inv_new submit_error_message_def runner_inv_update intro: runner_inv_update_config)

lemmas [ebb_run] = update_config_def daemon_new_def apply_endpoint_def start_endpoint_def spawn_endpointasdfsfa_def
  spawn_endpoint_def get_addrs_def apply_ssh_def insert_endpoint_def log_message_def Let_def

text \<open>The configuration each entry was made from.\<close>

definition configured :: "daemon \<Rightarrow> string \<Rightarrow> endpoint option" where
  "configured d dns = map_option ei_existing_config (map_of (d_endpoints d) dns)"

definition config_map :: "endpoint list \<Rightarrow> string \<Rightarrow> endpoint option" where
  "config_map es = map_of (rev (map (\<lambda>e. (ep_dns e, e)) es))"

lemma dom_config_map: "dom (config_map es) = ep_dns ` set es"
  by (auto simp: config_map_def dom_map_of_conv_image_fst image_iff)

lemma config_map_distinct:
  "distinct (map ep_dns es) \<Longrightarrow> e \<in> set es \<Longrightarrow> config_map es (ep_dns e) = Some e"
  unfolding config_map_def
  by (rule map_of_is_SomeI) (auto simp: rev_map [symmetric] comp_def)

lemma apply_endpoint_map_of:
  assumes "apply_endpoint env e d = Inr d'"
  shows "\<exists>inst. ei_existing_config inst = e \<and>
    map_of (d_endpoints d') = (map_of (d_endpoints d))(ep_dns e \<mapsto> inst)"
  using assms
proof (cases rule: apply_endpoint_cases)
  case (same inst)
  then show ?thesis by (auto simp: fun_upd_idem)
next
  case (changed d0 ed d1)
  have "d_endpoints d1 = d_endpoints d"
    using changed(1) started_daemon(1) [OF changed(2)] by (auto split: option.splits)
  with changed show ?thesis by (auto intro: exI [of _ "\<lparr>ei_enabledisable = ed, ei_existing_config = e\<rparr>"])
qed

lemma apply_endpoints_configured:
  "apply_endpoints env es d = Inr d' \<Longrightarrow> configured d' = configured d ++ config_map es"
proof (induction es arbitrary: d)
  case Nil
  then show ?case by (simp add: config_map_def)
next
  case (Cons e es)
  then obtain d1 where 1: "apply_endpoint env e d = Inr d1" "apply_endpoints env es d1 = Inr d'"
    by (auto simp: and_then_Inr_iff)
  from apply_endpoint_map_of [OF 1(1)] have "configured d1 = (configured d)(ep_dns e \<mapsto> e)"
    by (auto simp: configured_def fun_eq_iff)
  with Cons.IH [OF 1(2)] show ?case
    by (simp add: config_map_def fun_eq_iff map_add_def split: option.splits)
qed

lemma apply_ssh_endpoints: "apply_ssh env cfg d = Inr d' \<Longrightarrow> d_endpoints d' = d_endpoints d"
  by (erule apply_ssh_cases) (auto dest: started_daemon(1))

lemma map_of_filter_fst:
  "map_of (filter (\<lambda>p. fst p \<in> S) es) k = (if k \<in> S then map_of es k else None)"
  by (induction es) auto

lemma update_config_configured:
  assumes "update_config env (Some c) key d = Inr d'" and "d_key (keyed key d) \<noteq> None"
  shows "configured d' = config_map (cfg_endpoints c)"
  using assms(1)
proof (cases rule: update_config_cases)
  case (applied k c' kept d3 d4)
  note kept = retain_endpoints_daemon [OF applied(3)]
  have "configured d' = configured d4"
    using apply_ssh_endpoints [OF applied(5)] by (simp add: configured_def fun_eq_iff)
  also have "\<dots> = configured (d3\<lparr>d_endpoints := kept\<rparr>) ++ config_map (cfg_endpoints c)"
    using apply_endpoints_configured [OF applied(4)] applied(2) by simp
  also have "\<dots> = config_map (cfg_endpoints c)"
  proof
    fix dns
    have "dns \<notin> ep_dns ` set (cfg_endpoints c)" if "config_map (cfg_endpoints c) dns = None"
      using that by (simp add: domIff flip: dom_config_map)
    then show "(configured (d3\<lparr>d_endpoints := kept\<rparr>) ++ config_map (cfg_endpoints c)) dns
        = config_map (cfg_endpoints c) dns"
      using kept applied(2) by (auto simp: configured_def map_add_def map_of_filter_fst split: option.splits)
  qed
  finally show ?thesis .
qed (use assms in auto)

lemma apply_ssh_result:
  assumes "apply_ssh env cfg d = Inr d'"
  shows "case cfg of None \<Rightarrow> d_ssh d' = None
    | Some c \<Rightarrow> \<exists>inst. d_ssh d' = Some inst \<and> ssh_configuration_of env c = Inr (si_existing_config inst)"
  using assms by (cases rule: apply_ssh_cases) auto

lemma update_config_ssh:
  assumes "update_config env (Some c) key d = Inr d'" and "d_key (keyed key d) \<noteq> None"
  shows "case cfg_ssh c of None \<Rightarrow> d_ssh d' = None
    | Some s \<Rightarrow> \<exists>inst. d_ssh d' = Some inst \<and> ssh_configuration_of env s = Inr (si_existing_config inst)"
  using assms(1) by (cases rule: update_config_cases) (use assms apply_ssh_result in auto)

end
