(* ===== verification/Runner_Props.thy ===== *)
theory Runner_Props
  imports Runner
begin

text \<open>
  The properties of the daemon of theory \<open>Runner\<close>: its tasks are owned, its state converges to the
  configuration, and what an update leaves alone, stops and restarts.
\<close>

section \<open>Tasks only grow and never come back to life\<close>

definition tasks_le :: "task list \<Rightarrow> task list \<Rightarrow> bool" where
  "tasks_le ts ts' \<longleftrightarrow> length ts \<le> length ts' \<and>
     (\<forall>i < length ts. tk_args (ts' ! i) = tk_args (ts ! i) \<and> (i \<notin> live ts \<longrightarrow> i \<notin> live ts'))"

lemma tasks_le_refl [simp]: "tasks_le ts ts"
  by (simp add: tasks_le_def)

lemma tasks_le_trans: "tasks_le a b \<Longrightarrow> tasks_le b c \<Longrightarrow> tasks_le a c"
  by (auto simp: tasks_le_def)

lemma tasks_le_append: "tasks_le ts (ts @ us)"
  by (auto simp: tasks_le_def live_def nth_append)

lemma tasks_le_ed_stop: "tasks_le (wd_tasks d) (wd_tasks (ed_stop ed d))"
  unfolding tasks_le_def live_ed_stop by (cases ed) (auto simp: nth_stop_task)

lemma tasks_le_started: "started en d ed d' \<Longrightarrow> tasks_le (wd_tasks d) (wd_tasks d')"
  by (auto simp: started_def intro: tasks_le_append)

lemma tasks_le_apply_endpoint:
  assumes "apply_endpoint env e d = Inr d'"
  shows "tasks_le (wd_tasks d) (wd_tasks d')"
  using assms
proof (cases rule: apply_endpoint_cases)
  case (changed d0 ed d1)
  have "tasks_le (wd_tasks d) (wd_tasks d0)"
    using changed(1) by (auto simp: tasks_le_ed_stop split: option.splits)
  then show ?thesis using tasks_le_started [OF changed(2)] changed(3) by (auto intro: tasks_le_trans)
qed simp

lemma tasks_le_apply_endpoints:
  "apply_endpoints env es d = Inr d' \<Longrightarrow> tasks_le (wd_tasks d) (wd_tasks d')"
  by (induction es arbitrary: d)
    (auto simp: and_then_Inr_iff intro: tasks_le_trans tasks_le_apply_endpoint)

lemma tasks_le_apply_ssh:
  assumes "apply_ssh env cfg d = Inr d'"
  shows "tasks_le (wd_tasks d) (wd_tasks d')"
proof -
  have stop: "tasks_le (wd_tasks d) (wd_tasks (stop_ssh d))"
    by (auto simp: stop_ssh_def tasks_le_ed_stop split: option.splits)
  from assms show ?thesis
    by (cases rule: apply_ssh_cases) (auto intro: stop tasks_le_trans [OF stop] tasks_le_started)
qed

lemma tasks_le_retain:
  "retain_endpoints S es d = (kept, d') \<Longrightarrow> tasks_le (wd_tasks d) (wd_tasks d')"
proof (induction S es d arbitrary: kept rule: retain_endpoints.induct)
  case (2 S dns inst rest d)
  then show ?case
    by (auto split: if_splits prod.splits intro: tasks_le_trans [OF tasks_le_ed_stop])
qed simp

lemma length_ed_stop [simp]: "length (wd_tasks (ed_stop ed d)) = length (wd_tasks d)"
  by (cases ed) simp_all

lemma retain_endpoints_stops:
  "retain_endpoints S es d = (kept, d') \<Longrightarrow> (dns, inst) \<in> set es \<Longrightarrow> dns \<notin> S \<Longrightarrow>
     ei_enabledisable inst = Enabled i \<Longrightarrow> i < length (wd_tasks d) \<Longrightarrow> i \<notin> live (wd_tasks d')"
proof (induction S es d arbitrary: kept rule: retain_endpoints.induct)
  case (2 S dns' inst' rest d)
  let ?d = "ed_stop (ei_enabledisable inst') d"
  consider (kept) "dns' \<in> S" | (stopped) "dns' \<notin> S" "inst' = inst" | (later) "dns' \<notin> S" "inst' \<noteq> inst"
    by blast
  then show ?case
  proof cases
    case kept
    with 2 show ?thesis by (auto split: prod.splits)
  next
    case stopped
    then have r: "retain_endpoints S rest ?d = (kept, d')" using 2(3) by simp
    have "i \<notin> live (wd_tasks ?d)" using stopped 2(6) by (simp add: live_ed_stop del: ed_stop.simps)
    with tasks_le_retain [OF r] 2(7) show ?thesis by (auto simp: tasks_le_def)
  next
    case later
    with 2 show ?thesis by auto
  qed
qed simp

section \<open>Entries that keep their place\<close>

lemma apply_endpoint_other:
  "apply_endpoint env e d = Inr d' \<Longrightarrow> dns \<noteq> ep_dns e \<Longrightarrow>
     map_of (d_endpoints d') dns = map_of (d_endpoints d) dns"
  by (drule apply_endpoint_map_of) auto

lemma apply_endpoints_keeps:
  assumes "apply_endpoints env es d = Inr d'"
    and "map_of (d_endpoints d) dns = Some inst"
    and "\<forall>e \<in> set es. ep_dns e = dns \<longrightarrow> e = ei_existing_config inst"
  shows "map_of (d_endpoints d') dns = Some inst"
  using assms
proof (induction es arbitrary: d)
  case (Cons e es)
  then obtain d1 where 1: "apply_endpoint env e d = Inr d1" "apply_endpoints env es d1 = Inr d'"
    by (auto simp: and_then_Inr_iff)
  have "map_of (d_endpoints d1) dns = Some inst"
  proof (cases "ep_dns e = dns")
    case True
    with Cons.prems have "d1 = d" using 1(1) by (simp add: apply_endpoint_def)
    with Cons.prems show ?thesis by simp
  next
    case False
    with apply_endpoint_other [OF 1(1)] Cons.prems show ?thesis by simp
  qed
  with Cons.IH [OF 1(2)] Cons.prems show ?case by simp
qed simp

lemma retain_endpoints_all:
  "\<forall>p \<in> set es. fst p \<in> S \<Longrightarrow> retain_endpoints S es d = (es, d)"
  by (induction S es d rule: retain_endpoints.induct) auto

lemma apply_endpoints_same:
  "\<forall>e \<in> set es. configured d (ep_dns e) = Some e \<Longrightarrow> apply_endpoints env es d = Inr d"
  by (induction es) (auto simp: apply_endpoint_def configured_def)

lemma apply_ssh_same:
  "(case cfg of None \<Rightarrow> d_ssh d = None
     | Some c \<Rightarrow> \<exists>inst. d_ssh d = Some inst \<and> ssh_configuration_of env c = Inr (si_existing_config inst))
   \<Longrightarrow> apply_ssh env cfg d = Inr d"
  by (auto simp: apply_ssh_def split: option.splits)

lemma held_entry_live:
  assumes "runner_inv d" "(dns, inst) \<in> set (d_endpoints d)" "ei_enabledisable inst = Enabled i"
  shows "i \<in> live (wd_tasks d)"
proof -
  have "i \<in> set (entry_ids (d_endpoints d))" using assms(2,3) by (force simp: entry_ids_def)
  then show ?thesis using assms(1) by (auto simp: runner_inv_def held_ids_def)
qed

section \<open>Key and status\<close>

lemma apply_endpoint_meta:
  assumes "apply_endpoint env e d = Inr d'"
  shows "d_key d' = d_key d \<and> d_statusmeta d' = d_statusmeta d \<and> d_ssh d' = d_ssh d"
  using assms
proof (cases rule: apply_endpoint_cases)
  case (changed d0 ed d1)
  have "d_key d0 = d_key d" "d_statusmeta d0 = d_statusmeta d" "d_ssh d0 = d_ssh d"
    using changed(1) by (auto split: option.splits)
  then show ?thesis using started_daemon [OF changed(2)] changed(3) by simp
qed simp

lemma apply_endpoints_meta:
  "apply_endpoints env es d = Inr d' \<Longrightarrow>
     d_key d' = d_key d \<and> d_statusmeta d' = d_statusmeta d \<and> d_ssh d' = d_ssh d"
  by (induction es arbitrary: d) (auto simp: and_then_Inr_iff dest!: apply_endpoint_meta)

lemma apply_ssh_meta:
  "apply_ssh env cfg d = Inr d' \<Longrightarrow> d_key d' = d_key d \<and> d_statusmeta d' = d_statusmeta d"
  by (erule apply_ssh_cases) (auto dest: started_daemon)

lemma update_config_meta:
  assumes "update_config env config key d = Inr d'"
  shows "d_key d' = d_key (keyed key d) \<and>
    d_statusmeta d' = (if d_key (keyed key d) = None then Uninitialized else Good)"
  using assms
proof (cases rule: update_config_cases)
  case (applied k c kept d3 d4)
  have m: "world.more d3 = world.more ((keyed key d)\<lparr>d_statusmeta := Good\<rparr>)"
    using retain_endpoints_daemon [OF applied(3)] by blast
  have "d_key d3 = d_key (keyed key d)" "d_statusmeta d3 = Good"
    using daemon_more_eq(3) [OF m] daemon_more_eq(4) [OF m] by simp_all
  with applied(1) apply_endpoints_meta [OF applied(4)] apply_ssh_meta [OF applied(5)]
  show ?thesis by simp
qed auto

section \<open>Properties\<close>

text \<open>The environment and the configurations of the witnesses.\<close>

definition demo_env :: env where
  "demo_env = \<lparr>env_now = (\<lambda>_. ''now''), env_lookup = (\<lambda>_ _. [Inl ''e'', Inr []]), env_hostname = Hostname ''h''\<rparr>"

definition demo_daemon :: daemon where
  "demo_daemon = (case update_config demo_env (Some demo_config) (Some ''k'') daemon_new of
     Inr d \<Rightarrow> d | Inl _ \<Rightarrow> daemon_new)"

lemma demo_update: "update_config demo_env (Some demo_config) (Some ''k'') daemon_new = Ok demo_daemon"
  by (simp add: demo_daemon_def demo_config_def demo_env_def demo_endpoint_def ebb_run)

text \<open>C5. No task is leaked or lost: after any sequence of reloads from the start, the tasks that were
  spawned and not told to stop are exactly those held by the enabled entries and by SSH, and no
  task is held twice; an entry is enabled exactly when the configuration it was made from is, and
  there is one entry per name.\<close>

theorem run_daemon_owns_tasks:
  assumes "run_daemon env dbg rs daemon_new = Ok d"
  shows "distinct (held_ids d) \<and> set (held_ids d) = live (wd_tasks d) \<and>
    distinct (map fst (d_endpoints d)) \<and>
    (\<forall>(dns, inst) \<in> set (d_endpoints d). dns = ep_dns (ei_existing_config inst) \<and>
       is_enabled (ei_enabledisable inst) = ep_enabled (ei_existing_config inst)) \<and>
    (\<forall>inst. d_ssh d = Some inst \<longrightarrow>
       is_enabled (si_enabledisable inst) = sc_enabled (si_existing_config inst))"
  using owning.inv_from_start [OF assms]
  by (auto simp: runner_inv_def entries_match_def ssh_match_def)

theorem run_daemon_owns_tasks_witness: "set (held_ids demo_daemon) = live (wd_tasks demo_daemon)"
proof -
  have "run_daemon demo_env (\<lambda>_. []) [Inr (Some demo_config, Some ''k'')] daemon_new = Ok demo_daemon"
    by (simp add: reload_step_def demo_update)
  from run_daemon_owns_tasks [OF this] show ?thesis by simp
qed

text \<open>Convergence: once a key is known, an update that returns leaves the daemon with exactly the
  configured endpoints, each made from its configuration (from the last one, where a name is
  configured twice), with the SSH entry that the configuration asks for, and the status \<open>Good\<close>.\<close>

theorem update_config_converges:
  assumes "update_config env (Some c) key d = Ok d'" and "key \<noteq> None \<or> d_key d \<noteq> None"
  shows "(\<forall>dns. map_option ei_existing_config (map_of (d_endpoints d') dns)
            = map_of (rev (map (\<lambda>e. (ep_dns e, e)) (cfg_endpoints c))) dns) \<and>
    (case cfg_ssh c of None \<Rightarrow> d_ssh d' = None
       | Some s \<Rightarrow> \<exists>inst. d_ssh d' = Some inst \<and>
           ssh_configuration_of env s = Ok (si_existing_config inst)) \<and>
    d_statusmeta d' = Good"
proof -
  have key: "d_key (keyed key d) \<noteq> None" using assms(2) by (auto simp: keyed_def split: option.splits)
  show ?thesis
    using update_config_configured [OF assms(1) key] update_config_ssh [OF assms(1) key]
      update_config_meta [OF assms(1)] key
    by (simp add: configured_def config_map_def fun_eq_iff)
qed

theorem update_config_converges_witness:
  "map_option ei_existing_config (map_of (d_endpoints demo_daemon) ''a.com'') = Some demo_endpoint"
proof -
  note c = update_config_converges [OF demo_update]
  show ?thesis
    using c [THEN conjunct1, rule_format, of "''a.com''"]
    by (simp add: demo_config_def demo_endpoint_def)
qed

text \<open>C19. An update is idempotent: where the configured names are distinct, loading the same
  configuration again, with no new key, changes nothing at all, so no task is stopped or started.\<close>

theorem update_config_idempotent:
  assumes "update_config env (Some c) key d = Ok d'" and "key \<noteq> None \<or> d_key d \<noteq> None"
    and "distinct (map ep_dns (cfg_endpoints c))"
  shows "update_config env (Some c) None d' = Ok d'"
proof -
  have key: "d_key (keyed key d) \<noteq> None" using assms(2) by (auto simp: keyed_def split: option.splits)
  have meta: "d_key d' \<noteq> None" "d_statusmeta d' = Good" using update_config_meta [OF assms(1)] key by auto
  then have good: "d'\<lparr>d_statusmeta := Good\<rparr> = d'" by (cases d') simp
  note conf = update_config_configured [OF assms(1) key]
  have "\<forall>p \<in> set (d_endpoints d'). fst p \<in> ep_dns ` set (cfg_endpoints c)"
  proof
    fix p assume "p \<in> set (d_endpoints d')"
    then have "fst p \<in> dom (configured d')"
      using weak_map_of_SomeI [of "fst p" "snd p"] by (auto simp: configured_def dom_def)
    then show "fst p \<in> ep_dns ` set (cfg_endpoints c)" by (simp add: conf dom_config_map)
  qed
  then have keep: "retain_endpoints (ep_dns ` set (cfg_endpoints c)) (d_endpoints d') d' = (d_endpoints d', d')"
    by (rule retain_endpoints_all)
  have "apply_endpoints env (cfg_endpoints c) d' = Inr d'"
    by (rule apply_endpoints_same) (simp add: conf config_map_distinct [OF assms(3)])
  moreover have "apply_ssh env (cfg_ssh c) d' = Inr d'"
    by (rule apply_ssh_same) (use update_config_ssh [OF assms(1) key] in simp)
  ultimately show ?thesis
    using meta keep by (cases "d_key d'") (simp_all add: update_config_def good Let_def)
qed

theorem update_config_idempotent_witness:
  "update_config demo_env (Some demo_config) None demo_daemon = Ok demo_daemon"
  by (rule update_config_idempotent [OF demo_update]) (simp_all add: demo_config_def)

text \<open>C17. What did not change is not restarted: an endpoint whose configuration is the one its entry
  was made from keeps that entry, and with it the running task, whatever else the update changes;
  the task is still running if the daemon's tasks were owned before.\<close>

theorem unchanged_endpoint_keeps_task:
  assumes "update_config env (Some c) key d = Ok d'" and "key \<noteq> None \<or> d_key d \<noteq> None"
    and "runner_inv d" and "map_of (d_endpoints d) dns = Some inst"
    and "config_map (cfg_endpoints c) dns = Some (ei_existing_config inst)"
    and "\<forall>e \<in> set (cfg_endpoints c). ep_dns e = dns \<longrightarrow> e = ei_existing_config inst"
  shows "map_of (d_endpoints d') dns = Some inst \<and>
    (\<forall>i. ei_enabledisable inst = Enabled i \<longrightarrow> i \<in> live (wd_tasks d'))"
proof -
  have key: "d_key (keyed key d) \<noteq> None" using assms(2) by (auto simp: keyed_def split: option.splits)
  have entry: "map_of (d_endpoints d') dns = Some inst"
    using assms(1)
  proof (cases rule: update_config_cases)
    case (applied k c' kept d3 d4)
    have "dns \<in> ep_dns ` set (cfg_endpoints c')"
      using assms(5) applied(2) dom_config_map [of "cfg_endpoints c'"] by auto
    then have "map_of kept dns = Some inst"
      using retain_endpoints_daemon [OF applied(3)] assms(4) by (simp add: map_of_filter_fst)
    then have "map_of (d_endpoints d4) dns = Some inst"
      using apply_endpoints_keeps [OF applied(4)] assms(6) applied(2) by simp
    then show ?thesis using apply_ssh_endpoints [OF applied(5)] by simp
  qed (use key in auto)
  have inv: "runner_inv d'" using runner_inv_update_config [OF assms(1,3)] .
  from held_entry_live [OF inv map_of_SomeD [OF entry]] entry show ?thesis by simp
qed

theorem unchanged_endpoint_keeps_task_witness:
  "map_of (d_endpoints demo_daemon) ''a.com'' =
     Some \<lparr>ei_enabledisable = Enabled 0, ei_existing_config = demo_endpoint\<rparr> \<and> 0 \<in> live (wd_tasks demo_daemon)"
proof -
  let ?i = "\<lparr>ei_enabledisable = Enabled 0, ei_existing_config = demo_endpoint\<rparr>"
  have e: "d_endpoints demo_daemon = [(''a.com'', ?i)]"
    by (simp add: demo_daemon_def demo_config_def demo_env_def demo_endpoint_def ebb_run)
  have u: "update_config demo_env (Some demo_config) None demo_daemon = Ok demo_daemon"
    using e by (simp add: demo_daemon_def demo_config_def demo_env_def demo_endpoint_def ebb_run)
  have k: "None \<noteq> None \<or> d_key demo_daemon \<noteq> None" using update_config_meta [OF demo_update] by (simp add: keyed_def)
  show ?thesis
    using unchanged_endpoint_keeps_task [OF u k runner_inv_update_config [OF demo_update runner_inv_new], of "''a.com''" ?i] e
    by (simp add: demo_config_def demo_endpoint_def config_map_def)
qed

text \<open>Lemmas for stopping and restarting.\<close>

lemma apply_endpoint_changed:
  assumes "apply_endpoint env e d = Inr d'" and "configured d (ep_dns e) \<noteq> Some e"
  shows "\<exists>d0 ed d1. started (ep_enabled e) d0 ed d1 \<and> d' = insert_endpoint e ed d1 \<and>
    length (wd_tasks d0) = length (wd_tasks d) \<and>
    (\<forall>inst i. map_of (d_endpoints d) (ep_dns e) = Some inst \<longrightarrow> ei_enabledisable inst = Enabled i \<longrightarrow>
       i \<notin> live (wd_tasks d0))"
  using assms(1)
proof (cases rule: apply_endpoint_cases)
  case (same inst)
  with assms(2) show ?thesis by (simp add: configured_def)
next
  case (changed d0 ed d1)
  have len: "length (wd_tasks d0) = length (wd_tasks d)"
    using changed(1) by (auto split: option.splits)
  have dead: "i \<notin> live (wd_tasks d0)"
    if "map_of (d_endpoints d) (ep_dns e) = Some inst" "ei_enabledisable inst = Enabled i" for inst i
    using that changed(1) by (simp add: live_ed_stop del: ed_stop.simps)
  from changed(2,3) len dead show ?thesis by blast
qed

lemma apply_endpoints_stops:
  "apply_endpoints env es d = Inr d' \<Longrightarrow> map_of (d_endpoints d) dns = Some inst \<Longrightarrow>
   ei_enabledisable inst = Enabled i \<Longrightarrow> i < length (wd_tasks d) \<Longrightarrow>
   \<exists>e \<in> set es. ep_dns e = dns \<and> e \<noteq> ei_existing_config inst \<Longrightarrow> i \<notin> live (wd_tasks d')"
proof (induction es arbitrary: d)
  case (Cons e es)
  then obtain d1 where 1: "apply_endpoint env e d = Inr d1" "apply_endpoints env es d1 = Inr d'"
    by (auto simp: and_then_Inr_iff)
  have len: "i < length (wd_tasks d1)" using tasks_le_apply_endpoint [OF 1(1)] Cons.prems by (simp add: tasks_le_def)
  consider (here) "ep_dns e = dns" "e \<noteq> ei_existing_config inst"
    | (same) "ep_dns e = dns" "e = ei_existing_config inst" | (other) "ep_dns e \<noteq> dns" by blast
  then show ?case
  proof cases
    case here
    then have "configured d (ep_dns e) \<noteq> Some e" using Cons.prems by (auto simp: configured_def)
    from apply_endpoint_changed [OF 1(1) this] obtain d0 ed d2 where
      s: "started (ep_enabled e) d0 ed d2" "d1 = insert_endpoint e ed d2"
        "length (wd_tasks d0) = length (wd_tasks d)" "i \<notin> live (wd_tasks d0)"
      using here Cons.prems by blast
    have "tasks_le (wd_tasks d0) (wd_tasks d')"
      using tasks_le_started [OF s(1)] tasks_le_apply_endpoints [OF 1(2)] s(2)
      by (auto intro: tasks_le_trans)
    with s(3,4) Cons.prems show ?thesis by (simp add: tasks_le_def)
  next
    case same
    then have "d1 = d" using 1(1) Cons.prems by (simp add: apply_endpoint_def)
    with Cons.IH [OF 1(2)] Cons.prems same show ?thesis by auto
  next
    case other
    with Cons.IH [OF 1(2)] apply_endpoint_other [OF 1(1)] Cons.prems len show ?thesis by auto
  qed
qed simp

text \<open>When an update returns.\<close>

definition endpoint_resolves :: "env \<Rightarrow> endpoint \<Rightarrow> bool" where
  "endpoint_resolves env e \<longleftrightarrow> resolves env (ep_port e) \<and>
     (\<forall>hc. ep_healthcheck e = Some hc \<longrightarrow> resolves env (unwrap_or (hc_port hc) (ep_port e)))"

definition ssh_resolves :: "env \<Rightarrow> ssh \<Rightarrow> bool" where
  "ssh_resolves env s \<longleftrightarrow> resolves env (ssh_port s) \<and>
     (ssh_hostname_override s = None \<longrightarrow> (\<exists>n. env_hostname env = Hostname n))"

lemma start_endpoint_returns:
  "ep_enabled e \<longrightarrow> endpoint_resolves env e \<Longrightarrow> \<exists>ed d'. start_endpoint env e d = Inr (ed, d')"
proof (cases "ep_enabled e")
  case True
  assume "ep_enabled e \<longrightarrow> endpoint_resolves env e"
  with True obtain i d' where "spawn_endpointasdfsfa env e d = Inr (i, d')"
    unfolding spawn_endpointasdfsfa_def Let_def endpoint_resolves_def
    using spawn_endpoint_returns [of env "\<lparr>ea_ctype = Tls,
        ea_idleconns = ucast (min (ep_maxidle e) (of_nat MAX_MAX_IDLE)),
        ea_maxconns = ucast (ep_maxconns e), ea_endpoint = ep_dns e, ea_port = ep_port e,
        ea_healthcheck = ep_healthcheck e\<rparr>" d] by auto
  with True show ?thesis by (simp add: start_endpoint_def)
qed (simp add: start_endpoint_def)

lemma apply_endpoint_returns:
  "ep_enabled e \<longrightarrow> endpoint_resolves env e \<Longrightarrow> \<exists>d'. apply_endpoint env e d = Inr d'"
proof -
  assume "ep_enabled e \<longrightarrow> endpoint_resolves env e"
  note st = start_endpoint_returns [OF this]
  show ?thesis
  proof (cases "map_of (d_endpoints d) (ep_dns e)")
    case None
    with st [of d] show ?thesis by (auto simp: apply_endpoint_def)
  next
    case (Some inst)
    with st [of "ed_stop (ei_enabledisable inst) d"] show ?thesis by (auto simp: apply_endpoint_def)
  qed
qed

lemma apply_endpoints_returns:
  "\<forall>e \<in> set es. ep_enabled e \<longrightarrow> endpoint_resolves env e \<Longrightarrow> \<exists>d'. apply_endpoints env es d = Inr d'"
proof (induction es arbitrary: d)
  case (Cons e es)
  from Cons.prems have "ep_enabled e \<longrightarrow> endpoint_resolves env e" by simp
  from apply_endpoint_returns [OF this] obtain d1 where "apply_endpoint env e d = Inr d1" by blast
  with Cons show ?case by simp
qed simp

lemma apply_ssh_returns:
  assumes "\<forall>s. cfg = Some s \<longrightarrow> ssh_resolves env s"
  shows "\<exists>d'. apply_ssh env cfg d = Inr d'"
proof (cases cfg)
  case None
  then show ?thesis by (auto simp: apply_ssh_def split: option.splits)
next
  case (Some s)
  have "\<exists>new. ssh_configuration_of env s = Inr new \<and> sc_port new = ssh_port s"
    using assms Some
    by (cases "ssh_hostname_override s")
      (auto simp: ssh_configuration_of_def ssh_resolves_def hostname_or_die_def)
  then obtain new where new: "ssh_configuration_of env s = Inr new" "sc_port new = ssh_port s" by blast
  have "\<exists>ed d1. start_ssh env new (stop_ssh d) = Inr (ed, d1)"
    using spawn_endpoint_returns [of env "\<lparr>ea_ctype = Ssh, ea_idleconns = sc_maxidle new,
        ea_maxconns = sc_max new, ea_endpoint = sc_hostname new, ea_port = sc_port new,
        ea_healthcheck = None\<rparr>" "stop_ssh d"] assms Some new(2)
    by (auto simp: start_ssh_def ssh_resolves_def)
  with Some new show ?thesis by (auto simp: apply_ssh_def)
qed

lemma update_config_total:
  assumes "\<forall>c. config = Some c \<longrightarrow>
      (\<forall>e \<in> set (cfg_endpoints c). ep_enabled e \<longrightarrow> endpoint_resolves env e) \<and>
      (\<forall>s. cfg_ssh c = Some s \<longrightarrow> ssh_resolves env s)"
  shows "\<exists>d'. update_config env config key d = Ok d'"
proof (cases "d_key (keyed key d)")
  case None
  then show ?thesis by (simp add: update_config_def keyed_def [symmetric])
next
  case (Some k)
  show ?thesis
  proof (cases config)
    case None
    with Some show ?thesis by (simp add: update_config_def keyed_def [symmetric])
  next
    case (Some c)
    let ?r = "retain_endpoints (ep_dns ` set (cfg_endpoints c)) (d_endpoints d) ((keyed key d)\<lparr>d_statusmeta := Good\<rparr>)"
    obtain d4 where d4: "apply_endpoints env (cfg_endpoints c) ((snd ?r)\<lparr>d_endpoints := fst ?r\<rparr>) = Inr d4"
      using apply_endpoints_returns assms Some by blast
    obtain d' where "apply_ssh env (cfg_ssh c) d4 = Inr d'" using apply_ssh_returns assms Some by blast
    with d4 Some \<open>d_key (keyed key d) = Some k\<close> show ?thesis
      by (simp add: update_config_def keyed_def [symmetric] Let_def case_prod_beta)
  qed
qed

text \<open>C18. What is removed or changed is stopped: if a running endpoint's configuration is not in the new
  configuration any more (its name is gone or its settings differ), its task has been told to stop
  when the update returns.\<close>

theorem changed_endpoint_is_stopped:
  assumes "update_config env (Some c) key d = Ok d'" and "key \<noteq> None \<or> d_key d \<noteq> None"
    and "runner_inv d" and "map_of (d_endpoints d) dns = Some inst"
    and "ei_enabledisable inst = Enabled i" and "ei_existing_config inst \<notin> set (cfg_endpoints c)"
  shows "i \<notin> live (wd_tasks d')"
proof -
  have key: "d_key (keyed key d) \<noteq> None" using assms(2) by (auto simp: keyed_def split: option.splits)
  have "i \<in> set (entry_ids (d_endpoints d))"
    using map_of_SomeD [OF assms(4)] assms(5) by (force simp: entry_ids_def)
  then have i: "i < length (wd_tasks d)"
    using assms(3) by (auto simp: runner_inv_def held_ids_def live_def)
  show ?thesis using assms(1)
  proof (cases rule: update_config_cases)
    case (applied k c' kept d3 d4)
    note le = tasks_le_retain [OF applied(3)] tasks_le_apply_endpoints [OF applied(4)]
      tasks_le_apply_ssh [OF applied(5)]
    have "i \<notin> live (wd_tasks d4)"
    proof (cases "dns \<in> ep_dns ` set (cfg_endpoints c')")
      case True
      then have "map_of kept dns = Some inst"
        using retain_endpoints_daemon [OF applied(3)] assms(4) by (simp add: map_of_filter_fst)
      moreover have "i < length (wd_tasks (d3\<lparr>d_endpoints := kept\<rparr>))" using le(1) i by (simp add: tasks_le_def)
      ultimately show ?thesis
        using apply_endpoints_stops [OF applied(4)] assms(5,6) True applied(2) by fastforce
    next
      case False
      then have "i \<notin> live (wd_tasks d3)"
        using retain_endpoints_stops [OF applied(3) map_of_SomeD [OF assms(4)]] assms(5) i by simp
      with le i show ?thesis by (simp add: tasks_le_def)
    qed
    with le i show ?thesis by (simp add: tasks_le_def)
  qed (use key in auto)
qed

lemma demo_daemon_entries:
  "map_of (d_endpoints demo_daemon) ''a.com'' =
     Some \<lparr>ei_enabledisable = Enabled 0, ei_existing_config = demo_endpoint\<rparr>"
  "d_key demo_daemon = Some ''k''" "d_ssh demo_daemon = None"
  by (simp_all add: demo_daemon_def demo_config_def demo_env_def demo_endpoint_def ebb_run)

theorem changed_endpoint_is_stopped_witness:
  "\<exists>d'. update_config demo_env (Some new_config) None demo_daemon = Ok d' \<and> 0 \<notin> live (wd_tasks d')"
proof -
  obtain d' where u: "update_config demo_env (Some new_config) None demo_daemon = Ok d'"
    using update_config_total [of "Some new_config" demo_env None demo_daemon] by (auto simp: new_config_def)
  have "runner_inv demo_daemon" using runner_inv_update_config [OF demo_update runner_inv_new] .
  with changed_endpoint_is_stopped [OF u _ this demo_daemon_entries(1), of 0] demo_daemon_entries(2) u
  show ?thesis by (simp add: new_config_def)
qed

text \<open>C20. An update always returns when the operating system lets it: if \<open>localhost\<close> resolves on the ports
  of the enabled endpoints, of their health checks and of SSH, and the host name is known or
  overridden, then \<open>update_config\<close> finishes, whatever the daemon's state.\<close>

theorem update_config_returns:
  assumes "\<forall>c. config = Some c \<longrightarrow>
      (\<forall>e \<in> set (cfg_endpoints c). ep_enabled e \<longrightarrow> endpoint_resolves env e) \<and>
      (\<forall>s. cfg_ssh c = Some s \<longrightarrow> ssh_resolves env s)"
  shows "\<exists>d'. update_config env config key d = Ok d'"
  using assms by (rule update_config_total)

theorem update_config_returns_witness:
  "\<exists>d'. update_config demo_env (Some demo_config) None demo_daemon = Ok d'"
  by (rule update_config_returns)
    (simp add: demo_config_def demo_endpoint_def endpoint_resolves_def resolves_def demo_env_def)

text \<open>Without a key, and when the configuration cannot be read, nothing is started or stopped: a
  reload that fails, or that finds no key while none is known, returns with the same tasks, the
  same entries, the same SSH entry and the same key, and says why in the newest message; without a
  key the status is \<open>Uninitialized\<close>.\<close>

theorem reload_without_effect:
  assumes "isl r \<or> (\<exists>cfg. r = Ok (cfg, None) \<and> d_key d = None)"
  shows "\<exists>d' m. reload_step env dbg r d = Ok d' \<and>
    wd_tasks d' = wd_tasks d \<and> d_endpoints d' = d_endpoints d \<and> d_ssh d' = d_ssh d \<and> d_key d' = d_key d \<and>
    d_statusmeta d' = (if isl r then d_statusmeta d else Uninitialized) \<and>
    hd (ds_messages (runner_status d')) = (env_now env (wd_clock d), m)"
  using assms
  by (cases r) (auto simp: reload_step_def submit_error_message_def update_config_def runner_status_def
      log_message_def newest_message)

theorem reload_without_effect_witness:
  "\<exists>d' m. reload_step demo_env (\<lambda>_. []) (Err Parsing) demo_daemon = Ok d' \<and>
    wd_tasks d' = wd_tasks demo_daemon \<and> d_endpoints d' = d_endpoints demo_daemon \<and>
    d_ssh d' = d_ssh demo_daemon \<and> d_key d' = d_key demo_daemon \<and>
    d_statusmeta d' = (if isl (Err Parsing :: config_error + (daemon_config option \<times> string option))
      then d_statusmeta demo_daemon else Uninitialized) \<and>
    hd (ds_messages (runner_status d')) = (env_now demo_env (wd_clock demo_daemon), m)"
  by (rule reload_without_effect) simp

lemma status_entries:
  assumes inv: "runner_inv d" and conf: "configured d = config_map es"
  shows "distinct (map fst (ds_endpoints (runner_status d))) \<and>
    set (map fst (ds_endpoints (runner_status d))) = set (map ep_dns es) \<and>
    (\<forall>(dns, st) \<in> set (ds_endpoints (runner_status d)).
       \<exists>e. config_map es dns = Some e \<and>
         (if ep_enabled e
          then \<exists>i \<in> live (wd_tasks d). st = endpoint_status d (Enabled i) \<and>
                 st \<noteq> StatusDisabled
          else st = StatusDisabled))"
proof -
  have names: "map fst (ds_endpoints (runner_status d)) = map fst (d_endpoints d)"
    by (simp add: runner_status_def comp_def case_prod_beta)
  have "dom (configured d) = set (map fst (d_endpoints d))"
    by (auto simp: configured_def dom_map_of_conv_image_fst [symmetric] dom_def)
  then have set_names: "set (map fst (d_endpoints d)) = set (map ep_dns es)"
    by (simp add: conf dom_config_map)
  have "\<exists>e. config_map es dns = Some e \<and>
      (if ep_enabled e then \<exists>i \<in> live (wd_tasks d). st = endpoint_status d (Enabled i) \<and> st \<noteq> StatusDisabled
       else st = StatusDisabled)"
    if st: "(dns, st) \<in> set (ds_endpoints (runner_status d))" for dns st
  proof -
    from st obtain inst where i: "(dns, inst) \<in> set (d_endpoints d)"
      and st: "st = endpoint_status d (ei_enabledisable inst)"
      by (auto simp: runner_status_def)
    have en: "is_enabled (ei_enabledisable inst) = ep_enabled (ei_existing_config inst)"
      using inv i by (auto simp: runner_inv_def entries_match_def)
    have "map_of (d_endpoints d) dns = Some inst"
      using inv i by (intro map_of_is_SomeI) (auto simp: runner_inv_def entries_match_def)
    then have "config_map es dns = Some (ei_existing_config inst)"
      by (simp add: conf [symmetric] configured_def)
    then show ?thesis
      using en st held_entry_live [OF inv i] by (cases "ei_enabledisable inst") (auto simp: is_enabled_def endpoint_status_def Let_def)
  qed
  then have "\<forall>(dns, st) \<in> set (ds_endpoints (runner_status d)).
      \<exists>e. config_map es dns = Some e \<and>
        (if ep_enabled e then \<exists>i \<in> live (wd_tasks d). st = endpoint_status d (Enabled i) \<and> st \<noteq> StatusDisabled
         else st = StatusDisabled)"
    by blast
  moreover have "distinct (map fst (d_endpoints d))" using inv by (simp add: runner_inv_def entries_match_def)
  ultimately show ?thesis unfolding names set_names by blast
qed

text \<open>The status shows the configuration: after an update with a known key, the status lists each
  configured name once and nothing else, as disabled exactly when its configuration is disabled,
  and an enabled one with the connection counts of its own running task.\<close>

theorem status_shows_configuration:
  assumes "update_config env (Some c) key d = Ok d'" and "key \<noteq> None \<or> d_key d \<noteq> None"
    and "runner_inv d"
  shows "distinct (map fst (ds_endpoints (runner_status d'))) \<and>
    set (map fst (ds_endpoints (runner_status d'))) = set (map ep_dns (cfg_endpoints c)) \<and>
    (\<forall>(dns, st) \<in> set (ds_endpoints (runner_status d')).
       \<exists>e. config_map (cfg_endpoints c) dns = Some e \<and>
         (if ep_enabled e
          then \<exists>i \<in> live (wd_tasks d'). st = endpoint_status d' (Enabled i) \<and>
                 st \<noteq> StatusDisabled
          else st = StatusDisabled))"
proof (rule status_entries)
  have "d_key (keyed key d) \<noteq> None" using assms(2) by (auto simp: keyed_def split: option.splits)
  with assms(1) show "configured d' = config_map (cfg_endpoints c)" by (rule update_config_configured)
  show "runner_inv d'" using runner_inv_update_config [OF assms(1,3)] .
qed

theorem status_shows_configuration_witness:
  "set (map fst (ds_endpoints (runner_status demo_daemon))) = {''a.com''}"
  using status_shows_configuration [OF demo_update _ runner_inv_new]
  by (simp add: demo_config_def demo_endpoint_def)

text \<open>The task of an entry is new: it is none of the first \<open>n\<close>. It becomes so when the entry is replaced, and
  stays so.\<close>

definition fresh_entry :: "nat \<Rightarrow> string \<Rightarrow> daemon \<Rightarrow> bool" where
  "fresh_entry n dns d \<longleftrightarrow>
     (\<forall>inst i. map_of (d_endpoints d) dns = Some inst \<longrightarrow> ei_enabledisable inst = Enabled i \<longrightarrow> n \<le> i)"

lemma started_fresh:
  assumes "started en d (Enabled j) d'"
  shows "length (wd_tasks d) \<le> j"
proof (rule ccontr)
  assume short: "\<not> length (wd_tasks d) \<le> j"
  obtain ids where "mset ids = mset_set (live (wd_tasks d))" using ex_mset by blast
  then have ids: "owned ids (wd_tasks d)" by (simp add: owned_def)
  obtain ts where ts: "wd_tasks d' = wd_tasks d @ ts" using assms by (auto simp: started_def)
  have "owned (ids @ [j]) (wd_tasks d')" using started_daemon(6) [OF assms ids] by simp
  then have "j \<in> live (wd_tasks d')" "j \<notin> set ids" by (auto simp: owned_iff)
  with short ids show False by (simp add: owned_iff ts live_def nth_append)
qed

lemma apply_endpoint_kept:
  assumes "apply_endpoint env e d = Inr d'" and "ep_dns e \<noteq> dns \<or> configured d dns = Some e"
  shows "map_of (d_endpoints d') dns = map_of (d_endpoints d) dns"
proof (cases "ep_dns e = dns")
  case True
  with assms(2) obtain inst where "map_of (d_endpoints d) (ep_dns e) = Some inst" "ei_existing_config inst = e"
    by (auto simp: configured_def)
  with assms(1) have "d' = d" by (simp add: apply_endpoint_def)
  then show ?thesis by simp
next
  case False
  with apply_endpoint_other [OF assms(1), of dns] show ?thesis by simp
qed

lemma fresh_apply_endpoint:
  assumes "apply_endpoint env e d = Inr d'" and "n \<le> length (wd_tasks d)"
    and "fresh_entry n dns d \<or> ep_dns e = dns \<and> configured d dns \<noteq> Some e"
  shows "fresh_entry n dns d'"
proof (cases "ep_dns e = dns \<and> configured d dns \<noteq> Some e")
  case True
  with apply_endpoint_changed [OF assms(1)] obtain d0 ed d1 where
    "started (ep_enabled e) d0 ed d1" "d' = insert_endpoint e ed d1" "length (wd_tasks d0) = length (wd_tasks d)"
    by blast
  with True assms(2) started_fresh [of "ep_enabled e" d0 _ d1] show ?thesis by (fastforce simp: fresh_entry_def)
next
  case False
  then have "map_of (d_endpoints d') dns = map_of (d_endpoints d) dns"
    by (intro apply_endpoint_kept [OF assms(1)]) blast
  moreover from False assms(3) have "fresh_entry n dns d" by blast
  ultimately show ?thesis by (simp add: fresh_entry_def)
qed

lemma fresh_apply_endpoints:
  "apply_endpoints env es d = Inr d' \<Longrightarrow> n \<le> length (wd_tasks d) \<Longrightarrow>
   fresh_entry n dns d \<or> (\<exists>e \<in> set es. ep_dns e = dns \<and> configured d dns \<noteq> Some e) \<Longrightarrow> fresh_entry n dns d'"
proof (induction es arbitrary: d)
  case (Cons e es)
  then obtain d1 where 1: "apply_endpoint env e d = Inr d1" "apply_endpoints env es d1 = Inr d'"
    by (auto simp: and_then_Inr_iff)
  have len: "n \<le> length (wd_tasks d1)"
    using tasks_le_apply_endpoint [OF 1(1)] Cons.prems(2) by (simp add: tasks_le_def)
  show ?case
  proof (cases "fresh_entry n dns d \<or> ep_dns e = dns \<and> configured d dns \<noteq> Some e")
    case True
    from Cons.IH [OF 1(2) len] fresh_apply_endpoint [OF 1(1) Cons.prems(2) True] show ?thesis by blast
  next
    case False
    then have "map_of (d_endpoints d1) dns = map_of (d_endpoints d) dns"
      by (intro apply_endpoint_kept [OF 1(1)]) blast
    then have "configured d1 dns = configured d dns" by (simp add: configured_def)
    with Cons.IH [OF 1(2) len] Cons.prems(3) False show ?thesis by auto
  qed
qed simp

lemma enabled_entry:
  assumes "runner_inv d" "configured d dns = Some e" "ep_enabled e"
  obtains i where "map_of (d_endpoints d) dns = Some \<lparr>ei_enabledisable = Enabled i, ei_existing_config = e\<rparr>"
    "i \<in> live (wd_tasks d)"
proof -
  from assms(2) obtain inst where inst: "map_of (d_endpoints d) dns = Some inst" "ei_existing_config inst = e"
    by (auto simp: configured_def)
  have "is_enabled (ei_enabledisable inst)"
    using assms(1,3) map_of_SomeD [OF inst(1)] inst(2) by (fastforce simp: runner_inv_def entries_match_def)
  then obtain i where i: "ei_enabledisable inst = Enabled i" by (cases "ei_enabledisable inst") (auto simp: is_enabled_def)
  then have "inst = \<lparr>ei_enabledisable = Enabled i, ei_existing_config = e\<rparr>" using inst(2) by (cases inst) simp
  with inst(1) held_entry_live [OF assms(1) map_of_SomeD [OF inst(1)] i] show thesis by (intro that) simp_all
qed

text \<open>C39. A name that is configured more than once with different settings is restarted on every reload:
  when its last entry, which is the one in effect, is enabled and some other entry of the name differs
  from it, then loading the same configuration again stops the task that serves the name and starts a
  new one with the same settings, so the connections of that endpoint are torn down although nothing
  changed, whatever else is configured.\<close>

theorem duplicate_names_restart:
  assumes "update_config env (Some c) key d = Ok d'" and "key \<noteq> None \<or> d_key d \<noteq> None" and "runner_inv d"
    and "config_map (cfg_endpoints c) dns = Some e2" and "ep_enabled e2"
    and "e1 \<in> set (cfg_endpoints c)" and "ep_dns e1 = dns" and "e1 \<noteq> e2"
    and "update_config env (Some c) None d' = Ok d''"
  shows "\<exists>i j.
    map_of (d_endpoints d') dns = Some \<lparr>ei_enabledisable = Enabled i, ei_existing_config = e2\<rparr> \<and>
    i \<in> live (wd_tasks d') \<and> i \<notin> live (wd_tasks d'') \<and>
    map_of (d_endpoints d'') dns = Some \<lparr>ei_enabledisable = Enabled j, ei_existing_config = e2\<rparr> \<and>
    length (wd_tasks d') \<le> j \<and> j \<in> live (wd_tasks d'')"
proof -
  have key: "d_key (keyed key d) \<noteq> None" using assms(2) by (auto simp: keyed_def split: option.splits)
  then have key': "d_key (keyed None d') \<noteq> None" using update_config_meta [OF assms(1)] by (simp add: keyed_def)
  have conf: "configured d' dns = Some e2" "configured d'' dns = Some e2"
    using update_config_configured [OF assms(1) key] update_config_configured [OF assms(9) key'] assms(4) by simp_all
  have inv: "runner_inv d'" "runner_inv d''"
    using runner_inv_update_config assms(1,3,9) by blast+
  obtain i where i: "map_of (d_endpoints d') dns = Some \<lparr>ei_enabledisable = Enabled i, ei_existing_config = e2\<rparr>"
    "i \<in> live (wd_tasks d')" by (rule enabled_entry [OF inv(1) conf(1) assms(5)])
  obtain j where j: "map_of (d_endpoints d'') dns = Some \<lparr>ei_enabledisable = Enabled j, ei_existing_config = e2\<rparr>"
    "j \<in> live (wd_tasks d'')" by (rule enabled_entry [OF inv(2) conf(2) assms(5)])
  have "i \<notin> live (wd_tasks d'') \<and> length (wd_tasks d') \<le> j"
    using assms(9)
  proof (cases rule: update_config_cases)
    case (applied k c' kept d3 d4)
    have c: "c' = c" using applied(2) by simp
    have len: "length (wd_tasks d') \<le> length (wd_tasks d3)"
      using tasks_le_retain [OF applied(3)] by (simp add: tasks_le_def)
    have e3: "map_of (d_endpoints (d3\<lparr>d_endpoints := kept\<rparr>)) dns = Some \<lparr>ei_enabledisable = Enabled i, ei_existing_config = e2\<rparr>"
      using retain_endpoints_daemon [OF applied(3)] i(1) assms(6,7) by (auto simp: map_of_filter_fst c)
    have "i \<notin> live (wd_tasks d4)"
      by (rule apply_endpoints_stops [OF applied(4) e3])
        (use i(2) len assms(6-8) in \<open>auto simp: live_def c\<close>)
    moreover have "i < length (wd_tasks d4)"
      using i(2) len tasks_le_apply_endpoints [OF applied(4)] by (simp add: live_def tasks_le_def)
    ultimately have "i \<notin> live (wd_tasks d'')" using tasks_le_apply_ssh [OF applied(5)] by (simp add: tasks_le_def)
    moreover have "fresh_entry (length (wd_tasks d')) dns d4"
      by (rule fresh_apply_endpoints [OF applied(4)])
        (use len assms(6-8) e3 in \<open>auto simp: configured_def c\<close>)
    ultimately show ?thesis using j(1) apply_ssh_endpoints [OF applied(5)] by (auto simp: fresh_entry_def)
  qed (use key' in auto)
  with i j show ?thesis by blast
qed

text \<open>In the witness the name is configured three times, once with another port, beside another name.\<close>

definition demo_twice :: daemon_config where
  "demo_twice = \<lparr>cfg_endpoints = [demo_endpoint, demo_endpoint\<lparr>ep_dns := ''b.com''\<rparr>, demo_endpoint\<lparr>ep_port := 81\<rparr>,
     demo_endpoint], cfg_ssh = None, cfg_loglevel = None\<rparr>"

theorem duplicate_names_restart_witness:
  "\<exists>d' d'' i. update_config demo_env (Some demo_twice) (Some ''k'') daemon_new = Ok d' \<and>
     update_config demo_env (Some demo_twice) None d' = Ok d'' \<and>
     i \<in> live (wd_tasks d') \<and> i \<notin> live (wd_tasks d'')"
proof -
  have ok: "\<exists>d'. update_config demo_env (Some demo_twice) key d = Ok d'" for key d
    by (rule update_config_total)
      (simp add: demo_twice_def demo_endpoint_def endpoint_resolves_def resolves_def demo_env_def)
  obtain d' d'' where u: "update_config demo_env (Some demo_twice) (Some ''k'') daemon_new = Ok d'"
    "update_config demo_env (Some demo_twice) None d' = Ok d''"
    using ok by metis
  have "\<exists>i. i \<in> live (wd_tasks d') \<and> i \<notin> live (wd_tasks d'')"
    using duplicate_names_restart [OF u(1) _ runner_inv_new _ _ _ _ _ u(2), of "''a.com''" demo_endpoint
        "demo_endpoint\<lparr>ep_port := 81\<rparr>"] by (auto simp: demo_twice_def demo_endpoint_def config_map_def)
  with u show ?thesis by blast
qed

end
