(* ===== verification/Runner_Spec.thy ===== *)
theory Runner_Spec
  imports Runner_Props
begin

text \<open>
  What the daemon of theory \<open>Runner\<close> is for, as a specification: a configuration asks for a collection of
  running tasks, each described by the arguments it is to be started with. \<open>update_config\<close> refines
  it: the state is abstracted to the arguments of the tasks that run.
\<close>

section \<open>Specification\<close>

definition endpoint_task_args :: "endpoint \<Rightarrow> endpoint_args" where
  "endpoint_task_args e =
     \<lparr>ea_ctype = Tls, ea_idleconns = min (ucast (ep_maxidle e)) 1000, ea_maxconns = ucast (ep_maxconns e),
      ea_endpoint = ep_dns e, ea_port = ep_port e, ea_healthcheck = ep_healthcheck e\<rparr>"

definition ssh_task_args :: "ssh_configuration \<Rightarrow> endpoint_args" where
  "ssh_task_args sc =
     \<lparr>ea_ctype = Ssh, ea_idleconns = min (sc_maxidle sc) 1000, ea_maxconns = sc_max sc,
      ea_endpoint = sc_hostname sc, ea_port = sc_port sc, ea_healthcheck = None\<rparr>"

definition wanted_ssh :: "env \<Rightarrow> ssh option \<Rightarrow> endpoint_args multiset" where
  "wanted_ssh env s = (case s of
     None \<Rightarrow> {#}
   | Some cfg \<Rightarrow> (case ssh_configuration_of env cfg of
       Inr sc \<Rightarrow> if sc_enabled sc then {#ssh_task_args sc#} else {#}
     | Inl _ \<Rightarrow> {#}))"

definition wanted :: "env \<Rightarrow> daemon_config \<Rightarrow> endpoint_args multiset" where
  "wanted env c = mset (map endpoint_task_args (filter ep_enabled (cfg_endpoints c))) + wanted_ssh env (cfg_ssh c)"

text \<open>The abstraction: the arguments of the running tasks.\<close>

definition running :: "daemon \<Rightarrow> endpoint_args multiset" where
  "running d = image_mset (\<lambda>i. tk_args (wd_tasks d ! i)) (mset_set (live (wd_tasks d)))"

section \<open>Tasks run with the arguments of their configuration\<close>

definition runs_with :: "task list \<Rightarrow> enabled_disabled \<Rightarrow> endpoint_args \<Rightarrow> bool" where
  "runs_with ts ed args \<longleftrightarrow> (\<forall>i \<in> set (ed_ids ed). i < length ts \<and> tk_args (ts ! i) = args)"

definition args_inv :: "daemon \<Rightarrow> bool" where
  "args_inv d \<longleftrightarrow>
     (\<forall>(dns, inst) \<in> set (d_endpoints d).
        runs_with (wd_tasks d) (ei_enabledisable inst) (endpoint_task_args (ei_existing_config inst))) \<and>
     (\<forall>inst. d_ssh d = Some inst \<longrightarrow>
        runs_with (wd_tasks d) (si_enabledisable inst) (ssh_task_args (si_existing_config inst)))"

definition daemon_ok :: "daemon \<Rightarrow> bool" where
  "daemon_ok d \<longleftrightarrow> runner_inv d \<and> args_inv d"

lemma runs_with_le: "runs_with ts ed args \<Longrightarrow> tasks_le ts ts' \<Longrightarrow> runs_with ts' ed args"
  by (auto simp: runs_with_def tasks_le_def)

lemma args_inv_le:
  assumes "args_inv d" "tasks_le (wd_tasks d) (wd_tasks d')" "set (d_endpoints d') \<subseteq> set (d_endpoints d)"
    and "d_ssh d' = d_ssh d"
  shows "args_inv d'"
  using assms(1,3,4) runs_with_le [OF _ assms(2)] unfolding args_inv_def by auto blast

lemma spawned_runs_with:
  assumes "spawn_endpoint env args d = Inr (i, d')"
  shows "runs_with (wd_tasks d') (Enabled i) (args\<lparr>ea_idleconns := min (ea_idleconns args) MAX_IDLE\<rparr>)"
  using spawn_endpoint_Inr [OF assms] by (auto simp: runs_with_def)

lemma start_endpoint_runs_with:
  assumes "start_endpoint env e d = Inr (ed, d')"
  shows "runs_with (wd_tasks d') ed (endpoint_task_args e)"
proof -
  have "min (ucast (min (ep_maxidle e) (of_nat MAX_MAX_IDLE))) MAX_IDLE = min (ucast (ep_maxidle e)) MAX_IDLE"
    by (simp add: ucast_min MAX_IDLE_def MAX_MAX_IDLE_def)
  with assms show ?thesis
    by (auto simp: start_endpoint_def spawn_endpointasdfsfa_def Let_def and_then_Inr_iff endpoint_task_args_def
        MAX_IDLE_def split: if_splits dest!: spawned_runs_with) (simp add: runs_with_def)
qed

lemma start_ssh_runs_with:
  "start_ssh env sc d = Inr (ed, d') \<Longrightarrow> runs_with (wd_tasks d') ed (ssh_task_args sc)"
  by (auto simp: start_ssh_def and_then_Inr_iff ssh_task_args_def MAX_IDLE_def split: if_splits
      dest!: spawned_runs_with) (simp add: runs_with_def)

lemma args_inv_insert:
  assumes "args_inv d" "tasks_le (wd_tasks d) (wd_tasks d')" "d_endpoints d' = d_endpoints d" "d_ssh d' = d_ssh d"
    and "runs_with (wd_tasks d') ed (endpoint_task_args e)"
  shows "args_inv (insert_endpoint e ed d')"
proof -
  have "args_inv d'" by (rule args_inv_le [OF assms(1,2)]) (simp_all add: assms(3,4))
  with assms(5) set_entry_insert [of "ep_dns e" "\<lparr>ei_enabledisable = ed, ei_existing_config = e\<rparr>" "d_endpoints d'"]
  show ?thesis by (auto simp: args_inv_def)
qed

lemma args_inv_start:
  assumes "args_inv d" "start_endpoint env e d = Inr (ed, d')"
  shows "args_inv (insert_endpoint e ed d')"
proof -
  note st = started_endpoint [OF assms(2)]
  show ?thesis
    using tasks_le_started [OF st] started_daemon(1,2) [OF st] start_endpoint_runs_with [OF assms(2)]
    by (rule args_inv_insert [OF assms(1)])
qed

lemma args_inv_stop: "args_inv d \<Longrightarrow> args_inv (ed_stop ed d)"
  by (rule args_inv_le [OF _ tasks_le_ed_stop]) simp_all

lemma args_inv_apply_endpoint:
  "apply_endpoint env e d = Inr d' \<Longrightarrow> args_inv d \<Longrightarrow> args_inv d'"
  by (auto simp: apply_endpoint_def and_then_Inr_iff split: option.splits if_splits
      intro: args_inv_start args_inv_stop)

lemma args_inv_apply_endpoints:
  "apply_endpoints env es d = Inr d' \<Longrightarrow> args_inv d \<Longrightarrow> args_inv d'"
  by (induction es arbitrary: d) (auto simp: and_then_Inr_iff intro: args_inv_apply_endpoint)

lemma args_inv_apply_ssh:
  assumes "apply_ssh env cfg d = Inr d'" "args_inv d"
  shows "args_inv d'"
proof -
  have stop: "args_inv (stop_ssh d)"
    using assms(2) by (auto simp: stop_ssh_def args_inv_stop split: option.splits)
  have start: "args_inv (d1\<lparr>d_ssh := Some \<lparr>si_existing_config = sc, si_enabledisable = ed\<rparr>\<rparr>)"
    if "start_ssh env sc (stop_ssh d) = Inr (ed, d1)" for sc ed d1
  proof -
    note st = started_ssh [OF that]
    have "args_inv d1"
      by (rule args_inv_le [OF stop tasks_le_started [OF st]]) (simp_all add: started_daemon(1,2) [OF st])
    with start_ssh_runs_with [OF that] show ?thesis by (simp add: args_inv_def)
  qed
  have drop: "args_inv ((ed_stop ed d)\<lparr>d_ssh := None\<rparr>)" for ed
    using args_inv_stop [OF assms(2), of ed] by (simp add: args_inv_def)
  from assms show ?thesis
    by (auto simp: apply_ssh_def and_then_Inr_iff split: option.splits if_splits intro: start drop)
qed

lemma args_inv_update:
  "args_inv (d\<lparr>d_statusmeta := m\<rparr>) = args_inv d" "args_inv (keyed key d) = args_inv d"
  "args_inv (log_message env s d) = args_inv d"
  by (simp_all add: args_inv_def keyed_def split: option.splits)

lemma args_inv_update_config:
  assumes "update_config env config key d = Inr d'" "args_inv d"
  shows "args_inv d'"
  using assms(1)
proof (cases rule: update_config_cases)
  case (applied k c kept d3 d4)
  let ?d = "(keyed key d)\<lparr>d_statusmeta := Good\<rparr>"
  note r = retain_endpoints_daemon [OF applied(3)]
  have "args_inv ?d" using assms(2) by (simp add: args_inv_update)
  then have "args_inv (d3\<lparr>d_endpoints := kept\<rparr>)"
  proof (rule args_inv_le)
    show "d_ssh (d3\<lparr>d_endpoints := kept\<rparr>) = d_ssh ?d" using r daemon_more_eq(2) [of d3 ?d] by simp
  qed (use r tasks_le_retain [OF applied(3)] in auto)
  then show ?thesis using applied args_inv_apply_endpoints args_inv_apply_ssh by blast
qed (use assms(2) in \<open>simp_all add: args_inv_update\<close>)

lemma daemon_ok_new: "daemon_ok daemon_new"
  unfolding daemon_ok_def by (intro conjI runner_inv_new) (simp add: args_inv_def daemon_new_def)

lemma daemon_ok_update_config: "update_config env config key d = Inr d' \<Longrightarrow> daemon_ok d \<Longrightarrow> daemon_ok d'"
  by (auto simp: daemon_ok_def intro: runner_inv_update_config args_inv_update_config)

interpretation ok_daemon: daemon_invariant daemon_ok
proof
  show "daemon_ok daemon_new" by (rule daemon_ok_new)
qed (auto simp: daemon_ok_def submit_error_message_def runner_inv_update args_inv_update
    intro: runner_inv_update_config args_inv_update_config)

section \<open>Refinement\<close>

lemma running_held:
  "runner_inv d \<Longrightarrow> running d = mset (map (\<lambda>i. tk_args (wd_tasks d ! i)) (held_ids d))"
  by (simp add: running_def runner_inv_owned owned_def)

lemma args_of_instance:
  assumes "runs_with ts ed args" "is_enabled ed = en"
  shows "map (\<lambda>i. tk_args (ts ! i)) (ed_ids ed) = (if en then [args] else [])"
  using assms by (cases ed) (auto simp: runs_with_def is_enabled_def)

abbreviation configs :: "(string \<times> endpoint_instance) list \<Rightarrow> endpoint list" where
  "configs es \<equiv> map (\<lambda>p. ei_existing_config (snd p)) es"

lemma args_of_entries:
  assumes "\<forall>(dns, inst) \<in> set es. is_enabled (ei_enabledisable inst) = ep_enabled (ei_existing_config inst) \<and>
      runs_with ts (ei_enabledisable inst) (endpoint_task_args (ei_existing_config inst))"
  shows "map (\<lambda>i. tk_args (ts ! i)) (entry_ids es) = map endpoint_task_args (filter ep_enabled (configs es))"
  using assms
proof (induction es)
  case (Cons p es)
  then show ?case
    using args_of_instance [of ts "ei_enabledisable (snd p)"]
    by (cases p) (auto simp: entry_ids_def)
qed (simp add: entry_ids_def)

lemma distinct_mapD: "distinct (map f xs) \<Longrightarrow> distinct xs"
  by (simp add: distinct_map)

lemma configs_of_configured:
  assumes "configured d = config_map es" "entries_match (d_endpoints d)" "distinct (map ep_dns es)"
  shows "mset (configs (d_endpoints d)) = mset es"
proof -
  have name: "fst p = ep_dns (ei_existing_config (snd p))" if "p \<in> set (d_endpoints d)" for p
    using assms(2) that by (auto simp: entries_match_def)
  then have "map ep_dns (configs (d_endpoints d)) = map fst (d_endpoints d)" by simp
  then have dist: "distinct (map ep_dns (configs (d_endpoints d)))" using assms(2) by (simp only: entries_match_def)
  have "e \<in> set (configs (d_endpoints d)) \<longleftrightarrow> configured d (ep_dns e) = Some e" for e
  proof
    assume "e \<in> set (configs (d_endpoints d))"
    then obtain p where p: "p \<in> set (d_endpoints d)" "e = ei_existing_config (snd p)" by auto
    then have "map_of (d_endpoints d) (fst p) = Some (snd p)"
      using assms(2) by (intro map_of_is_SomeI) (auto simp: entries_match_def)
    with p name [OF p(1)] show "configured d (ep_dns e) = Some e" by (simp add: configured_def)
  next
    assume "configured d (ep_dns e) = Some e"
    then obtain inst where "map_of (d_endpoints d) (ep_dns e) = Some inst" "e = ei_existing_config inst"
      by (auto simp: configured_def)
    from map_of_SomeD [OF this(1)] this(2) show "e \<in> set (configs (d_endpoints d))" by force
  qed
  moreover have "e \<in> set es \<longleftrightarrow> config_map es (ep_dns e) = Some e" for e
    using config_map_distinct [OF assms(3)] by (auto simp: config_map_def dest: map_of_SomeD)
  ultimately have "set (configs (d_endpoints d)) = set es" using assms(1) by auto
  then show ?thesis
    using set_eq_iff_mset_eq_distinct [OF distinct_mapD [OF dist] distinct_mapD [OF assms(3)]] by blast
qed

lemma wanted_ssh_args:
  assumes "daemon_ok d" and "case s of None \<Rightarrow> d_ssh d = None
    | Some c \<Rightarrow> \<exists>inst. d_ssh d = Some inst \<and> ssh_configuration_of env c = Inr (si_existing_config inst)"
  shows "mset (map (\<lambda>i. tk_args (wd_tasks d ! i)) (ssh_ids (d_ssh d))) = wanted_ssh env s"
proof (cases s)
  case (Some c)
  with assms(2) obtain inst where i: "d_ssh d = Some inst" "ssh_configuration_of env c = Inr (si_existing_config inst)"
    by auto
  have "map (\<lambda>i. tk_args (wd_tasks d ! i)) (ed_ids (si_enabledisable inst)) =
      (if sc_enabled (si_existing_config inst) then [ssh_task_args (si_existing_config inst)] else [])"
    using assms(1) i(1)
    by (intro args_of_instance) (auto simp: daemon_ok_def runner_inv_def args_inv_def ssh_match_def)
  then have "mset (map (\<lambda>i. tk_args (wd_tasks d ! i)) (ed_ids (si_enabledisable inst))) = wanted_ssh env s"
    by (simp only: mset.simps wanted_ssh_def Some i option.case sum.case split: if_split) simp
  with i(1) show ?thesis by (simp add: ssh_ids_def)
qed (use assms in \<open>auto simp: ssh_ids_def wanted_ssh_def\<close>)

lemma running_configured:
  assumes "daemon_ok d" "configured d = config_map (cfg_endpoints c)" "distinct (map ep_dns (cfg_endpoints c))"
    and "case cfg_ssh c of None \<Rightarrow> d_ssh d = None
      | Some s \<Rightarrow> \<exists>inst. d_ssh d = Some inst \<and> ssh_configuration_of env s = Inr (si_existing_config inst)"
  shows "running d = wanted env c"
proof -
  have inv: "runner_inv d" and em: "entries_match (d_endpoints d)" and args: "args_inv d"
    using assms(1) by (auto simp: daemon_ok_def runner_inv_def)
  have "mset (map (\<lambda>i. tk_args (wd_tasks d ! i)) (entry_ids (d_endpoints d))) =
      image_mset endpoint_task_args (filter_mset ep_enabled (mset (configs (d_endpoints d))))"
    by (subst args_of_entries) (use em args in \<open>auto simp: entries_match_def args_inv_def mset_filter\<close>)
  also have "\<dots> = image_mset endpoint_task_args (filter_mset ep_enabled (mset (cfg_endpoints c)))"
    by (simp only: configs_of_configured [OF assms(2) em assms(3)])
  finally show ?thesis
    using wanted_ssh_args [OF assms(1,4)]
    by (simp add: running_held [OF inv] held_ids_def wanted_def)
qed

lemma update_config_running:
  assumes "update_config env (Some c) key d = Inr d'" "d_key (keyed key d) \<noteq> None" "daemon_ok d"
    and "distinct (map ep_dns (cfg_endpoints c))"
  shows "running d' = wanted env c"
  using daemon_ok_update_config [OF assms(1,3)] update_config_configured [OF assms(1,2)] assms(4)
    update_config_ssh [OF assms(1,2)]
  by (rule running_configured)

section \<open>Properties\<close>

text \<open>C2. The daemon runs what the configuration asks for: after any sequence of reloads from the start, an
  update with a known key and distinct names leaves exactly one running task for each enabled
  endpoint, and one for SSH when it is enabled, each started with the arguments of its configuration
  (idle connections limited to 1000), and nothing else is running.\<close>

theorem update_config_refines:
  assumes "run_daemon env dbg rs daemon_new = Ok d" and "update_config env (Some c) key d = Ok d'"
    and "key \<noteq> None \<or> d_key d \<noteq> None" and "distinct (map ep_dns (cfg_endpoints c))"
  shows "running d' = wanted env c"
proof -
  have "d_key (keyed key d) \<noteq> None" using assms(3) by (auto simp: keyed_def split: option.splits)
  with assms(2,4) ok_daemon.inv_from_start [OF assms(1)] show ?thesis
    by (simp add: update_config_running)
qed

theorem update_config_refines_witness:
  "\<exists>d'. update_config demo_env (Some (demo_config\<lparr>cfg_endpoints := demo_endpoint\<lparr>ep_dns := ''b.com''\<rparr> # cfg_endpoints demo_config\<rparr>))
      None demo_daemon = Ok d' \<and>
    running d' = {#endpoint_task_args (demo_endpoint\<lparr>ep_dns := ''b.com''\<rparr>), endpoint_task_args demo_endpoint#}"
proof -
  let ?c = "demo_config\<lparr>cfg_endpoints := demo_endpoint\<lparr>ep_dns := ''b.com''\<rparr> # cfg_endpoints demo_config\<rparr>"
  obtain d' where u: "update_config demo_env (Some ?c) None demo_daemon = Ok d'"
    using update_config_total [of "Some ?c" demo_env None demo_daemon]
    by (auto simp: demo_config_def demo_endpoint_def endpoint_resolves_def resolves_def demo_env_def)
  have "run_daemon demo_env (\<lambda>_. []) [Inr (Some demo_config, Some ''k'')] daemon_new = Ok demo_daemon"
    by (simp add: reload_step_def demo_update)
  from update_config_refines [OF this u] have "running d' = wanted demo_env ?c"
    using demo_daemon_entries(2) by (simp add: demo_config_def demo_endpoint_def)
  with u show ?thesis by (simp add: wanted_def wanted_ssh_def demo_config_def demo_endpoint_def)
qed

end
