(* ===== verification/Info_Server.thy ===== *)
theory Info_Server
  imports Runner
begin

text \<open>
  The daemon's info server, \<open>src/src/infoserver.rs\<close>: the handler of a request and the loop that binds a
  port, writes the address to its file and serves. The JSON codec of \<open>serde_json\<close> is a parameter with a
  round-trip law. What the operating system does in each round of the loop is an input: the port it
  gives, or an error, and whether the server ends.
\<close>

record json =
  json_to_string :: "daemon_status \<Rightarrow> string option"
  json_from_string :: "string \<Rightarrow> daemon_status option"

definition json_roundtrip :: "json \<Rightarrow> bool" where
  "json_roundtrip j \<longleftrightarrow> (\<forall>d s. json_to_string j d = Some s \<longrightarrow> json_from_string j s = Some d)"

record response =
  rs_status :: nat
  rs_body :: string

definition handle :: "json \<Rightarrow> string \<Rightarrow> daemon \<Rightarrow> response" where
  "handle j path runner =
     (if path = ''/unstable_status'' then
        (case json_to_string j (runner_status runner) of
           Some serialized \<Rightarrow> \<lparr>rs_status = 200, rs_body = serialized\<rparr>
         | None \<Rightarrow> \<lparr>rs_status = 500, rs_body = ''Error getting status''\<rparr>)
      else \<lparr>rs_status = 400, rs_body = ''Invalid Request''\<rparr>)"

record serve_round =
  sr_bind :: "io_error + u16"
  sr_ends :: bool

datatype info_event = BindError | WriteError | Serving socket_addr_v4

definition server_addr :: "u16 \<Rightarrow> socket_addr_v4" where
  "server_addr port = \<lparr>sa_ip = (127, 0, 0, 1), sa_port = port\<rparr>"

text \<open>The loop; with the last round it is either still serving or starts over.\<close>

fun run_info_server :: "host \<Rightarrow> serve_round list \<Rightarrow> fs \<Rightarrow> info_event list \<times> fs" where
  "run_info_server h [] w = ([], w)"
| "run_info_server h (r # rs) w = (case sr_bind r of
     Inl e \<Rightarrow> (let (evs, w') = run_info_server h rs w in (BindError # evs, w'))
   | Inr port \<Rightarrow>
       (case write_addr h (show_addr (server_addr port)) w of
          (Inl e, w1) \<Rightarrow> (let (evs, w') = run_info_server h rs w1 in (WriteError # evs, w'))
        | (Inr _, w1) \<Rightarrow>
            if sr_ends r then (let (evs, w') = run_info_server h rs w1 in (Serving (server_addr port) # evs, w'))
            else ([Serving (server_addr port)], w1)))"

section \<open>Properties\<close>

lemma write_addr_then_read:
  assumes "write_addr h (show_addr a) w = (Inr u, w')" "fs_read_fault w (addr_file_full h) = None"
  shows "read_addr h w' = Ok a"
proof -
  have wr: "fs_write (addr_file_full h) (show_addr a) w = (Inr (), w')"
    using assms(1) by (auto simp: write_addr_def split: prod.splits)
  from fs_read_after_write [OF wr assms(2)] show ?thesis by (simp add: read_addr_def show_addr_hd_last)
qed

lemma write_addr_faults: "write_addr h s w = (r, w') \<Longrightarrow> fs_read_fault w' = fs_read_fault w"
  by (auto simp: write_addr_def fs_write_def split: prod.splits option.splits)

lemma run_info_server_Nil: "run_info_server h rs w = ([], w') \<Longrightarrow> w' = w"
  by (cases rs) (auto split: sum.splits prod.splits if_splits)

text \<open>The last event decides what is in the file.\<close>

lemma run_info_server_published:
  assumes "run_info_server h rs w = (evs, w')" "fs_read_fault w (addr_file_full h) = None"
    and "evs \<noteq> []" "last evs = Serving a"
  shows "read_addr h w' = Ok a"
  using assms
  by (induction h rs w arbitrary: evs rule: run_info_server.induct)
    (auto split: sum.splits prod.splits if_splits simp: write_addr_faults
      dest: write_addr_then_read dest!: run_info_server_Nil)

text \<open>The address file points to the server: however many attempts to bind or to write the file failed
  before, when the last thing that happened is that the server serves on an address, that address is
  what \<open>read_addr\<close> returns.\<close>

theorem info_server_address:
  assumes "run_info_server h rs w = (evs, w')" and "evs \<noteq> []" and "last evs = Serving a"
    and "fs_read_fault w (addr_file_full h) = None"
  shows "read_addr h w' = Ok a"
  using run_info_server_published [OF assms(1,4)] assms(2,3) by blast

theorem info_server_address_witness:
  "read_addr demo_host (snd (run_info_server demo_host
     [\<lparr>sr_bind = Err io_not_found, sr_ends = False\<rparr>, \<lparr>sr_bind = Ok 4711, sr_ends = False\<rparr>] demo_fs)) = Ok (server_addr 4711)"
  by (rule info_server_address [OF prod.collapse [symmetric] _ _ demo_read_fault])
    (simp_all add: write_addr_def demo_fs_write)

text \<open>What a request gets: the status page answers 200 with the serialized status, or 500 when it
  cannot be serialized, and every other path answers 400 and shows nothing of the daemon.\<close>

theorem handle_answers:
  "(rs_status (handle j path d) = 200 \<longleftrightarrow> path = ''/unstable_status'' \<and> json_to_string j (runner_status d) \<noteq> None) \<and>
   (rs_status (handle j path d) = 500 \<longleftrightarrow> path = ''/unstable_status'' \<and> json_to_string j (runner_status d) = None) \<and>
   (rs_status (handle j path d) = 400 \<longleftrightarrow> path \<noteq> ''/unstable_status'') \<and>
   (path \<noteq> ''/unstable_status'' \<longrightarrow> handle j path d = handle j path d')"
  by (auto simp: handle_def split: option.splits)

definition demo_json :: json where
  "demo_json = \<lparr>json_to_string = (\<lambda>d. if d = runner_status daemon_new then Some ''{}'' else None),
     json_from_string = (\<lambda>s. if s = ''{}'' then Some (runner_status daemon_new) else None)\<rparr>"

lemma demo_json_roundtrip: "json_roundtrip demo_json"
  by (simp add: json_roundtrip_def demo_json_def)

theorem handle_answers_witness:
  "handle demo_json ''/'' daemon_new = handle demo_json ''/'' (daemon_new\<lparr>d_key := Some ''k''\<rparr>)"
  using handle_answers [of demo_json "''/''" daemon_new] by simp

end
