(* ===== verification/Daemon_Main.thy ===== *)
theory Daemon_Main
  imports Runner_Spec Shared_Info
begin

text \<open>
  The daemon's main program, \<open>src/src/ebbflowd.rs\<close>: reading the configuration and the key, the log level,
  the file watcher with its notifications, and the start of \<open>realmain\<close>.

  The watcher and the reload loop of \<open>run_daemon\<close> run concurrently and meet in a \<open>tokio::sync::Notify\<close>,
  which is a parameter; \<open>notify_laws\<close> is its documented behaviour. A step of the system is a change of
  the files, which leaves an event for the watcher, or a step of the daemon: the callback of the watcher
  taking an event, or the loop reading the configuration, reading the key, applying both, or waking up.
\<close>

section \<open>Reading the files\<close>

definition reload_config :: "yaml \<Rightarrow> host \<Rightarrow> fs \<Rightarrow> config_error + daemon_config option" where
  "reload_config y h w = (case load_from_file y h w of
     Inr c \<Rightarrow> Ok (Some c)
   | Inl e \<Rightarrow> if e = Empty then Ok None else Err e)"

definition reload_key :: "host \<Rightarrow> fs \<Rightarrow> config_error + string option" where
  "reload_key h w = (case getkey h w of
     Inr k \<Rightarrow> Ok (Some k)
   | Inl e \<Rightarrow> if e = Empty \<or> e = FileNotFound then Ok None else Err e)"

text \<open>The two files are read one after the other; here nothing happens in between.\<close>

definition config_reload ::
    "yaml \<Rightarrow> host \<Rightarrow> fs \<Rightarrow> config_error + (daemon_config option \<times> string option)" where
  "config_reload y h w =
     and_then (reload_config y h w) (\<lambda>cfg. and_then (reload_key h w) (\<lambda>key. Ok (cfg, key)))"

lemmas reloads = config_reload_def reload_config_def reload_key_def

text \<open>\<open>level_of\<close> is \<open>LevelFilter::from_str\<close> of the \<open>log\<close> crate and \<open>ebb_log_level\<close> the environment variable
  \<open>EBB_LOG_LEVEL\<close>.\<close>

datatype level_filter = LevelOff | LevelError | LevelWarn | LevelInfo | LevelDebug | LevelTrace

definition DEFAULT_LEVEL :: level_filter where "DEFAULT_LEVEL = LevelWarn"

definition determine_log_level ::
    "(string \<Rightarrow> level_filter option) \<Rightarrow> yaml \<Rightarrow> host \<Rightarrow> string option \<Rightarrow> fs \<Rightarrow> level_filter" where
  "determine_log_level level_of y h ebb_log_level w =
     (let leveloption = (case ebb_log_level of
            Some l \<Rightarrow> Some l
          | None \<Rightarrow> (case config_reload y h w of Inr (Some cfg, _) \<Rightarrow> cfg_loglevel cfg | _ \<Rightarrow> None))
      in case leveloption of
           Some s \<Rightarrow> (case level_of s of Some lf \<Rightarrow> lf | None \<Rightarrow> DEFAULT_LEVEL)
         | None \<Rightarrow> DEFAULT_LEVEL)"

section \<open>Start\<close>

text \<open>The outcomes of the three calls of the watcher (the debug form of an error, if any), the environment
  variables of the overrides, and the debug form of a parse error.\<close>

record start_env =
  se_watcher_new :: "string option"
  se_watcher_configure :: "string option"
  se_watcher_watch :: "string option"
  se_ebb_addr :: "string option"
  se_ebb_dns :: "string option"
  se_build :: "resolver_config \<Rightarrow> resolver option"
  se_debug_parse :: string

definition guard_error :: "string \<Rightarrow> string option \<Rightarrow> string + unit" where
  "guard_error m r = (case r of Some e \<Rightarrow> Err (m @ e) | None \<Rightarrow> Ok ())"

definition realmain_start :: "start_env \<Rightarrow> 'roots \<Rightarrow> string + 'roots shared_info" where
  "realmain_start se roots =
     and_then (guard_error ''Error creating new file watcher '' (se_watcher_new se)) (\<lambda>_.
     and_then (guard_error ''Unable to set file event configuration options (precise) '' (se_watcher_configure se)) (\<lambda>_.
     and_then (guard_error ''Unable to set file event configuration options '' (se_watcher_watch se)) (\<lambda>_.
       case (se_ebb_addr se, se_ebb_dns se) of
         (Some addr, Some dns) \<Rightarrow>
           (case parse_addr addr of
              None \<Rightarrow> Err (''Error creating ipv4 addr from overriden value '' @ addr @ '' '' @ se_debug_parse se)
            | Some a \<Rightarrow> map_err (\<lambda>_. ''Error creating daemon settings ()'')
                (new_with_ebbflow_overrides (se_build se) a dns roots))
       | _ \<Rightarrow> map_err (\<lambda>_. ''Error creating daemon settings ()'') (shared_info_new (se_build se) roots))))"

section \<open>The watcher and the reload loop\<close>

datatype event_kind = EvAccess | EvCreate | EvModify | EvRemove | EvOther

record 'n notifier =
  nt_new :: 'n
  nt_notify :: "'n \<Rightarrow> 'n"
  nt_notified :: "'n \<Rightarrow> 'n option"

text \<open>\<open>notified().await\<close> goes on exactly when a notification is pending, and takes it; notifications that
  come while one is pending are not counted.\<close>

definition notify_laws :: "'n notifier \<Rightarrow> ('n \<Rightarrow> bool) \<Rightarrow> bool" where
  "notify_laws ops pending \<longleftrightarrow>
     \<not> pending (nt_new ops) \<and>
     (\<forall>n. pending (nt_notify ops n)) \<and>
     (\<forall>n. case nt_notified ops n of
        None \<Rightarrow> \<not> pending n
      | Some n' \<Rightarrow> pending n \<and> \<not> pending n')"

text \<open>The callback of the watcher; an error of the watcher is a panic.\<close>

definition on_event :: "'n notifier \<Rightarrow> string + event_kind \<Rightarrow> 'n \<Rightarrow> panic + 'n" where
  "on_event ops res n = (case res of
     Inr kind \<Rightarrow> if kind = EvCreate \<or> kind = EvModify then Ok (nt_notify ops n) else Ok n
   | Inl e \<Rightarrow> Err UnwrapFailed)"

text \<open>Where the loop of \<open>run_daemon\<close> is: about to read the files, between the configuration and the key,
  holding what it read, or waiting. The changes of the files that the watcher has not handled yet are
  \<open>sy_events\<close>, oldest first. Two fields are for the proofs only: what was read last, and whether a file
  was removed since the last reading began.\<close>

type_synonym reload_result = "config_error + (daemon_config option \<times> string option)"

datatype reload_loop = AboutToRead | ReadKey "daemon_config option" | HasRead reload_result | WaitNotify

record 'n system =
  sy_fs :: fs
  sy_events :: "event_kind list"
  sy_notify :: 'n
  sy_loop :: reload_loop
  sy_daemon :: daemon
  sy_last :: "reload_result option"
  sy_removed :: bool

definition system_start :: "'n notifier \<Rightarrow> fs \<Rightarrow> 'n system" where
  "system_start ops w = \<lparr>sy_fs = w, sy_events = [], sy_notify = nt_new ops, sy_loop = AboutToRead,
     sy_daemon = daemon_new, sy_last = None, sy_removed = False\<rparr>"

text \<open>Other processes change the files. A change leaves an event, which is a creation, a modification or a
  removal; a write in several pieces is several changes. Other events come without a change.\<close>

inductive files_step :: "'n system \<Rightarrow> 'n system \<Rightarrow> bool" where
  change:
    "w = sy_fs S \<or> kind \<in> {EvCreate, EvModify, EvRemove} \<Longrightarrow>
     files_step S (S\<lparr>sy_fs := w, sy_events := sy_events S @ [kind],
       sy_removed := (sy_removed S \<or> kind = EvRemove)\<rparr>)"

text \<open>The daemon's own steps: the watcher's thread, and the reload loop.\<close>

inductive daemon_step ::
    "'n notifier \<Rightarrow> yaml \<Rightarrow> host \<Rightarrow> env \<Rightarrow> (config_error \<Rightarrow> string) \<Rightarrow> 'n system \<Rightarrow> 'n system \<Rightarrow> bool"
  for ops y h env dbg where
  deliver:
    "sy_events S = kind # es \<Longrightarrow> on_event ops (Ok kind) (sy_notify S) = Ok n \<Longrightarrow>
     daemon_step ops y h env dbg S (S\<lparr>sy_events := es, sy_notify := n\<rparr>)"
| read_config:
    "sy_loop S = AboutToRead \<Longrightarrow> reload_config y h (sy_fs S) = Ok c \<Longrightarrow>
     daemon_step ops y h env dbg S (S\<lparr>sy_loop := ReadKey c, sy_removed := False\<rparr>)"
| read_config_fails:
    "sy_loop S = AboutToRead \<Longrightarrow> reload_config y h (sy_fs S) = Err e \<Longrightarrow>
     daemon_step ops y h env dbg S (S\<lparr>sy_loop := HasRead (Err e), sy_last := Some (Err e), sy_removed := False\<rparr>)"
| read_key:
    "sy_loop S = ReadKey c \<Longrightarrow> r = and_then (reload_key h (sy_fs S)) (\<lambda>key. Ok (c, key)) \<Longrightarrow>
     daemon_step ops y h env dbg S (S\<lparr>sy_loop := HasRead r, sy_last := Some r\<rparr>)"
| apply_read:
    "sy_loop S = HasRead r \<Longrightarrow> reload_step env dbg r (sy_daemon S) = Ok d \<Longrightarrow>
     daemon_step ops y h env dbg S (S\<lparr>sy_loop := WaitNotify, sy_daemon := d\<rparr>)"
| wake_up:
    "sy_loop S = WaitNotify \<Longrightarrow> nt_notified ops (sy_notify S) = Some n \<Longrightarrow>
     daemon_step ops y h env dbg S (S\<lparr>sy_loop := AboutToRead, sy_notify := n\<rparr>)"

inductive_cases daemon_stepE: "daemon_step ops y h env dbg S S'"

definition system_step ::
    "'n notifier \<Rightarrow> yaml \<Rightarrow> host \<Rightarrow> env \<Rightarrow> (config_error \<Rightarrow> string) \<Rightarrow> 'n system \<Rightarrow> 'n system \<Rightarrow> bool" where
  "system_step ops y h env dbg S S' \<longleftrightarrow> files_step S S' \<or> daemon_step ops y h env dbg S S'"

definition system_reach ::
    "'n notifier \<Rightarrow> yaml \<Rightarrow> host \<Rightarrow> env \<Rightarrow> (config_error \<Rightarrow> string) \<Rightarrow> 'n system \<Rightarrow> 'n system \<Rightarrow> bool" where
  "system_reach ops y h env dbg = (system_step ops y h env dbg)\<^sup>*\<^sup>*"

definition daemon_reach ::
    "'n notifier \<Rightarrow> yaml \<Rightarrow> host \<Rightarrow> env \<Rightarrow> (config_error \<Rightarrow> string) \<Rightarrow> 'n system \<Rightarrow> 'n system \<Rightarrow> bool" where
  "daemon_reach ops y h env dbg = (daemon_step ops y h env dbg)\<^sup>*\<^sup>*"

text \<open>A creation or modification the watcher has not handled.\<close>

definition undelivered :: "'n system \<Rightarrow> bool" where
  "undelivered S \<longleftrightarrow> EvCreate \<in> set (sy_events S) \<or> EvModify \<in> set (sy_events S)"

section \<open>The invariant\<close>

text \<open>What was read last is what the files hold now, unless a notification is pending or on its way, or a
  file was removed since; the same for the configuration alone while the key is still to be read. The
  daemon is the result of applying it once the loop waits. The daemon's own invariant holds throughout.\<close>

definition dirty :: "('n \<Rightarrow> bool) \<Rightarrow> 'n system \<Rightarrow> bool" where
  "dirty pending S \<longleftrightarrow> pending (sy_notify S) \<or> sy_removed S \<or> undelivered S"

definition system_inv :: "('n \<Rightarrow> bool) \<Rightarrow> yaml \<Rightarrow> host \<Rightarrow> env \<Rightarrow> (config_error \<Rightarrow> string) \<Rightarrow> 'n system \<Rightarrow> bool" where
  "system_inv pending y h env dbg S \<longleftrightarrow> daemon_ok (sy_daemon S) \<and>
     (case sy_loop S of
        AboutToRead \<Rightarrow> True
      | ReadKey c \<Rightarrow> dirty pending S \<or> reload_config y h (sy_fs S) = Ok c
      | HasRead r \<Rightarrow> sy_last S = Some r \<and> (dirty pending S \<or> r = config_reload y h (sy_fs S))
      | WaitNotify \<Rightarrow> (\<exists>r d0. sy_last S = Some r \<and> (dirty pending S \<or> r = config_reload y h (sy_fs S)) \<and>
          daemon_ok d0 \<and> reload_step env dbg r d0 = Ok (sy_daemon S)))"

lemma notify_lawsD:
  assumes "notify_laws ops pending"
  shows "\<not> pending (nt_new ops)" "pending (nt_notify ops n)"
    "nt_notified ops n = None \<Longrightarrow> \<not> pending n" "nt_notified ops n = Some n' \<Longrightarrow> pending n \<and> \<not> pending n'"
proof -
  have "case nt_notified ops n of None \<Rightarrow> \<not> pending n | Some n' \<Rightarrow> pending n \<and> \<not> pending n'"
    using assms by (simp only: notify_laws_def)
  then show "nt_notified ops n = None \<Longrightarrow> \<not> pending n" "nt_notified ops n = Some n' \<Longrightarrow> pending n \<and> \<not> pending n'"
    by auto
qed (use assms in \<open>simp_all add: notify_laws_def\<close>)

lemma notified_pending:
  assumes "notify_laws ops pending"
  shows "nt_notified ops n \<noteq> None \<longleftrightarrow> pending n"
  using notify_lawsD(3,4) [OF assms] by (cases "nt_notified ops n") auto

text \<open>A change that keeps a reading valid changes nothing; every other one makes the state dirty, and
  handling its event keeps it so.\<close>

lemma dirty_change:
  assumes "files_step S S'"
  shows "dirty pending S' \<or> (\<not> dirty pending S \<and> sy_fs S' = sy_fs S)"
    "sy_loop S' = sy_loop S" "sy_last S' = sy_last S" "sy_daemon S' = sy_daemon S"
  using assms by (auto elim!: files_step.cases simp: dirty_def undelivered_def)

lemma dirty_deliver:
  assumes "notify_laws ops pending" "sy_events S = kind # es" "on_event ops (Ok kind) (sy_notify S) = Ok n"
  shows "dirty pending (S\<lparr>sy_events := es, sy_notify := n\<rparr>) \<longleftrightarrow> dirty pending S"
  using assms(2,3) notify_lawsD(2) [OF assms(1)]
  by (auto simp: dirty_def undelivered_def on_event_def split: if_splits)

lemma system_inv_files:
  assumes "system_inv pending y h env dbg S" "files_step S S'"
  shows "system_inv pending y h env dbg S'"
  using assms(1) dirty_change(1) [OF assms(2), of pending] dirty_change(2-4) [OF assms(2)]
  by (auto simp: system_inv_def split: reload_loop.splits)

lemma system_inv_daemon:
  assumes laws: "notify_laws ops pending" and inv: "system_inv pending y h env dbg S"
    and step: "daemon_step ops y h env dbg S S'"
  shows "system_inv pending y h env dbg S'"
  using step
proof (cases rule: daemon_step.cases)
  case (deliver kind es n)
  with inv dirty_deliver [OF laws deliver(2,3)] show ?thesis
    by (auto simp: system_inv_def split: reload_loop.splits)
next
  case (read_config c)
  with inv show ?thesis by (simp add: system_inv_def)
next
  case (read_config_fails e)
  with inv show ?thesis by (simp add: system_inv_def config_reload_def)
next
  case (read_key c r)
  with inv show ?thesis by (auto simp: system_inv_def dirty_def undelivered_def config_reload_def)
next
  case (apply_read r d)
  with inv ok_daemon.inv_reload_step show ?thesis by (auto simp: system_inv_def dirty_def undelivered_def)
next
  case (wake_up n)
  with inv show ?thesis by (auto simp: system_inv_def)
qed

interpretation system_steps: step_invariant "system_step ops y h env dbg"
    "\<lambda>S. notify_laws ops pending \<and> system_inv pending y h env dbg S" for ops y h env dbg pending
  by unfold_locales (auto simp: system_step_def intro: system_inv_files system_inv_daemon)

lemma system_inv_start: "system_inv pending y h env dbg (system_start ops w)"
  by (simp add: system_inv_def system_start_def daemon_ok_new)

lemma system_inv_reach:
  assumes "notify_laws ops pending" "system_reach ops y h env dbg (system_start ops w) S"
  shows "system_inv pending y h env dbg S"
  using system_steps.inv_reached [OF assms(2) [unfolded system_reach_def]] assms(1) system_inv_start by blast

lemma daemon_reach_system:
  assumes "daemon_reach ops y h env dbg S S'"
  shows "system_reach ops y h env dbg S S'"
  unfolding system_reach_def
  by (rule rtranclp_mono [THEN predicate2D, OF _ assms [unfolded daemon_reach_def]]) (auto simp: system_step_def)

lemma system_reach_trans:
  "system_reach ops y h env dbg S S' \<Longrightarrow> system_reach ops y h env dbg S' S'' \<Longrightarrow> system_reach ops y h env dbg S S''"
  unfolding system_reach_def by (rule rtranclp_trans)

section \<open>Properties\<close>

text \<open>The daemon is at rest: it waits, no notification is pending or on its way, and no file was removed
  since it read them.\<close>

definition settled :: "'n notifier \<Rightarrow> 'n system \<Rightarrow> bool" where
  "settled ops S \<longleftrightarrow> sy_loop S = WaitNotify \<and> nt_notified ops (sy_notify S) = None \<and> \<not> undelivered S \<and> \<not> sy_removed S"

lemma reload_running:
  assumes "reload_step env dbg (Ok (Some c, Some k)) d = Inr d'" "daemon_ok d" "distinct (map ep_dns (cfg_endpoints c))"
  shows "running d' = wanted env c"
  using assms by (intro update_config_running [of env c "Some k" d d']) (simp_all add: reload_step_def keyed_def)

lemma settled_daemon:
  assumes "notify_laws ops pending" "system_reach ops y h env dbg (system_start ops w) S" "settled ops S"
  shows "\<exists>d0. daemon_ok d0 \<and> reload_step env dbg (config_reload y h (sy_fs S)) d0 = Ok (sy_daemon S)"
  using system_inv_reach [OF assms(1,2)] assms(3) notify_lawsD(3) [OF assms(1)]
  by (auto simp: system_inv_def dirty_def settled_def)

text \<open>C6. No change of the files is lost: in every interleaving of file changes, their events and the steps
  of the reload loop, when the loop waits and no notification is pending or on its way, and no file was
  removed since, then the daemon is the result of applying what the files hold now, also when they
  changed between the reading of one file and the other, or while an update was running; if they hold a
  configuration with distinct names and a key, exactly its tasks are running.\<close>

theorem no_lost_update:
  assumes "notify_laws ops pending" and "system_reach ops y h env dbg (system_start ops w) S"
    and "sy_loop S = WaitNotify" and "nt_notified ops (sy_notify S) = None"
    and "EvCreate \<notin> set (sy_events S)" and "EvModify \<notin> set (sy_events S)" and "\<not> sy_removed S"
  shows "(\<exists>d0. daemon_ok d0 \<and> reload_step env dbg (config_reload y h (sy_fs S)) d0 = Ok (sy_daemon S)) \<and>
    (\<forall>c k. config_reload y h (sy_fs S) = Ok (Some c, Some k) \<longrightarrow> distinct (map ep_dns (cfg_endpoints c)) \<longrightarrow>
       running (sy_daemon S) = wanted env c)"
  using settled_daemon [OF assms(1,2)] assms(3-7) by (auto simp: settled_def undelivered_def intro: reload_running)

text \<open>The notifier of the witnesses is a flag.\<close>

definition flag_notifier :: "bool notifier" where
  "flag_notifier = \<lparr>nt_new = False, nt_notify = (\<lambda>_. True), nt_notified = (\<lambda>b. if b then Some False else None)\<rparr>"

lemma flag_notifier_laws: "notify_laws flag_notifier id"
  by (simp add: notify_laws_def flag_notifier_def)

text \<open>The files of the witnesses hold \<open>demo_config\<close> and the key \<open>k\<close>; the daemon reads and applies them.\<close>

definition demo_files :: fs where
  "demo_files = demo_fs\<lparr>fs_files := [config_file_full demo_host \<mapsto> ''doc'', key_file_full demo_host \<mapsto> ''k'']\<rparr>"

lemma demo_files_reload: "config_reload (yaml_of demo_config) demo_host demo_files = Ok (Some demo_config, Some ''k'')"
proof -
  have "config_file_full demo_host \<noteq> key_file_full demo_host" by code_simp
  moreover have "trim ''k'' = ''k''" by code_simp
  ultimately show ?thesis
    by (simp add: reloads ebb_files demo_files_def
        demo_fs_def yaml_of_def)
qed

abbreviation demo_reach :: "bool system \<Rightarrow> bool system \<Rightarrow> bool" where
  "demo_reach \<equiv> system_reach flag_notifier (yaml_of demo_config) demo_host demo_env (\<lambda>_. [])"

definition demo_idle :: "bool system" where
  "demo_idle = (system_start flag_notifier demo_files)\<lparr>sy_loop := WaitNotify, sy_daemon := demo_daemon,
     sy_last := Some (Ok (Some demo_config, Some ''k'')), sy_removed := False\<rparr>"

lemma demo_idle_reach: "demo_reach (system_start flag_notifier demo_files) demo_idle"
proof -
  let ?S0 = "system_start flag_notifier demo_files" and ?r = "Ok (Some demo_config, Some ''k'') :: reload_result"
  let ?S1 = "?S0\<lparr>sy_loop := ReadKey (Some demo_config), sy_removed := False\<rparr>"
  let ?S2 = "?S1\<lparr>sy_loop := HasRead ?r, sy_last := Some ?r\<rparr>"
  let ?step = "daemon_step flag_notifier (yaml_of demo_config) demo_host demo_env (\<lambda>_. [])"
  have c: "reload_config (yaml_of demo_config) demo_host demo_files = Ok (Some demo_config)"
    and k: "reload_key demo_host demo_files = Ok (Some ''k'')"
    using demo_files_reload by (auto simp: config_reload_def and_then_def split: sum.splits)
  have "?step ?S0 ?S1" by (rule read_config) (simp_all add: system_start_def c)
  moreover have "?step ?S1 ?S2" by (rule read_key) (simp_all add: system_start_def k)
  moreover have "?step ?S2 (?S2\<lparr>sy_loop := WaitNotify, sy_daemon := demo_daemon\<rparr>)"
    by (rule apply_read [where r = ?r]) (simp_all add: system_start_def reload_step_def demo_update)
  moreover have "?S2\<lparr>sy_loop := WaitNotify, sy_daemon := demo_daemon\<rparr> = demo_idle" by (simp add: demo_idle_def)
  ultimately have "daemon_reach flag_notifier (yaml_of demo_config) demo_host demo_env (\<lambda>_. []) ?S0 demo_idle"
    unfolding daemon_reach_def by (auto intro: converse_rtranclp_into_rtranclp)
  then show ?thesis by (rule daemon_reach_system)
qed

theorem no_lost_update_witness: "running (sy_daemon demo_idle) = wanted demo_env demo_config"
  using no_lost_update [OF flag_notifier_laws demo_idle_reach]
  by (simp add: demo_idle_def system_start_def flag_notifier_def demo_files_reload)
    (simp add: demo_config_def)

section \<open>Progress\<close>

text \<open>Every port of \<open>localhost\<close> can be resolved and the host name is known.\<close>

definition env_total :: "env \<Rightarrow> bool" where
  "env_total env \<longleftrightarrow> (\<forall>p. resolves env p) \<and> (\<exists>n. env_hostname env = Hostname n)"

lemma reload_total: "env_total env \<Longrightarrow> \<exists>d'. reload_step env dbg r d = Ok d'"
  using update_config_total [of _ env _ d]
  by (cases r) (auto simp: reload_step_def env_total_def endpoint_resolves_def ssh_resolves_def)

text \<open>A bound on the steps the daemon has left when no file changes: an event may bring a notification, which
  brings a wake-up and the reading of both files.\<close>

definition work :: "'n notifier \<Rightarrow> 'n system \<Rightarrow> nat" where
  "work ops S = 6 * length (sy_events S) + (if nt_notified ops (sy_notify S) = None then 0 else 5) +
     (case sy_loop S of AboutToRead \<Rightarrow> 3 | ReadKey _ \<Rightarrow> 2 | HasRead _ \<Rightarrow> 1 | WaitNotify \<Rightarrow> 0)"

lemma work_decreases:
  assumes "notify_laws ops pending" "daemon_step ops y h env dbg S S'"
  shows "work ops S' < work ops S"
proof -
  note pend = notified_pending [OF assms(1)]
  from assms(2) show ?thesis
  proof (cases rule: daemon_step.cases)
    case (wake_up n)
    then have "nt_notified ops n = None"
      using notify_lawsD(4) [OF assms(1)] pend by blast
    with wake_up show ?thesis by (simp add: work_def)
  qed (auto simp: work_def on_event_def split: if_splits)
qed

lemma work_bounds:
  assumes "notify_laws ops pending" "(daemon_step ops y h env dbg ^^ m) S S'"
  shows "m + work ops S' \<le> work ops S"
  using assms(2)
proof (induction m arbitrary: S')
  case (Suc m)
  then obtain S1 where "(daemon_step ops y h env dbg ^^ m) S S1" "daemon_step ops y h env dbg S1 S'" by auto
  with Suc.IH work_decreases [OF assms(1)] show ?case by fastforce
qed simp

text \<open>What the daemon has to do to be up to date, it is able to do: a removal that came after the last reading
  is the only change that does not wake it up.\<close>

definition will_read :: "'n notifier \<Rightarrow> 'n system \<Rightarrow> bool" where
  "will_read ops S \<longleftrightarrow>
     \<not> sy_removed S \<or> sy_loop S = AboutToRead \<or> nt_notified ops (sy_notify S) \<noteq> None \<or> undelivered S"

lemma will_read_kept:
  assumes "notify_laws ops pending" "will_read ops S" "daemon_step ops y h env dbg S S'"
  shows "will_read ops S'"
proof -
  note pend = notified_pending [OF assms(1)]
  from assms(3,2) show ?thesis
  proof (cases rule: daemon_step.cases)
    case (deliver kind es n)
    with assms(2) notify_lawsD(2) [OF assms(1)] show ?thesis
      by (auto simp only: will_read_def pend) (auto simp: undelivered_def on_event_def split: if_splits)
  qed (auto simp: will_read_def undelivered_def)
qed

lemma will_read_reach:
  assumes "notify_laws ops pending" "will_read ops S" "daemon_reach ops y h env dbg S S'"
  shows "will_read ops S'"
  using assms(3,2) unfolding daemon_reach_def
  by (induction rule: rtranclp_induct) (auto intro: will_read_kept [OF assms(1)])

lemma stuck_settled:
  assumes "env_total env" "will_read ops S" "\<nexists>S'. daemon_step ops y h env dbg S S'"
  shows "settled ops S"
proof -
  have "sy_events S = []"
  proof (cases "sy_events S")
    case (Cons kind es)
    then have "daemon_step ops y h env dbg S (S\<lparr>sy_events := es, sy_notify :=
      (if kind = EvCreate \<or> kind = EvModify then nt_notify ops (sy_notify S) else sy_notify S)\<rparr>)"
      by (rule deliver) (simp add: on_event_def)
    with assms(3) show ?thesis by blast
  qed
  moreover have wait: "sy_loop S = WaitNotify"
  proof (cases "sy_loop S")
    case AboutToRead
    with assms(3) show ?thesis
      using read_config read_config_fails by (cases "reload_config y h (sy_fs S)") blast+
  next
    case (HasRead r)
    with reload_total [OF assms(1), of dbg r "sy_daemon S"] assms(3) apply_read show ?thesis by blast
  qed (use assms(3) read_key in blast)+
  moreover have "nt_notified ops (sy_notify S) = None"
    using assms(3) wake_up [OF wait] by (cases "nt_notified ops (sy_notify S)") (blast, metis)
  ultimately show ?thesis using assms(2) by (simp add: settled_def will_read_def undelivered_def)
qed

lemma daemon_rests:
  assumes "notify_laws ops pending"
  shows "\<exists>S'. daemon_reach ops y h env dbg S S' \<and> (\<nexists>S''. daemon_step ops y h env dbg S' S'')"
proof (induction "work ops S" arbitrary: S rule: less_induct)
  case less
  show ?case
  proof (cases "\<exists>S'. daemon_step ops y h env dbg S S'")
    case True
    then obtain S1 where "daemon_step ops y h env dbg S S1" by blast
    with less.hyps [OF work_decreases [OF assms this]]
    show ?thesis unfolding daemon_reach_def by (blast intro: converse_rtranclp_into_rtranclp)
  qed (auto simp: daemon_reach_def)
qed

lemma daemon_keeps_files: "daemon_reach ops y h env dbg S S' \<Longrightarrow> sy_fs S' = sy_fs S"
  unfolding daemon_reach_def by (induction rule: rtranclp_induct) (auto elim: daemon_stepE)

text \<open>C9. Changes are applied, by the daemon alone: take any state it can come to, unless the only news is a
  removal that came after its last reading, and let no file change from then on. Then the daemon takes
  at most \<open>work\<close> further steps, in whatever order its threads run; as long as it has not come to rest it
  has a next step; and when it has come to rest, its state is the result of applying what the files hold,
  so that a configuration with distinct names and a key has exactly its tasks running. The host name and
  the addresses are to be resolvable.\<close>

theorem changes_are_applied:
  assumes "notify_laws ops pending" and "env_total env"
    and "system_reach ops y h env dbg (system_start ops w) S"
    and "\<not> sy_removed S \<or> sy_loop S = AboutToRead \<or> nt_notified ops (sy_notify S) \<noteq> None \<or> undelivered S"
  shows "(\<forall>m S'. (daemon_step ops y h env dbg ^^ m) S S' \<longrightarrow> m \<le> work ops S) \<and>
    (\<exists>S'. daemon_reach ops y h env dbg S S' \<and> (\<nexists>S''. daemon_step ops y h env dbg S' S'')) \<and>
    (\<forall>S'. daemon_reach ops y h env dbg S S' \<longrightarrow> (\<nexists>S''. daemon_step ops y h env dbg S' S'') \<longrightarrow>
      settled ops S' \<and> sy_fs S' = sy_fs S \<and>
      (\<exists>d0. daemon_ok d0 \<and> reload_step env dbg (config_reload y h (sy_fs S)) d0 = Ok (sy_daemon S')) \<and>
      (\<forall>c k. config_reload y h (sy_fs S) = Ok (Some c, Some k) \<longrightarrow> distinct (map ep_dns (cfg_endpoints c)) \<longrightarrow>
         running (sy_daemon S') = wanted env c))"
proof (intro conjI allI impI)
  show "m \<le> work ops S" if "(daemon_step ops y h env dbg ^^ m) S S'" for m S'
    using work_bounds [OF assms(1) that] by simp
  fix S'
  assume r: "daemon_reach ops y h env dbg S S'" and "\<nexists>S''. daemon_step ops y h env dbg S' S''"
  then show st: "settled ops S'"
    using stuck_settled [OF assms(2)] will_read_reach [OF assms(1) _ r] assms(4) by (simp add: will_read_def)
  show fs: "sy_fs S' = sy_fs S" by (rule daemon_keeps_files [OF r])
  from settled_daemon [OF assms(1) system_reach_trans [OF assms(3) daemon_reach_system [OF r]] st]
  show d0: "\<exists>d0. daemon_ok d0 \<and> reload_step env dbg (config_reload y h (sy_fs S)) d0 = Ok (sy_daemon S')"
    by (simp add: fs)
  show "running (sy_daemon S') = wanted env c"
    if "config_reload y h (sy_fs S) = Ok (Some c, Some k)" "distinct (map ep_dns (cfg_endpoints c))" for c k
    using d0 that by (auto intro: reload_running)
qed (rule daemon_rests [OF assms(1)])

lemma demo_env_total: "env_total demo_env"
  by (simp add: env_total_def resolves_def demo_env_def)

text \<open>The daemon of the witness is at rest when its files are removed and then written again: the removal
  alone would go unnoticed.\<close>

definition demo_rewritten :: "bool system" where
  "demo_rewritten = demo_idle\<lparr>sy_events := [EvRemove, EvModify], sy_removed := True\<rparr>"

lemma demo_rewritten_reach: "demo_reach (system_start flag_notifier demo_files) demo_rewritten"
proof -
  let ?S1 = "demo_idle\<lparr>sy_fs := demo_fs, sy_events := [EvRemove], sy_removed := True\<rparr>"
  let ?step = "system_step flag_notifier (yaml_of demo_config) demo_host demo_env (\<lambda>_. [])"
  have "files_step demo_idle ?S1"
    using change [of demo_fs demo_idle EvRemove] by (simp add: demo_idle_def system_start_def)
  moreover have "files_step ?S1 demo_rewritten"
    using change [of demo_files ?S1 EvModify] by (simp add: demo_rewritten_def demo_idle_def system_start_def)
  ultimately have "?step demo_idle ?S1" "?step ?S1 demo_rewritten" by (simp_all add: system_step_def)
  with demo_idle_reach show ?thesis
    unfolding system_reach_def by (blast intro: rtranclp.rtrancl_into_rtrancl)
qed

theorem changes_are_applied_witness:
  "\<exists>S'. daemon_reach flag_notifier (yaml_of demo_config) demo_host demo_env (\<lambda>_. []) demo_rewritten S' \<and>
     settled flag_notifier S' \<and> running (sy_daemon S') = wanted demo_env demo_config"
proof -
  have "undelivered demo_rewritten" and "sy_fs demo_rewritten = demo_files"
    by (simp_all add: demo_rewritten_def undelivered_def demo_idle_def system_start_def)
  moreover have "distinct (map ep_dns (cfg_endpoints demo_config))" by (simp add: demo_config_def)
  ultimately show ?thesis
    using changes_are_applied [OF flag_notifier_laws demo_env_total demo_rewritten_reach] demo_files_reload by auto
qed

end
