(* ===== verification/Service.thy ===== *)
theory Service
  imports Daemon_Main Signal
begin

text \<open>
  How the daemon process of \<open>src/src/ebbflowd.rs\<close> starts and ends: \<open>realmain\<close> up to its wait for the stop
  signal, \<open>main\<close> on Unix, and the Windows service with its control handler. The controls that the
  service manager has sent so far are an input, and so are the outcomes of the calls to it.
\<close>

text \<open>\<open>realmain\<close> returns when it cannot start, or when the stop signal comes; otherwise it is running, with
  the reload loop and the info server in tasks of their own.\<close>

datatype 'roots realmain_result = Finished "string + unit" | StillRunning "'roots shared_info"

definition realmain ::
    "start_env \<Rightarrow> 'roots \<Rightarrow> ('ch, 'r) watch \<Rightarrow> 'ch \<Rightarrow> 'r \<Rightarrow> 'roots realmain_result option" where
  "realmain se roots ops ch wait = (case realmain_start se roots of
     Inl e \<Rightarrow> Some (Finished (Err e))
   | Inr sharedinfo \<Rightarrow>
       map_option (\<lambda>w. case w of Done \<Rightarrow> Finished (Ok ()) | Pending _ \<Rightarrow> StillRunning sharedinfo)
         (wait_poll ops ch wait))"

text \<open>On Unix the sender stays with \<open>main\<close>, which never uses it. The result is what is printed on standard
  error, with the result of \<open>main\<close>, or nothing while the daemon runs.\<close>

definition daemon_main ::
    "(string \<Rightarrow> string) \<Rightarrow> start_env \<Rightarrow> 'roots \<Rightarrow> ('ch, 'r) watch \<Rightarrow> (string list \<times> (unit + unit)) option option" where
  "daemon_main dbg se roots ops =
     (let sender = signal_sender_new ops; r = new_receiver sender in
      map_option (\<lambda>m. case m of
          StillRunning _ \<Rightarrow> None
        | Finished (Inr _) \<Rightarrow> Some ([], Ok ())
        | Finished (Inl e) \<Rightarrow> Some ([''Daemon exited with error: '' @ dbg e], Err ()))
        (realmain se roots ops (ss_sender sender) r))"

section \<open>The Windows service\<close>

datatype service_control = Interrogate | StopService | OtherControl

datatype handler_result = NoError | NotImplemented

definition event_handler ::
    "('ch, 'r) watch \<Rightarrow> service_control \<Rightarrow> ('ch, 'r) signal_sender \<Rightarrow> handler_result \<times> ('ch, 'r) signal_sender" where
  "event_handler ops control_event sender = (case control_event of
     Interrogate \<Rightarrow> (NoError, sender)
   | StopService \<Rightarrow> (NoError, send_signal ops sender)
   | OtherControl \<Rightarrow> (NotImplemented, sender))"

datatype service_state = ServiceRunning | ServiceStopped

record service_status =
  sv_state :: service_state
  sv_accepts_stop :: bool
  sv_exit_code :: nat
  sv_wait_hint_secs :: nat

definition running_status :: service_status where
  "running_status = \<lparr>sv_state = ServiceRunning, sv_accepts_stop = True, sv_exit_code = 0, sv_wait_hint_secs = 60\<rparr>"

definition stopped_status :: "nat \<Rightarrow> service_status" where
  "stopped_status code = \<lparr>sv_state = ServiceStopped, sv_accepts_stop = False, sv_exit_code = code, sv_wait_hint_secs = 0\<rparr>"

text \<open>The errors of registering the handler and of reporting the two states.\<close>

record service_calls =
  sc_register :: "string option"
  sc_report_running :: "string option"
  sc_report_stopped :: "string option"

text \<open>The states reported so far, and the result once it has returned.\<close>

definition run_service ::
    "service_calls \<Rightarrow> start_env \<Rightarrow> 'roots \<Rightarrow> ('ch, 'r) watch \<Rightarrow> service_control list
       \<Rightarrow> (service_status list \<times> (string + unit) option) option" where
  "run_service calls se roots ops controls =
     (let sender = signal_sender_new ops; r = new_receiver sender in
      case sc_register calls of
        Some e \<Rightarrow> Some ([], Some (Err e))
      | None \<Rightarrow>
          (case sc_report_running calls of
             Some e \<Rightarrow> Some ([], Some (Err e))
           | None \<Rightarrow>
               (let sender' = fold (\<lambda>c s. snd (event_handler ops c s)) controls sender in
                map_option (\<lambda>m. case m of
                    StillRunning _ \<Rightarrow> ([running_status], None)
                  | Finished res \<Rightarrow>
                      (let existcode = (case res of Inr _ \<Rightarrow> 0 | Inl _ \<Rightarrow> 1) in
                       case sc_report_stopped calls of
                         Some e \<Rightarrow> ([running_status], Some (Err e))
                       | None \<Rightarrow> ([running_status, stopped_status existcode], Some (Ok ()))))
                  (realmain se roots ops (ss_sender sender') r))))"

section \<open>Properties\<close>

lemma controls_signal_run:
  "fold (\<lambda>c s. snd (event_handler ops c s)) cs s =
     signal_run ops (map (\<lambda>_. SendSignal) (filter (\<lambda>c. c = StopService) cs)) s"
  by (induction cs arbitrary: s) (auto simp: signal_run_def event_handler_def split: service_control.splits)

lemma wait_after_controls:
  assumes "watch_laws ops v"
  shows "\<exists>r'. wait_poll ops (ss_sender (fold (\<lambda>c s. snd (event_handler ops c s)) cs (signal_sender_new ops)))
      (new_receiver (signal_sender_new ops)) = Some (if StopService \<in> set cs then Done else Pending r')"
proof -
  have "map (\<lambda>_. SendSignal) (filter (\<lambda>c. c = StopService) cs) = [] \<longleftrightarrow> StopService \<notin> set cs"
    by (auto simp: filter_empty_conv)
  with wait_poll_run [OF assms, of "map (\<lambda>_. SendSignal) (filter (\<lambda>c. c = StopService) cs)"] show ?thesis
    by (auto simp: controls_signal_run)
qed

text \<open>C22. The service stops when it is told to, and only then: once started, it has reported that it stopped,
  with exit code 0, exactly when a stop control was among those it got, whatever else came before or
  after; until then it is reported as running. A daemon that cannot start is reported as stopped with
  exit code 1. On Unix a daemon that has started never ends by itself.\<close>

theorem service_stops_when_told:
  assumes "watch_laws ops v" and "sc_register calls = None" and "sc_report_running calls = None"
    and "sc_report_stopped calls = None"
  shows "run_service calls se roots ops controls = Some
      (if isl (realmain_start se roots) then ([running_status, stopped_status 1], Some (Ok ()))
       else if StopService \<in> set controls then ([running_status, stopped_status 0], Some (Ok ()))
       else ([running_status], None)) \<and>
    (daemon_main dbg se roots ops = Some None \<longleftrightarrow> \<not> isl (realmain_start se roots))"
  using wait_after_controls [OF assms(1), of controls] wait_after_controls [OF assms(1), of "[]"] assms(2-4)
  by (cases "realmain_start se roots")
    (auto simp: run_service_def daemon_main_def realmain_def Let_def)

theorem service_stops_when_told_witness:
  "run_service \<lparr>sc_register = None, sc_report_running = None, sc_report_stopped = None\<rparr>
     \<lparr>se_watcher_new = None, se_watcher_configure = None, se_watcher_watch = None, se_ebb_addr = None,
      se_ebb_dns = None, se_build = (\<lambda>_. Some (\<lambda>_. LookupTimedOut)), se_debug_parse = []\<rparr> ()
     demo_watch [Interrogate, StopService, OtherControl] = Some ([running_status, stopped_status 0], Some (Ok ()))"
proof -
  let ?se = "\<lparr>se_watcher_new = None, se_watcher_configure = None, se_watcher_watch = None, se_ebb_addr = None,
      se_ebb_dns = None, se_build = (\<lambda>_. Some (\<lambda>_. LookupTimedOut)), se_debug_parse = []\<rparr>"
  have "\<not> isl (realmain_start ?se ())"
    by (simp add: realmain_start_def guard_error_def shared_info_new_def innernew_def dns_resolver_new_def)
  then show ?thesis
    using service_stops_when_told [OF demo_watch_laws,
        of "\<lparr>sc_register = None, sc_report_running = None, sc_report_stopped = None\<rparr>" ?se "()"]
    by simp
qed

end
