(* ===== verification/Cli.thy ===== *)
theory Cli
  imports Runner
begin

text \<open>
  The configuration commands of the command line, \<open>src/src/ebbflow.rs\<close>: enable, disable, add-endpoint,
  remove-endpoint, setup-ssh, remove-ssh-configuration, log-level and print, with the exit of \<open>main\<close>.

  A command works on the files and on what was printed so far. It returns a result, or leaves the
  process through \<open>exiterror\<close> (with its message) or through \<open>hostname_or_die\<close>. The commands that change
  the configuration load it, edit it and save it; \<open>edit_config\<close> is that frame and the edits are
  functions on the configuration that may refuse. The locale \<open>config_edit\<close> states what an edit has to
  keep and is interpreted for each of them.
\<close>

section \<open>Arguments and results\<close>

datatype enable_disable_target = TargetSsh | AllEndpoints | TargetEndpoint string

record enable_disable_args =
  ed_target :: enable_disable_target
  ed_idempotent :: bool

record add_endpoint_args =
  ae_dns :: string
  ae_port :: u16
  ae_maxconns :: "u16 option"
  ae_maxidle :: "usize option"
  ae_disabled :: bool
  ae_healthcheck_port :: "u16 option"
  ae_healthcheck_consider_healthy :: "u16 option"
  ae_healthcheck_consider_unhealthy :: "u16 option"
  ae_healthcheck_frequency_secs :: "u16 option"

record remove_endpoint_args =
  re_dns :: string
  re_idempotent :: bool

record setup_ssh_args =
  sa_ssh_port :: "u16 option"
  sa_hostname :: "string option"
  sa_maxconns :: "u16 option"
  sa_maxidle :: "u16 option"
  sa_disabled :: bool

datatype log_level = LogReset | LogSet string

datatype config_command =
    CmdEnable enable_disable_args
  | CmdDisable enable_disable_args
  | CmdAddEndpoint add_endpoint_args
  | CmdRemoveEndpoint remove_endpoint_args
  | CmdSetupSsh setup_ssh_args
  | CmdRemoveSsh
  | CmdPrint
  | CmdLogLevel log_level

datatype cli_error = CliConfigError config_error | CliStdIoError io_error | CliHttp string | CliOther string

datatype 'a cmd_result = Returns "cli_error + 'a" | Exits string | Dies

record cli =
  cl_fs :: fs
  cl_out :: "string list"
  cl_stdin :: "(io_error + string) list"

record cli_env =
  cv_yaml :: yaml
  cv_host :: host
  cv_env :: env

definition println :: "string \<Rightarrow> 'z cli_scheme \<Rightarrow> 'z cli_scheme" where
  "println m s = s\<lparr>cl_out := cl_out s @ [m]\<rparr>"

fun display_target :: "enable_disable_target \<Rightarrow> string" where
  "display_target TargetSsh = ''Ssh''"
| "display_target AllEndpoints = ''All Endpoints''"
| "display_target (TargetEndpoint dns) = dns"

section \<open>Edits of the configuration\<close>

datatype 'a edit_result = Refuse string | Edited daemon_config 'a

text \<open>Load, edit, save.\<close>

definition edit_config ::
    "cli_env \<Rightarrow> (daemon_config \<Rightarrow> 'a edit_result) \<Rightarrow> cli \<Rightarrow> 'a cmd_result \<times> cli" where
  "edit_config cv edit s = (case load_from_file_or_new (cv_yaml cv) (cv_host cv) (cl_fs s) of
     Inl e \<Rightarrow> (Returns (Err (CliConfigError e)), s)
   | Inr existing \<Rightarrow> (case edit existing of
       Refuse m \<Rightarrow> (Exits m, s)
     | Edited c a \<Rightarrow>
         (let (r, w) = save_to_file (cv_yaml cv) (cv_host cv) c (cl_fs s) in
          (Returns (and_then (map_err CliConfigError r) (\<lambda>_. Ok a)), s\<lparr>cl_fs := w\<rparr>))))"

text \<open>The loop of \<open>set_endpoint_enabled\<close> with its two flags.\<close>

fun set_enabled_loop ::
    "bool \<Rightarrow> string option \<Rightarrow> endpoint list \<Rightarrow> bool \<Rightarrow> bool \<Rightarrow> endpoint list \<times> bool \<times> bool" where
  "set_enabled_loop enabled dns [] targeted_found mutated = ([], targeted_found, mutated)"
| "set_enabled_loop enabled dns (e # es) targeted_found mutated =
     (let (e', found', mutated') =
        (case dns of
           Some actualdns \<Rightarrow>
             if actualdns = ep_dns e
             then (if ep_enabled e = enabled then (e, True, False) else (e\<lparr>ep_enabled := enabled\<rparr>, True, True))
             else (e, targeted_found, mutated)
         | None \<Rightarrow> (e\<lparr>ep_enabled := enabled\<rparr>, True, True));
        (es', r) = set_enabled_loop enabled dns es found' mutated'
      in (e' # es', r))"

definition set_endpoint_enabled_edit :: "bool \<Rightarrow> string option \<Rightarrow> daemon_config \<Rightarrow> (bool \<times> bool) edit_result" where
  "set_endpoint_enabled_edit enabled dns c =
     (let (es, r) = set_enabled_loop enabled dns (cfg_endpoints c) False False
      in Edited (c\<lparr>cfg_endpoints := es\<rparr>) r)"

definition set_endpoint_enabled :: "cli_env \<Rightarrow> bool \<Rightarrow> string option \<Rightarrow> cli \<Rightarrow> (bool \<times> bool) cmd_result \<times> cli" where
  "set_endpoint_enabled cv enabled dns = edit_config cv (set_endpoint_enabled_edit enabled dns)"

definition set_ssh_enabled_edit :: "bool \<Rightarrow> daemon_config \<Rightarrow> (bool \<times> bool) edit_result" where
  "set_ssh_enabled_edit enabled c = (case cfg_ssh c of
     Some s \<Rightarrow>
       if ssh_enabled s = enabled then Edited c (True, False)
       else Edited (c\<lparr>cfg_ssh := Some (s\<lparr>ssh_enabled := enabled\<rparr>)\<rparr>) (True, True)
   | None \<Rightarrow> Edited c (False, False))"

definition set_ssh_enabled :: "cli_env \<Rightarrow> bool \<Rightarrow> cli \<Rightarrow> (bool \<times> bool) cmd_result \<times> cli" where
  "set_ssh_enabled cv enabled = edit_config cv (set_ssh_enabled_edit enabled)"

definition enabledisable :: "cli_env \<Rightarrow> bool \<Rightarrow> enable_disable_target \<Rightarrow> cli \<Rightarrow> (bool \<times> bool) cmd_result \<times> cli" where
  "enabledisable cv enable target = (case target of
     TargetSsh \<Rightarrow> set_ssh_enabled cv enable
   | AllEndpoints \<Rightarrow> set_endpoint_enabled cv enable None
   | TargetEndpoint dns \<Rightarrow> set_endpoint_enabled cv enable (Some dns))"

definition handle_enable_disable_ret ::
    "bool \<Rightarrow> enable_disable_args \<Rightarrow> (bool \<times> bool) cmd_result \<Rightarrow> unit cmd_result" where
  "handle_enable_disable_ret enable args ret =
     (let word = (if enable then ''enabled'' else ''disabled'') in
      case ret of
        Returns (Inr (found, mutated)) \<Rightarrow>
          if found then
            if mutated then Returns (Ok ())
            else if \<not> ed_idempotent args
            then Exits (''The specified target was not '' @ word @ '': '' @ display_target (ed_target args))
            else Returns (Ok ())
          else if enable
          then Exits (''The specified target was not enabled as it is not configured: '' @ display_target (ed_target args))
          else if \<not> ed_idempotent args
          then Exits (''Unable to disable target '' @ display_target (ed_target args) @ '' as it is not configured'')
          else Returns (Ok ())
      | Returns (Inl e) \<Rightarrow> Returns (Err e)
      | Exits m \<Rightarrow> Exits m
      | Dies \<Rightarrow> Dies)"

definition health_check_of_args ::
    "u16 option \<Rightarrow> u16 option \<Rightarrow> u16 option \<Rightarrow> u16 option \<Rightarrow> health_check option" where
  "health_check_of_args port freq healthy unhealthy = (case port of
     Some p \<Rightarrow> Some \<lparr>hc_port = Some p, hc_consider_healthy_threshold = healthy,
       hc_consider_unhealthy_threshold = unhealthy, hc_type = TCP, hc_frequency_secs = freq\<rparr>
   | None \<Rightarrow> None)"

text \<open>\<open>args.maxidle.unwrap_or(40) as u16\<close> keeps the low sixteen bits.\<close>

definition new_endpoint :: "add_endpoint_args \<Rightarrow> endpoint" where
  "new_endpoint args =
     \<lparr>ep_port = ae_port args, ep_dns = ae_dns args, ep_maxconns = unwrap_or (ae_maxconns args) 5000,
      ep_maxidle = ucast (unwrap_or (ae_maxidle args) 40), ep_enabled = (\<not> ae_disabled args),
      ep_healthcheck = health_check_of_args (ae_healthcheck_port args) (ae_healthcheck_frequency_secs args)
        (ae_healthcheck_consider_healthy args) (ae_healthcheck_consider_unhealthy args)\<rparr>"

definition add_endpoint_edit :: "add_endpoint_args \<Rightarrow> daemon_config \<Rightarrow> unit edit_result" where
  "add_endpoint_edit args existing =
     (let newendpoint = new_endpoint args in
      if \<exists>e \<in> set (cfg_endpoints existing). ep_dns e = ep_dns newendpoint
      then Refuse (''An endpoint of name '' @ ep_dns newendpoint
        @ '' already exists. Please remove it first then create it again'')
      else Edited (existing\<lparr>cfg_endpoints := cfg_endpoints existing @ [newendpoint]\<rparr>) ())"

definition add_endpoint :: "cli_env \<Rightarrow> add_endpoint_args \<Rightarrow> cli \<Rightarrow> unit cmd_result \<times> cli" where
  "add_endpoint cv args = edit_config cv (add_endpoint_edit args)"

definition remove_endpoint_edit :: "remove_endpoint_args \<Rightarrow> daemon_config \<Rightarrow> unit edit_result" where
  "remove_endpoint_edit args existing =
     (let kept = filter (\<lambda>e. ep_dns e \<noteq> re_dns args) (cfg_endpoints existing);
          deleted = (\<exists>e \<in> set (cfg_endpoints existing). ep_dns e = re_dns args)
      in if deleted \<or> re_idempotent args then Edited (existing\<lparr>cfg_endpoints := kept\<rparr>) ()
         else Refuse (''Endpoint '' @ re_dns args @ '' does not exist and was not deleted''))"

definition remove_endpoint :: "cli_env \<Rightarrow> remove_endpoint_args \<Rightarrow> cli \<Rightarrow> unit cmd_result \<times> cli" where
  "remove_endpoint cv args = edit_config cv (remove_endpoint_edit args)"

definition DEFAULT_SSH_CONNS :: u16 where "DEFAULT_SSH_CONNS = 20"
definition DEFAULT_SSH_IDLE :: u16 where "DEFAULT_SSH_IDLE = 3"

definition setup_ssh_edit :: "setup_ssh_args \<Rightarrow> daemon_config \<Rightarrow> unit edit_result" where
  "setup_ssh_edit args existing =
     (if cfg_ssh existing \<noteq> None
      then Refuse ''SSH configuration already set up, please remove it and then recreate it''
      else Edited (existing\<lparr>cfg_ssh := Some
        \<lparr>ssh_maxconns = unwrap_or (sa_maxconns args) DEFAULT_SSH_CONNS, ssh_port = unwrap_or (sa_ssh_port args) 22,
         ssh_enabled = (\<not> sa_disabled args),
         ssh_maxidle = min (unwrap_or (sa_maxidle args) DEFAULT_SSH_IDLE) (of_nat MAX_MAX_IDLE),
         ssh_hostname_override = sa_hostname args\<rparr>\<rparr>) ())"

definition setup_ssh :: "cli_env \<Rightarrow> setup_ssh_args \<Rightarrow> cli \<Rightarrow> unit cmd_result \<times> cli" where
  "setup_ssh cv args = edit_config cv (setup_ssh_edit args)"

definition remove_ssh_edit :: "daemon_config \<Rightarrow> unit edit_result" where
  "remove_ssh_edit existing = Edited (existing\<lparr>cfg_ssh := None\<rparr>) ()"

definition remove_ssh :: "cli_env \<Rightarrow> cli \<Rightarrow> unit cmd_result \<times> cli" where
  "remove_ssh cv = edit_config cv remove_ssh_edit"

definition setloglevel_edit :: "log_level \<Rightarrow> daemon_config \<Rightarrow> unit edit_result" where
  "setloglevel_edit l existing =
     Edited (existing\<lparr>cfg_loglevel := (case l of LogReset \<Rightarrow> None | LogSet level \<Rightarrow> Some level)\<rparr>) ()"

definition setloglevel :: "cli_env \<Rightarrow> log_level \<Rightarrow> cli \<Rightarrow> unit cmd_result \<times> cli" where
  "setloglevel cv l s = (case edit_config cv (setloglevel_edit l) s of
     (Returns (Inr _), s') \<Rightarrow>
       (Returns (Ok ()), println ''Log level set, now restart the daemon for this to take effect.'' s')
   | r \<Rightarrow> r)"

section \<open>Printing the configuration\<close>

definition max_len :: "string list \<Rightarrow> nat" where
  "max_len names = fold (\<lambda>n m. max m (utf8_len n)) names 0"

definition show_endpoint :: "nat \<Rightarrow> endpoint \<Rightarrow> string" where
  "show_endpoint width e =
     pad width (ep_dns e) @ tab @ show_u16 (ep_port e) @ tab @ show_bool (ep_enabled e) @ tab
       @ show_u16 (ep_maxconns e) @ tab @ tab @ show_u16 (ep_maxidle e) @ tab @ tab
       @ (case ep_healthcheck e of
            None \<Rightarrow> ''Not Configured''
          | Some hc \<Rightarrow> ''Port '' @ show_u16 (unwrap_or (hc_port hc) (ep_port e))
              @ '' HealthyThreshold '' @ show_u16 (unwrap_or (hc_consider_healthy_threshold hc) 3)
              @ '' UnhealthyThreshold '' @ show_u16 (unwrap_or (hc_consider_unhealthy_threshold hc) 3)
              @ '' FreqSecs '' @ show_u16 (unwrap_or (hc_frequency_secs hc) 5))"

definition print_endpoints :: "endpoint list \<Rightarrow> string list" where
  "print_endpoints es =
     (if es \<noteq> [] then
        (let width = max_len (map ep_dns es) in
         (pad width ''DNS'' @ tab @ ''Port'' @ tab @ ''Enabled'' @ tab @ ''MaxConns'' @ tab @ ''MaxIdleConns'' @ tab
            @ ''HealthCheck'') # map (show_endpoint width) es)
      else [''No endpoints configured''])"

definition print_ssh :: "env \<Rightarrow> ssh option \<Rightarrow> halt + string list" where
  "print_ssh env sshcfg = (case sshcfg of
     None \<Rightarrow> Ok [''SSH not configured'']
   | Some cfg \<Rightarrow>
       and_then (case ssh_hostname_override cfg of Some h \<Rightarrow> Ok h | None \<Rightarrow> hostname_or_die env) (\<lambda>hostname.
         (let width = utf8_len hostname in
          Ok [pad width ''Hostname'' @ tab @ ''Port'' @ tab @ ''Enabled'' @ tab @ ''MaxConns'' @ tab
                @ ''MaxIdleConns'' @ tab,
              pad width hostname @ tab @ show_u16 (ssh_port cfg) @ tab @ show_bool (ssh_enabled cfg) @ tab
                @ show_u16 (ssh_maxconns cfg) @ tab @ tab @ show_u16 (ssh_maxidle cfg)])))"

definition printlns :: "string list \<Rightarrow> 'z cli_scheme \<Rightarrow> 'z cli_scheme" where
  "printlns ms s = fold println ms s"

definition printconfignokey :: "cli_env \<Rightarrow> cli \<Rightarrow> unit cmd_result \<times> cli" where
  "printconfignokey cv s = (case load_from_file_or_new (cv_yaml cv) (cv_host cv) (cl_fs s) of
     Inl e \<Rightarrow> (Returns (Err (CliConfigError e)), s)
   | Inr existing \<Rightarrow>
       (let s1 = printlns ([''Endpoint Configuration'', ''----------------------'']
               @ print_endpoints (cfg_endpoints existing)
               @ ['''', ''SSH Configuration'', ''-----------------'']) s
        in case print_ssh (cv_env cv) (cfg_ssh existing) of
             Inl _ \<Rightarrow> (Dies, s1)
           | Inr ls \<Rightarrow> (Returns (Ok ()), printlns ls s1)))"

section \<open>Dispatch\<close>

definition run_config_command :: "cli_env \<Rightarrow> config_command \<Rightarrow> cli \<Rightarrow> unit cmd_result \<times> cli" where
  "run_config_command cv cmd s = (case cmd of
     CmdEnable args \<Rightarrow> (let (r, s') = enabledisable cv True (ed_target args) s
       in (handle_enable_disable_ret True args r, s'))
   | CmdDisable args \<Rightarrow> (let (r, s') = enabledisable cv False (ed_target args) s
       in (handle_enable_disable_ret False args r, s'))
   | CmdAddEndpoint args \<Rightarrow> add_endpoint cv args s
   | CmdRemoveEndpoint args \<Rightarrow> remove_endpoint cv args s
   | CmdPrint \<Rightarrow> printconfignokey cv s
   | CmdSetupSsh args \<Rightarrow> setup_ssh cv args s
   | CmdRemoveSsh \<Rightarrow> remove_ssh cv s
   | CmdLogLevel l \<Rightarrow> setloglevel cv l s)"

text \<open>What \<open>main\<close> prints on standard error before it exits with status 1; \<open>None\<close> is status 0. A command
  that ended in \<open>hostname_or_die\<close> has exited already.\<close>

fun error_message :: "cli_error \<Rightarrow> string" where
  "error_message (CliConfigError FilePermissions) =
     ''Permissions issue regarding configuration file, are you running this with elevated privelages?''"
| "error_message (CliConfigError FileNotFound) =
     ''Expected configuration file not found, has initialization occurred yet?''"
| "error_message (CliConfigError Parsing) =
     ''Failed to parse configuration properly, please notify Ebbflow''"
| "error_message (CliConfigError (Unknown s)) = ''Unexpected error: '' @ s @ '', Please notify Ebbflow''"
| "error_message (CliConfigError Empty) = ''The configuration file is empty''"
| "error_message (CliStdIoError _) = ''Issue reading or writing to/from stdin or out, weird!''"
| "error_message (CliHttp e) =
     ''Problem making HTTP request to Ebbflow, please try again soon. For debugging: '' @ e"
| "error_message (CliOther e) = ''Unexpected error: '' @ e"

definition main_exit :: "unit cmd_result \<Rightarrow> string option" where
  "main_exit r = (case r of
     Returns (Inr _) \<Rightarrow> None
   | Returns (Inl e) \<Rightarrow> Some (''ERROR: '' @ error_message e)
   | Exits m \<Rightarrow> Some (''ERROR: '' @ m)
   | Dies \<Rightarrow> Some [])"

section \<open>The contract of an edit\<close>

definition names_distinct :: "daemon_config \<Rightarrow> bool" where
  "names_distinct c \<longleftrightarrow> distinct (map ep_dns (cfg_endpoints c))"

text \<open>The configuration on disk, if it can be loaded, names each endpoint once.\<close>

definition file_ok :: "cli_env \<Rightarrow> fs \<Rightarrow> bool" where
  "file_ok cv w \<longleftrightarrow>
     (case load_from_file (cv_yaml cv) (cv_host cv) w of Inr c \<Rightarrow> names_distinct c | Inl _ \<Rightarrow> True)"

lemma load_or_new_ok:
  "file_ok cv w \<Longrightarrow> load_from_file_or_new (cv_yaml cv) (cv_host cv) w = Inr c \<Longrightarrow> names_distinct c"
  by (auto simp: file_ok_def load_from_file_or_new_def new_config_def names_distinct_def
      split: sum.splits if_splits)

text \<open>The configuration file can be read and written.\<close>

definition disk_ok :: "cli_env \<Rightarrow> fs \<Rightarrow> bool" where
  "disk_ok cv w \<longleftrightarrow> fs_read_fault w (config_file_full (cv_host cv)) = None \<and>
     fs_write_fault w (config_file_full (cv_host cv)) = None"

lemma save_disk_ok:
  assumes "disk_ok cv w" "save_to_file (cv_yaml cv) (cv_host cv) c w = (r, w')"
  shows "disk_ok cv w' \<and> (isl r \<longrightarrow> w' = w)"
  using assms by (auto simp: disk_ok_def save_to_file_def fs_write_def split: option.splits prod.splits)

lemma edit_config_cases:
  assumes "disk_ok cv (cl_fs s)" "edit_config cv edit s = (r, s')"
  obtains (same) "s' = s" "\<And>x. r \<noteq> Returns (Ok x)"
  | (saved) c c' x where "load_from_file_or_new (cv_yaml cv) (cv_host cv) (cl_fs s) = Inr c" "edit c = Edited c' x"
      "save_to_file (cv_yaml cv) (cv_host cv) c' (cl_fs s) = (Inr (), cl_fs s')" "r = Returns (Ok x)"
      "s' = s\<lparr>cl_fs := cl_fs s'\<rparr>" "disk_ok cv (cl_fs s')"
proof (cases "load_from_file_or_new (cv_yaml cv) (cv_host cv) (cl_fs s)")
  case (Inl e)
  with assms(2) same show thesis by (auto simp: edit_config_def)
next
  case ld: (Inr c)
  show thesis
  proof (cases "edit c")
    case (Refuse m)
    with assms(2) ld same show thesis by (auto simp: edit_config_def)
  next
    case ed: (Edited c' x)
    obtain q w where sv: "save_to_file (cv_yaml cv) (cv_host cv) c' (cl_fs s) = (q, w)"
      by (cases "save_to_file (cv_yaml cv) (cv_host cv) c' (cl_fs s)")
    note ok = save_disk_ok [OF assms(1) sv]
    from assms(2) have "r = Returns (and_then (map_err CliConfigError q) (\<lambda>_. Ok x))" "s' = s\<lparr>cl_fs := w\<rparr>"
      by (simp_all add: edit_config_def ld ed sv)
    with ok saved [OF ld ed] sv same show thesis by (cases q) auto
  qed
qed

locale config_edit =
  fixes edit :: "daemon_config \<Rightarrow> 'a edit_result"
  assumes keeps_names: "names_distinct c \<Longrightarrow> edit c = Edited c' a \<Longrightarrow> names_distinct c'"
begin

lemma edit_keeps_file:
  assumes "yaml_roundtrip (cv_yaml cv)" and "disk_ok cv (cl_fs s)" and "file_ok cv (cl_fs s)"
  shows "file_ok cv (cl_fs (snd (edit_config cv edit s))) \<and> disk_ok cv (cl_fs (snd (edit_config cv edit s)))"
  using assms(2) prod.collapse [symmetric, of "edit_config cv edit s"]
proof (cases rule: edit_config_cases)
  case same
  with assms show ?thesis by simp
next
  case (saved c c' x)
  have "names_distinct c'" using keeps_names load_or_new_ok [OF assms(3) saved(1)] saved(2) by blast
  moreover have "load_from_file (cv_yaml cv) (cv_host cv) (cl_fs (snd (edit_config cv edit s))) = Inr c'"
    using assms(1) saved(3) by (rule load_after_save) (use assms(2) in \<open>simp add: disk_ok_def\<close>)
  ultimately show ?thesis using saved(6) by (simp add: file_ok_def)
qed

end

lemma set_enabled_loop_map:
  "set_enabled_loop enabled dns es f m = (es', r) \<Longrightarrow>
     es' = map (\<lambda>e. if dns = None \<or> dns = Some (ep_dns e) then e\<lparr>ep_enabled := enabled\<rparr> else e) es"
  by (induction enabled dns es f m arbitrary: es' r rule: set_enabled_loop.induct)
    (auto simp: Let_def split: prod.splits option.splits if_splits)

lemma set_enabled_names:
  "set_enabled_loop enabled dns es f m = (es', r) \<Longrightarrow> map ep_dns es' = map ep_dns es"
  by (drule set_enabled_loop_map) (simp add: comp_def if_distrib [of ep_dns] cong: if_cong)

interpretation enable_edit: config_edit "set_endpoint_enabled_edit enabled dns" for enabled dns
  by unfold_locales
    (auto simp: set_endpoint_enabled_edit_def names_distinct_def split: prod.splits dest!: set_enabled_names)

interpretation ssh_enable_edit: config_edit "set_ssh_enabled_edit enabled" for enabled
  by unfold_locales (auto simp: set_ssh_enabled_edit_def names_distinct_def split: option.splits if_splits)

interpretation add_edit: config_edit "add_endpoint_edit args" for args
  by unfold_locales (fastforce simp: add_endpoint_edit_def names_distinct_def Let_def split: if_splits)

interpretation remove_edit: config_edit "remove_endpoint_edit args" for args
  by unfold_locales (auto simp: remove_endpoint_edit_def names_distinct_def distinct_map_filter Let_def split: if_splits)

interpretation setup_ssh_edit: config_edit "setup_ssh_edit args" for args
  by unfold_locales (auto simp: setup_ssh_edit_def names_distinct_def split: if_splits)

interpretation remove_ssh_edit: config_edit remove_ssh_edit
  by unfold_locales (auto simp: remove_ssh_edit_def names_distinct_def)

interpretation loglevel_edit: config_edit "setloglevel_edit l" for l
  by unfold_locales (auto simp: setloglevel_edit_def names_distinct_def)

end
