(* ===== verification/Cli_Props.thy ===== *)
theory Cli_Props
  imports Cli
begin

text \<open>
  The properties of the configuration commands (theory \<open>Cli\<close>): they keep endpoint names distinct, a
  command that fails changes nothing, what enable and disable do and report, adding and removing are
  inverse, and the truncation of \<open>--maxidle\<close>.
\<close>

section \<open>Commands as edits\<close>

lemma enabledisable_keeps_file:
  assumes "yaml_roundtrip (cv_yaml cv)" "disk_ok cv (cl_fs s)" "file_ok cv (cl_fs s)"
  shows "file_ok cv (cl_fs (snd (enabledisable cv b target s))) \<and> disk_ok cv (cl_fs (snd (enabledisable cv b target s)))"
  by (cases target) (simp_all add: enabledisable_def set_ssh_enabled_def set_endpoint_enabled_def
      enable_edit.edit_keeps_file [OF assms] ssh_enable_edit.edit_keeps_file [OF assms])

lemma cl_fs_println [simp]: "cl_fs (println m s) = cl_fs s"
  by (simp add: println_def)

lemma cl_fs_printlns [simp]: "cl_fs (printlns ms s) = cl_fs s"
  unfolding printlns_def by (induction ms arbitrary: s) auto

lemma print_keeps_fs: "cl_fs (snd (printconfignokey cv s)) = cl_fs s"
  by (simp add: printconfignokey_def Let_def split: sum.splits)

lemma setloglevel_fs: "cl_fs (snd (setloglevel cv l s)) = cl_fs (snd (edit_config cv (setloglevel_edit l) s))"
  by (auto simp: setloglevel_def split: prod.splits cmd_result.splits sum.splits)

lemmas command_defs = run_config_command_def add_endpoint_def remove_endpoint_def setup_ssh_def remove_ssh_def

lemma command_keeps_file:
  assumes y: "yaml_roundtrip (cv_yaml cv)" and ok: "disk_ok cv (cl_fs s)" "file_ok cv (cl_fs s)"
  shows "file_ok cv (cl_fs (snd (run_config_command cv cmd s))) \<and>
    disk_ok cv (cl_fs (snd (run_config_command cv cmd s)))"
  by (cases cmd)
    (simp_all add: command_defs split_beta print_keeps_fs setloglevel_fs ok enabledisable_keeps_file [OF y ok]
      add_edit.edit_keeps_file [OF y ok] remove_edit.edit_keeps_file [OF y ok]
      setup_ssh_edit.edit_keeps_file [OF y ok] remove_ssh_edit.edit_keeps_file [OF y ok]
      loglevel_edit.edit_keeps_file [OF y ok])

section \<open>The enable loop\<close>

lemma set_enabled_loop_absent:
  "d \<notin> ep_dns ` set es \<Longrightarrow> set_enabled_loop b (Some d) es f m = (es, f, m)"
  by (induction es arbitrary: f m) auto

lemma set_enabled_loop_present:
  assumes "distinct (map ep_dns es)" "e \<in> set es" "ep_dns e = d"
  shows "snd (set_enabled_loop b (Some d) es f m) = (True, ep_enabled e \<noteq> b)"
  using assms
proof (induction es arbitrary: f m)
  case (Cons x xs)
  show ?case
  proof (cases "x = e")
    case True
    with Cons.prems have "d \<notin> ep_dns ` set xs" by auto
    with True Cons.prems show ?thesis by (simp add: set_enabled_loop_absent)
  next
    case False
    with Cons.prems have "e \<in> set xs" "ep_dns x \<noteq> d" by auto
    with Cons show ?thesis by (simp add: split_beta)
  qed
qed simp

lemma set_enabled_loop_all:
  "es \<noteq> [] \<Longrightarrow> snd (set_enabled_loop b None es f m) = (True, True)"
proof (induction es arbitrary: f m)
  case (Cons x xs)
  then show ?case by (cases xs) (simp_all add: split_beta)
qed simp

text \<open>With distinct names the second flag says whether the configuration changed.\<close>

lemma unmutated_edit_same:
  assumes "names_distinct c" "set_endpoint_enabled_edit b dns c = Edited c' (found, False)"
  shows "c' = c"
proof -
  let ?es = "cfg_endpoints c"
  obtain es where loop: "set_enabled_loop b dns ?es False False = (es, found, False)" and c': "c' = c\<lparr>cfg_endpoints := es\<rparr>"
    using assms(2) by (auto simp: set_endpoint_enabled_edit_def split: prod.splits)
  have es: "es = map (\<lambda>e. if dns = None \<or> dns = Some (ep_dns e) then e\<lparr>ep_enabled := b\<rparr> else e) ?es"
    using loop by (rule set_enabled_loop_map)
  have "ep_enabled e = b" if "e \<in> set ?es" "dns = None \<or> dns = Some (ep_dns e)" for e
  proof (cases dns)
    case None
    moreover from that(1) have "?es \<noteq> []" by auto
    ultimately show ?thesis using set_enabled_loop_all [of ?es b False False] loop by simp
  next
    case (Some d)
    with that set_enabled_loop_present [of ?es e d b False False] assms(1) loop show ?thesis
      by (simp add: names_distinct_def)
  qed
  then have "es = ?es" unfolding es by (intro map_idI) auto
  then show ?thesis by (simp add: c')
qed

lemma handle_ret_exit:
  "main_exit (handle_enable_disable_ret b args (Returns (Inr (found, mutated)))) \<noteq> None \<Longrightarrow> \<not> (found \<and> mutated)"
  by (auto simp: main_exit_def handle_enable_disable_ret_def Let_def split: if_splits)

lemma set_enabled_flags: "set_endpoint_enabled_edit b dns c = Edited c' (False, m) \<Longrightarrow> \<not> m"
proof -
  have "(g \<longrightarrow> f) \<Longrightarrow> snd (snd (set_enabled_loop b dns es f g)) \<longrightarrow> fst (snd (set_enabled_loop b dns es f g))" for es f g
    by (induction es arbitrary: f g) (simp_all add: split_beta split: option.split)
  from this [of False False "cfg_endpoints c"]
  show "set_endpoint_enabled_edit b dns c = Edited c' (False, m) \<Longrightarrow> \<not> m"
    by (auto simp: set_endpoint_enabled_edit_def split: prod.splits)
qed

lemma load_or_new_after_save:
  assumes "yaml_roundtrip (cv_yaml cv)" "disk_ok cv w" "save_to_file (cv_yaml cv) (cv_host cv) c w = (Inr (), w')"
  shows "load_from_file (cv_yaml cv) (cv_host cv) w' = Inr c" "load_from_file_or_new (cv_yaml cv) (cv_host cv) w' = Inr c"
  using load_after_save [OF assms(1,3)] assms(2) by (simp_all add: disk_ok_def load_from_file_or_new_def)

text \<open>The write of the configuration file failed: the command reports its error, and in the file is what the
  failed write left there.\<close>

definition write_failed :: "cli_env \<Rightarrow> cli \<Rightarrow> cli_error \<Rightarrow> cli \<Rightarrow> bool" where
  "write_failed cv s err s' \<longleftrightarrow> (\<exists>e remains.
     fs_write_fault (cl_fs s) (config_file_full (cv_host cv)) = Some (e, remains) \<and>
     err = CliConfigError (config_error_from e) \<and>
     fs_files (cl_fs s') = (fs_files (cl_fs s))(config_file_full (cv_host cv) := remains))"

text \<open>The configuration that is loaded next is the same, unless the write failed; other files are as they
  were.\<close>

definition config_kept :: "cli_env \<Rightarrow> cli \<Rightarrow> 'a cmd_result \<Rightarrow> cli \<Rightarrow> bool" where
  "config_kept cv s r s' \<longleftrightarrow>
     (load_from_file_or_new (cv_yaml cv) (cv_host cv) (cl_fs s') =
        load_from_file_or_new (cv_yaml cv) (cv_host cv) (cl_fs s) \<or>
      (\<exists>err. r = Returns (Err err) \<and> write_failed cv s err s')) \<and>
     (\<forall>q. q \<noteq> config_file_full (cv_host cv) \<longrightarrow> fs_files (cl_fs s') q = fs_files (cl_fs s) q)"

lemma edit_config_outcomes:
  assumes "edit_config cv edit s = (r, s')"
  obtains (same) "s' = s"
  | (saved) c c' x where "load_from_file_or_new (cv_yaml cv) (cv_host cv) (cl_fs s) = Inr c" "edit c = Edited c' x"
      "save_to_file (cv_yaml cv) (cv_host cv) c' (cl_fs s) = (Inr (), cl_fs s')" "r = Returns (Ok x)"
  | (failed) err where "r = Returns (Err err)" "write_failed cv s err s'"
proof (cases "load_from_file_or_new (cv_yaml cv) (cv_host cv) (cl_fs s)")
  case (Inl e)
  with assms same show thesis by (simp add: edit_config_def)
next
  case (Inr c)
  show thesis
  proof (cases "edit c")
    case (Refuse m)
    with Inr assms same show thesis by (simp add: edit_config_def)
  next
    case (Edited c' x)
    obtain q w where sv: "save_to_file (cv_yaml cv) (cv_host cv) c' (cl_fs s) = (q, w)"
      by (cases "save_to_file (cv_yaml cv) (cv_host cv) c' (cl_fs s)")
    have res: "r = Returns (and_then (map_err CliConfigError q) (\<lambda>_. Ok x))" "s' = s\<lparr>cl_fs := w\<rparr>"
      using Inr Edited sv assms by (simp_all add: edit_config_def)
    show thesis
    proof (cases q)
      case (Inr u)
      with saved [OF \<open>_ = Inr c\<close> Edited] sv res show thesis by simp
    next
      case (Inl e)
      with sv res same failed [of "CliConfigError e"] show thesis
        by (auto simp: save_to_file_def fs_write_def write_failed_def split: option.splits)
    qed
  qed
qed

lemma load_or_new_unreadable:
  assumes "fs_read_fault w (config_file_full h) = Some e" "fs_read_fault w' = fs_read_fault w"
  shows "load_from_file_or_new y h w' = load_from_file_or_new y h w"
  using assms by (simp add: load_from_file_or_new_def ebb_files)

lemma load_or_new_resaved:
  assumes "yaml_roundtrip y" "save_to_file y h c w = (Inr (), w')" "load_from_file_or_new y h w = Inr c"
  shows "load_from_file_or_new y h w' = load_from_file_or_new y h w"
proof (cases "fs_read_fault w (config_file_full h)")
  case None
  from load_after_save [OF assms(1,2) this] assms(3) show ?thesis by (simp add: load_from_file_or_new_def)
next
  case (Some e)
  from assms(2) have "fs_read_fault w' = fs_read_fault w"
    by (rule save_to_file_Inr) (auto dest: fs_write_Inr)
  with Some show ?thesis by (rule load_or_new_unreadable)
qed

lemma edit_config_kept:
  assumes "yaml_roundtrip (cv_yaml cv)" "file_ok cv (cl_fs s)" "edit_config cv edit s = (q, t)"
    and same: "\<And>c c' x. names_distinct c \<Longrightarrow> edit c = Edited c' x \<Longrightarrow> q = Returns (Ok x) \<Longrightarrow> c' = c"
  shows "config_kept cv s q t"
  using assms(3)
proof (cases rule: edit_config_outcomes)
  case (saved c c' x)
  have "c' = c" using same [OF load_or_new_ok [OF assms(2) saved(1)] saved(2,4)] .
  with load_or_new_resaved [OF assms(1)] saved
  have "load_from_file_or_new (cv_yaml cv) (cv_host cv) (cl_fs t) = load_from_file_or_new (cv_yaml cv) (cv_host cv) (cl_fs s)"
    by blast
  with saved(3) show ?thesis by (auto simp: config_kept_def dest: fs_write_Inr elim!: save_to_file_Inr)
next
  case (failed err)
  then show ?thesis by (auto simp: config_kept_def write_failed_def)
qed (simp add: config_kept_def)

lemma main_exit_Ok [simp]: "main_exit (Returns (Inr u)) = None"
  by (simp add: main_exit_def)

lemma setloglevel_exit:
  assumes "setloglevel cv l s = (r, s')" "main_exit r \<noteq> None"
  shows "edit_config cv (setloglevel_edit l) s = (r, s')"
  using assms by (auto simp: setloglevel_def split: prod.splits cmd_result.splits sum.splits)

lemma enabledisable_kept:
  assumes "yaml_roundtrip (cv_yaml cv)" "file_ok cv (cl_fs s)"
    and "enabledisable cv b target s = (r, s')" "main_exit (handle_enable_disable_ret b args r) \<noteq> None"
  shows "config_kept cv s r s'"
proof -
  have ep: "c' = c" if "names_distinct c" "set_endpoint_enabled_edit b dns c = Edited c' x" "r = Returns (Ok x)" for dns c c' x
  proof -
    obtain found mutated where x: "x = (found, mutated)" by (cases x)
    have "\<not> mutated"
      using handle_ret_exit [of b args found mutated] assms(4) that(2,3) set_enabled_flags [of b dns c c' mutated] x by auto
    with unmutated_edit_same [OF that(1)] that(2) x show ?thesis by simp
  qed
  have ssh: "c' = c" if "set_ssh_enabled_edit b c = Edited c' x" "r = Returns (Ok x)" for c c' x
    using that handle_ret_exit [of b args True True] assms(4)
    by (auto simp: set_ssh_enabled_edit_def split: option.splits if_splits)
  have "edit_config cv (case target of TargetSsh \<Rightarrow> set_ssh_enabled_edit b
      | AllEndpoints \<Rightarrow> set_endpoint_enabled_edit b None
      | TargetEndpoint d \<Rightarrow> set_endpoint_enabled_edit b (Some d)) s = (r, s')"
    using assms(3)
    by (cases target) (simp_all add: enabledisable_def set_ssh_enabled_def set_endpoint_enabled_def)
  from edit_config_kept [OF assms(1,2) this] ep ssh show ?thesis by (cases target) auto
qed

lemma handle_ret_kept:
  "config_kept cv s r s' \<Longrightarrow> config_kept cv s (handle_enable_disable_ret b args r) s'"
  by (auto simp: config_kept_def handle_enable_disable_ret_def)

section \<open>Properties\<close>

definition run_commands :: "cli_env \<Rightarrow> config_command list \<Rightarrow> cli \<Rightarrow> cli" where
  "run_commands cv cmds s = fold (\<lambda>cmd s. snd (run_config_command cv cmd s)) cmds s"

text \<open>C14. The commands keep endpoint names distinct: from a file that names each endpoint once (or that is
  absent), any sequence of configuration commands, also ones that are refused or fail, leaves such a
  file, if YAML round-trips and the file can be read and written. So the restarts that a name configured
  twice causes in the daemon cannot come from the command line.\<close>

theorem commands_keep_names:
  assumes "yaml_roundtrip (cv_yaml cv)" and "disk_ok cv (cl_fs s)" and "file_ok cv (cl_fs s)"
  shows "file_ok cv (cl_fs (run_commands cv cmds s))"
proof -
  have "file_ok cv (cl_fs (run_commands cv cmds s)) \<and> disk_ok cv (cl_fs (run_commands cv cmds s))"
    using assms(2,3) unfolding run_commands_def
    by (induction cmds arbitrary: s) (simp_all add: command_keeps_file [OF assms(1)])
  then show ?thesis ..
qed

text \<open>The command line of the witnesses: the file holds \<open>demo_config\<close> and the YAML functions know
  it and the configuration with its endpoint disabled.\<close>

definition demo_disabled :: daemon_config where
  "demo_disabled = demo_config\<lparr>cfg_endpoints := [demo_endpoint\<lparr>ep_enabled := False\<rparr>]\<rparr>"

definition demo_yaml :: yaml where
  "demo_yaml = \<lparr>yaml_to_string = (\<lambda>x. if x = demo_config then Some ''doc'' else if x = demo_disabled then Some ''off'' else None),
     yaml_from_slice = (\<lambda>s. if s = ''doc'' then Some (FullConfig demo_config)
        else if s = ''off'' then Some (FullConfig demo_disabled) else if s = [] then Some EmptyConfig else None)\<rparr>"

definition demo_cli_env :: cli_env where
  "demo_cli_env = \<lparr>cv_yaml = demo_yaml, cv_host = demo_host,
     cv_env = \<lparr>env_now = (\<lambda>_. ''now''), env_lookup = (\<lambda>_ _. []), env_hostname = Hostname ''host''\<rparr>\<rparr>"

definition demo_cli :: cli where
  "demo_cli = \<lparr>cl_fs = \<lparr>fs_files = [config_file_full demo_host \<mapsto> ''doc''], fs_read_fault = (\<lambda>_. None),
     fs_write_fault = (\<lambda>_. None)\<rparr>, cl_out = [], cl_stdin = []\<rparr>"

definition demo_target :: "bool \<Rightarrow> enable_disable_args" where
  "demo_target b = \<lparr>ed_target = TargetEndpoint ''a.com'', ed_idempotent = b\<rparr>"

lemma demo_yaml_roundtrip: "yaml_roundtrip (cv_yaml demo_cli_env)"
  by (auto simp: yaml_roundtrip_def demo_cli_env_def demo_yaml_def)

lemma demo_load: "load_from_file (cv_yaml demo_cli_env) (cv_host demo_cli_env) (cl_fs demo_cli) = Ok demo_config"
  by (simp add: ebb_files demo_cli_def demo_cli_env_def demo_yaml_def)

lemma demo_cli_ok: "disk_ok demo_cli_env (cl_fs demo_cli)" "file_ok demo_cli_env (cl_fs demo_cli)"
  by (simp_all add: disk_ok_def file_ok_def demo_load)
    (simp_all add: demo_cli_def names_distinct_def demo_config_def)

theorem commands_keep_names_witness:
  "file_ok demo_cli_env (cl_fs (run_commands demo_cli_env [CmdDisable (demo_target False), CmdRemoveSsh] demo_cli))"
  by (rule commands_keep_names [OF demo_yaml_roundtrip demo_cli_ok])

text \<open>C29. A command that fails changes nothing, whatever faults reading and writing have: when the file names
  each endpoint once and a configuration command ends with an error, then the configuration that is
  loaded next is the one before the command, unless it was the write of the file that failed; then the
  error is the one reported, and the file is what the write left of it. No other file ever changes.\<close>

theorem failed_command_keeps_config:
  assumes "yaml_roundtrip (cv_yaml cv)" and "file_ok cv (cl_fs s)"
    and "run_config_command cv cmd s = (r, s')" and "main_exit r \<noteq> None"
  shows "(load_from_file_or_new (cv_yaml cv) (cv_host cv) (cl_fs s') =
      load_from_file_or_new (cv_yaml cv) (cv_host cv) (cl_fs s) \<or>
    (\<exists>e remains. fs_write_fault (cl_fs s) (config_file_full (cv_host cv)) = Some (e, remains) \<and>
      r = Returns (Err (CliConfigError (config_error_from e))) \<and>
      fs_files (cl_fs s') = (fs_files (cl_fs s))(config_file_full (cv_host cv) := remains))) \<and>
    (\<forall>q. q \<noteq> config_file_full (cv_host cv) \<longrightarrow> fs_files (cl_fs s') q = fs_files (cl_fs s) q)"
proof -
  have failed: "config_kept cv s r s'" if "edit_config cv edit s = (r, s')" for edit
    by (rule edit_config_kept [OF assms(1,2) that]) (use assms(4) in auto)
  have "config_kept cv s r s'"
  proof (cases cmd)
    case (CmdEnable args)
    with assms(3,4) enabledisable_kept [OF assms(1,2), of True "ed_target args", THEN handle_ret_kept] show ?thesis
      by (simp add: run_config_command_def split: prod.splits) blast
  next
    case (CmdDisable args)
    with assms(3,4) enabledisable_kept [OF assms(1,2), of False "ed_target args", THEN handle_ret_kept] show ?thesis
      by (simp add: run_config_command_def split: prod.splits) blast
  next
    case CmdPrint
    with assms(3) print_keeps_fs [of cv s] show ?thesis by (simp add: run_config_command_def config_kept_def)
  next
    case (CmdLogLevel l)
    with assms(3,4) setloglevel_exit [of cv l s r s'] failed show ?thesis
      by (simp add: run_config_command_def)
  qed (use assms(3) failed in \<open>simp_all add: command_defs\<close>)
  then show ?thesis unfolding config_kept_def write_failed_def by blast
qed

lemma demo_enable_again:
  "run_config_command demo_cli_env (CmdEnable (demo_target False)) demo_cli =
     (Exits ''The specified target was not enabled: a.com'', snd (run_config_command demo_cli_env (CmdEnable (demo_target False)) demo_cli))"
proof -
  have "load_from_file_or_new (cv_yaml demo_cli_env) (cv_host demo_cli_env) (cl_fs demo_cli) = Ok demo_config"
    by (simp add: load_from_file_or_new_def demo_load)
  moreover have "set_endpoint_enabled_edit True (Some ''a.com'') demo_config = Edited demo_config (True, False)"
    by (simp add: set_endpoint_enabled_edit_def demo_config_def demo_endpoint_def)
  moreover have "fst (save_to_file (cv_yaml demo_cli_env) (cv_host demo_cli_env) demo_config (cl_fs demo_cli)) = Ok ()"
    by (simp add: save_to_file_def fs_write_def demo_cli_env_def demo_yaml_def demo_cli_def)
  ultimately show ?thesis
    by (simp add: run_config_command_def enabledisable_def set_endpoint_enabled_def edit_config_def demo_target_def
        handle_enable_disable_ret_def split_beta)
qed

text \<open>In the witness the disk is full: the write fails and leaves an empty file.\<close>

definition demo_full_disk :: cli where
  "demo_full_disk = demo_cli\<lparr>cl_fs := (cl_fs demo_cli)\<lparr>fs_write_fault :=
     (\<lambda>_. Some (\<lparr>io_kind = OtherKind, io_debug = ''full''\<rparr>, Some []))\<rparr>\<rparr>"

lemma demo_full_disk_fails:
  "fst (run_config_command demo_cli_env CmdRemoveSsh demo_full_disk) =
     Returns (Err (CliConfigError (Unknown ''Unexepected error reading config file full'')))"
  by (simp add: run_config_command_def remove_ssh_def edit_config_def load_from_file_or_new_def ebb_files
      demo_full_disk_def demo_cli_def demo_cli_env_def demo_yaml_def remove_ssh_edit_def demo_config_def
      save_to_file_def fs_write_def config_error_from_def)

theorem failed_command_keeps_config_witness:
  "load_from_file_or_new (cv_yaml demo_cli_env) (cv_host demo_cli_env)
     (cl_fs (snd (run_config_command demo_cli_env (CmdEnable (demo_target False)) demo_cli))) = Ok demo_config \<and>
   fs_files (cl_fs (snd (run_config_command demo_cli_env CmdRemoveSsh demo_full_disk)))
     (key_file_full demo_host) = None"
proof
  show "load_from_file_or_new (cv_yaml demo_cli_env) (cv_host demo_cli_env)
     (cl_fs (snd (run_config_command demo_cli_env (CmdEnable (demo_target False)) demo_cli))) = Ok demo_config"
    using failed_command_keeps_config [OF demo_yaml_roundtrip demo_cli_ok(2) demo_enable_again] demo_load
    by (simp add: main_exit_def load_from_file_or_new_def demo_cli_def)
  have "file_ok demo_cli_env (cl_fs demo_full_disk)"
    by (simp add: file_ok_def ebb_files demo_full_disk_def demo_cli_def demo_cli_env_def demo_yaml_def
        names_distinct_def demo_config_def)
  note kept = failed_command_keeps_config [OF demo_yaml_roundtrip this prod.collapse [symmetric], of CmdRemoveSsh]
  have "main_exit (fst (run_config_command demo_cli_env CmdRemoveSsh demo_full_disk)) \<noteq> None"
    by (simp add: demo_full_disk_fails main_exit_def)
  moreover have "key_file_full demo_host \<noteq> config_file_full (cv_host demo_cli_env)" by (simp add: demo_cli_env_def)
  ultimately have "fs_files (cl_fs (snd (run_config_command demo_cli_env CmdRemoveSsh demo_full_disk))) (key_file_full demo_host) =
      fs_files (cl_fs demo_full_disk) (key_file_full demo_host)"
    using kept by blast
  then show "fs_files (cl_fs (snd (run_config_command demo_cli_env CmdRemoveSsh demo_full_disk)))
     (key_file_full demo_host) = None"
    by (simp add: demo_full_disk_def demo_cli_def)
qed

text \<open>The configuration with one endpoint switched on or off.\<close>

definition with_enabled :: "bool \<Rightarrow> string \<Rightarrow> daemon_config \<Rightarrow> daemon_config" where
  "with_enabled b d c =
     c\<lparr>cfg_endpoints := map (\<lambda>e. if ep_dns e = d then e\<lparr>ep_enabled := b\<rparr> else e) (cfg_endpoints c)\<rparr>"

lemma set_endpoint_enabled_edit_one:
  assumes "names_distinct c"
  shows "\<exists>found mutated. set_endpoint_enabled_edit b (Some d) c = Edited (with_enabled b d c) (found, mutated) \<and>
    (case find (\<lambda>e. ep_dns e = d) (cfg_endpoints c) of
       None \<Rightarrow> \<not> found | Some e \<Rightarrow> found \<and> (mutated \<longleftrightarrow> ep_enabled e \<noteq> b))"
proof -
  let ?es = "cfg_endpoints c"
  obtain es found mutated where loop: "set_enabled_loop b (Some d) ?es False False = (es, found, mutated)"
    by (cases "set_enabled_loop b (Some d) ?es False False")
  have "es = map (\<lambda>e. if ep_dns e = d then e\<lparr>ep_enabled := b\<rparr> else e) ?es"
    using set_enabled_loop_map [OF loop] by (auto intro: map_cong)
  moreover have "case find (\<lambda>e. ep_dns e = d) ?es of
       None \<Rightarrow> \<not> found | Some e \<Rightarrow> found \<and> (mutated \<longleftrightarrow> ep_enabled e \<noteq> b)"
  proof (cases "find (\<lambda>e. ep_dns e = d) ?es")
    case None
    then have "d \<notin> ep_dns ` set ?es" by (auto simp: find_None_iff)
    with None loop show ?thesis by (simp add: set_enabled_loop_absent)
  next
    case (Some e)
    then have "e \<in> set ?es" "ep_dns e = d" by (auto simp: find_Some_iff)
    with Some loop assms set_enabled_loop_present [of ?es e d b False False] show ?thesis
      by (simp add: names_distinct_def)
  qed
  ultimately show ?thesis using loop by (simp add: set_endpoint_enabled_edit_def with_enabled_def)
qed

text \<open>A load and a save that work.\<close>

lemma edit_config_run:
  assumes "disk_ok cv (cl_fs s)" "load_from_file_or_new (cv_yaml cv) (cv_host cv) (cl_fs s) = Ok c"
    and "edit c = Edited c' x" "yaml_to_string (cv_yaml cv) c' \<noteq> None"
  obtains s' where "edit_config cv edit s = (Returns (Ok x), s')" "disk_ok cv (cl_fs s')"
    "save_to_file (cv_yaml cv) (cv_host cv) c' (cl_fs s) = (Inr (), cl_fs s')"
proof -
  obtain r w where sv: "save_to_file (cv_yaml cv) (cv_host cv) c' (cl_fs s) = (r, w)"
    by (cases "save_to_file (cv_yaml cv) (cv_host cv) c' (cl_fs s)")
  have "r = Inr ()" using sv assms(1,4)
    by (auto simp: save_to_file_def fs_write_def disk_ok_def split: option.splits)
  with sv that [of "s\<lparr>cl_fs := w\<rparr>"] save_disk_ok [OF assms(1) sv] assms(2,3) show thesis
    by (simp add: edit_config_def)
qed

lemma enable_disable_saves:
  assumes "yaml_roundtrip (cv_yaml cv)" and "disk_ok cv (cl_fs s)"
    and "load_from_file_or_new (cv_yaml cv) (cv_host cv) (cl_fs s) = Ok c" and "names_distinct c"
    and "yaml_to_string (cv_yaml cv) (with_enabled b d c) \<noteq> None" and "ed_target args = TargetEndpoint d"
    and "run_config_command cv (if b then CmdEnable args else CmdDisable args) s = (r, s')"
  shows "save_to_file (cv_yaml cv) (cv_host cv) (with_enabled b d c) (cl_fs s) = (Inr (), cl_fs s') \<and>
    (main_exit r = None \<longleftrightarrow>
       (case find (\<lambda>e. ep_dns e = d) (cfg_endpoints c) of
          Some e \<Rightarrow> ep_enabled e \<noteq> b \<or> ed_idempotent args
        | None \<Rightarrow> \<not> b \<and> ed_idempotent args))"
proof -
  obtain found mutated where ed: "set_endpoint_enabled_edit b (Some d) c = Edited (with_enabled b d c) (found, mutated)"
    and flags: "case find (\<lambda>e. ep_dns e = d) (cfg_endpoints c) of
       None \<Rightarrow> \<not> found | Some e \<Rightarrow> found \<and> (mutated \<longleftrightarrow> ep_enabled e \<noteq> b)"
    using set_endpoint_enabled_edit_one [OF assms(4)] by blast
  obtain t where t: "edit_config cv (set_endpoint_enabled_edit b (Some d)) s = (Returns (Ok (found, mutated)), t)"
    and sv: "save_to_file (cv_yaml cv) (cv_host cv) (with_enabled b d c) (cl_fs s) = (Inr (), cl_fs t)"
    by (rule edit_config_run [where edit = "set_endpoint_enabled_edit b (Some d)", OF assms(2,3) ed assms(5)])
  have r: "r = handle_enable_disable_ret b args (Returns (Ok (found, mutated)))" and "s' = t"
    using assms(6,7) t by (auto simp: run_config_command_def enabledisable_def set_endpoint_enabled_def split: if_splits)
  moreover have "main_exit r = None \<longleftrightarrow>
       (case find (\<lambda>e. ep_dns e = d) (cfg_endpoints c) of
          Some e \<Rightarrow> ep_enabled e \<noteq> b \<or> ed_idempotent args
        | None \<Rightarrow> \<not> b \<and> ed_idempotent args)"
    using flags unfolding r by (auto simp: handle_enable_disable_ret_def main_exit_def split: option.splits)
  ultimately show ?thesis using sv by simp
qed

text \<open>C28. Enabling and disabling one endpoint: when the result can be written, the configuration that is
  loaded next differs from the one before only in that endpoint's \<open>enabled\<close>; the command succeeds
  exactly when the endpoint was configured with the other setting, or with \<open>--idempotent\<close> when it was
  configured so already or, for disabling, is not configured at all.\<close>

theorem enable_disable_endpoint:
  assumes "yaml_roundtrip (cv_yaml cv)" and "disk_ok cv (cl_fs s)"
    and "load_from_file_or_new (cv_yaml cv) (cv_host cv) (cl_fs s) = Ok c" and "names_distinct c"
    and "yaml_to_string (cv_yaml cv) (with_enabled b d c) \<noteq> None" and "ed_target args = TargetEndpoint d"
    and "run_config_command cv (if b then CmdEnable args else CmdDisable args) s = (r, s')"
  shows "load_from_file (cv_yaml cv) (cv_host cv) (cl_fs s') = Ok (with_enabled b d c) \<and>
    (main_exit r = None \<longleftrightarrow>
       (case find (\<lambda>e. ep_dns e = d) (cfg_endpoints c) of
          Some e \<Rightarrow> ep_enabled e \<noteq> b \<or> ed_idempotent args
        | None \<Rightarrow> \<not> b \<and> ed_idempotent args))"
  using enable_disable_saves [OF assms] load_or_new_after_save(1) [OF assms(1,2)] by blast

theorem enable_disable_endpoint_witness:
  "load_from_file (cv_yaml demo_cli_env) (cv_host demo_cli_env)
     (cl_fs (snd (run_config_command demo_cli_env (CmdDisable (demo_target False)) demo_cli))) = Ok demo_disabled"
proof -
  have d: "with_enabled False ''a.com'' demo_config = demo_disabled"
    by (simp add: with_enabled_def demo_disabled_def demo_config_def demo_endpoint_def)
  have "load_from_file_or_new (cv_yaml demo_cli_env) (cv_host demo_cli_env) (cl_fs demo_cli) = Ok demo_config"
    by (simp add: load_from_file_or_new_def demo_load)
  from enable_disable_endpoint [OF demo_yaml_roundtrip demo_cli_ok(1) this, of False "''a.com''" "demo_target False"]
  show ?thesis unfolding d
    by (simp add: names_distinct_def demo_config_def demo_target_def demo_cli_env_def demo_yaml_def prod_eq_iff)
qed

text \<open>C30. Removing undoes adding: when \<open>add-endpoint\<close> succeeded on a loaded configuration, the endpoint was
  not configured and is now the last one, enabled unless \<open>--disabled\<close> was given; and
  \<open>remove-endpoint\<close> of the same name then succeeds and brings back the configuration before.\<close>

theorem add_then_remove:
  assumes "yaml_roundtrip (cv_yaml cv)" and "disk_ok cv (cl_fs s)"
    and "load_from_file_or_new (cv_yaml cv) (cv_host cv) (cl_fs s) = Ok c"
    and "add_endpoint cv args s = (Returns (Ok ()), s1)"
    and "re_dns rargs = ae_dns args" and "remove_endpoint cv rargs s1 = (r, s2)"
    and "yaml_to_string (cv_yaml cv) c \<noteq> None"
  shows "ae_dns args \<notin> ep_dns ` set (cfg_endpoints c) \<and>
    load_from_file (cv_yaml cv) (cv_host cv) (cl_fs s1)
      = Ok (c\<lparr>cfg_endpoints := cfg_endpoints c @ [new_endpoint args]\<rparr>) \<and>
    ep_enabled (new_endpoint args) = (\<not> ae_disabled args) \<and>
    r = Returns (Ok ()) \<and> load_from_file (cv_yaml cv) (cv_host cv) (cl_fs s2) = Ok c"
proof -
  have dns: "ep_dns (new_endpoint args) = ae_dns args" by (simp add: new_endpoint_def)
  let ?c = "c\<lparr>cfg_endpoints := cfg_endpoints c @ [new_endpoint args]\<rparr>"
  have fresh: "ae_dns args \<notin> ep_dns ` set (cfg_endpoints c)"
    and sv: "save_to_file (cv_yaml cv) (cv_host cv) ?c (cl_fs s) = (Inr (), cl_fs s1)" and ok: "disk_ok cv (cl_fs s1)"
    using assms(2) assms(4) [unfolded add_endpoint_def]
    by (cases rule: edit_config_cases; use assms(3) in \<open>auto simp: add_endpoint_edit_def Let_def dns split: if_splits\<close>)+
  note ld = load_or_new_after_save [OF assms(1,2) sv]
  have "filter (\<lambda>e. ep_dns e \<noteq> ae_dns args) (cfg_endpoints c) = cfg_endpoints c"
    using fresh by (force simp: filter_id_conv)
  then have "remove_endpoint_edit rargs ?c = Edited c ()"
    by (simp add: remove_endpoint_edit_def dns assms(5))
  then obtain t where "edit_config cv (remove_endpoint_edit rargs) s1 = (Returns (Ok ()), t)"
    and "save_to_file (cv_yaml cv) (cv_host cv) c (cl_fs s1) = (Inr (), cl_fs t)"
    by (rule edit_config_run [OF ok ld(2) _ assms(7)])
  then show ?thesis
    using fresh ld(1) load_or_new_after_save(1) [OF assms(1) ok] assms(6)
    by (simp add: remove_endpoint_def new_endpoint_def)
qed

text \<open>The YAML functions of the witness for adding know the configuration with and without the endpoint.\<close>

definition demo_add :: add_endpoint_args where
  "demo_add = \<lparr>ae_dns = ''b.com'', ae_port = 80, ae_maxconns = None, ae_maxidle = Some 65536, ae_disabled = False,
     ae_healthcheck_port = None, ae_healthcheck_consider_healthy = None, ae_healthcheck_consider_unhealthy = None,
     ae_healthcheck_frequency_secs = None\<rparr>"

definition demo_added :: daemon_config where
  "demo_added = demo_config\<lparr>cfg_endpoints := cfg_endpoints demo_config @ [new_endpoint demo_add]\<rparr>"

definition demo_add_env :: cli_env where
  "demo_add_env = demo_cli_env\<lparr>cv_yaml := \<lparr>
     yaml_to_string = (\<lambda>x. if x = demo_config then Some ''doc'' else if x = demo_added then Some ''add'' else None),
     yaml_from_slice = (\<lambda>s. if s = ''doc'' then Some (FullConfig demo_config)
        else if s = ''add'' then Some (FullConfig demo_added) else if s = [] then Some EmptyConfig else None)\<rparr>\<rparr>"

theorem add_then_remove_witness:
  "fst (remove_endpoint demo_add_env \<lparr>re_dns = ''b.com'', re_idempotent = False\<rparr>
     (snd (add_endpoint demo_add_env demo_add demo_cli))) = Returns (Ok ())"
proof -
  have y: "yaml_roundtrip (cv_yaml demo_add_env)"
    by (auto simp: yaml_roundtrip_def demo_add_env_def)
  have ok: "disk_ok demo_add_env (cl_fs demo_cli)" by (simp add: disk_ok_def demo_cli_def)
  have host: "cv_host demo_add_env = demo_host" by (simp add: demo_add_env_def demo_cli_env_def)
  have ld: "load_from_file_or_new (cv_yaml demo_add_env) (cv_host demo_add_env) (cl_fs demo_cli) = Ok demo_config"
    unfolding host
    by (simp add: load_from_file_or_new_def ebb_files demo_cli_def demo_add_env_def)
  have "add_endpoint_edit demo_add demo_config = Edited demo_added ()"
    by (simp add: add_endpoint_edit_def demo_added_def demo_config_def demo_endpoint_def new_endpoint_def demo_add_def)
  moreover have "yaml_to_string (cv_yaml demo_add_env) demo_added \<noteq> None" by (simp add: demo_add_env_def)
  ultimately obtain s1 where "edit_config demo_add_env (add_endpoint_edit demo_add) demo_cli = (Returns (Ok ()), s1)"
    by (rule edit_config_run [OF ok ld])
  then have s1: "add_endpoint demo_add_env demo_add demo_cli = (Returns (Ok ()), s1)" by (simp add: add_endpoint_def)
  have dns: "re_dns \<lparr>re_dns = ''b.com'', re_idempotent = False\<rparr> = ae_dns demo_add" by (simp add: demo_add_def)
  have str: "yaml_to_string (cv_yaml demo_add_env) demo_config \<noteq> None" by (simp add: demo_add_env_def)
  from add_then_remove [OF y ok ld s1 dns prod.collapse [symmetric] str] show ?thesis by (simp add: s1)
qed

text \<open>\<open>--maxidle\<close> is parsed as a \<open>usize\<close> and stored as a \<open>u16\<close> without a check: what is stored is the value
  modulo 65536, so 65536 is stored as no idle connections at all.\<close>

theorem maxidle_truncated:
  assumes "ae_maxidle args = Some n"
  shows "unat (ep_maxidle (new_endpoint args)) = unat n mod 65536"
  using assms by (simp add: new_endpoint_def unsigned_ucast_eq take_bit_eq_mod)

theorem maxidle_truncated_witness: "unat (ep_maxidle (new_endpoint demo_add)) = 0"
  using maxidle_truncated [of demo_add 65536] by (simp add: demo_add_def)

end
