(* ===== verification/Cli_Init.thy ===== *)
theory Cli_Init
  imports Cli Shared_Info
begin

text \<open>
  The command \<open>init\<close> of \<open>src/src/ebbflow.rs\<close> with its questions and the key request. What is printed is
  kept piece by piece, also where the code prints no line end.

  Standard input is the list of the results of its reads; at its end \<open>read_line\<close> succeeds with no
  characters, again and again. A loop that may not end is a partial function, and not returning is
  \<open>None\<close>. The HTTP service of Ebbflow is an input: the answer to the key request and the answers to the
  polls in order (a poll without an answer waits for ever).
\<close>

section \<open>Questions\<close>

definition get_string :: "cli \<Rightarrow> (cli_error + string) \<times> cli" where
  "get_string s = (case cl_stdin s of
     [] \<Rightarrow> (Ok (trim ''''), s)
   | Inl e # rest \<Rightarrow> (Err (CliStdIoError e), s\<lparr>cl_stdin := rest\<rparr>)
   | Inr line # rest \<Rightarrow> (Ok (trim line), s\<lparr>cl_stdin := rest\<rparr>))"

definition extract_yn :: "string \<Rightarrow> bool option" where
  "extract_yn yn = (let a = trim (to_lowercase yn) in
     if a = ''y'' \<or> a = ''yes'' then Some True else if a = ''n'' \<or> a = ''no'' then Some False else None)"

partial_function (option) get_yn :: "cli \<Rightarrow> ((cli_error + bool) \<times> cli) option" where
  "get_yn s = (case get_string s of
     (Inl e, s') \<Rightarrow> Some (Err e, s')
   | (Inr yn, s') \<Rightarrow> (case extract_yn yn of
       Some enabled \<Rightarrow> Some (Ok enabled, s')
     | None \<Rightarrow> get_yn (println (''Could not parse '' @ trim yn @ '' into (y/yes n/no), please retry'') s')))"

text \<open>The regular expression of a host name, \<open>^[-\.[:alnum:]]{1,220}$\<close>.\<close>

definition hostname_char :: "char \<Rightarrow> bool" where
  "hostname_char c = (let n = (of_char c :: nat) in
     c = CHR ''-'' \<or> c = CHR ''.'' \<or> (48 \<le> n \<and> n \<le> 57) \<or> (65 \<le> n \<and> n \<le> 90) \<or> (97 \<le> n \<and> n \<le> 122))"

definition is_hostname :: "string \<Rightarrow> bool" where
  "is_hostname s \<longleftrightarrow> 1 \<le> length s \<and> length s \<le> 220 \<and> list_all hostname_char s"

partial_function (option) ask_hostname :: "cli \<Rightarrow> ((cli_error + string) \<times> cli) option" where
  "ask_hostname s =
     (case get_string (println ''Enter the hostname to be used as the target hostname for the SSH proxy'' s) of
        (Inl e, s1) \<Rightarrow> Some (Err e, s1)
      | (Inr newhn, s1) \<Rightarrow>
          if \<not> is_hostname newhn
          then ask_hostname (println ''The provided name does not appear to be a valid hostname. Must be alphanumeric and only have periods or dashes (-).'' s1)
          else Option.bind (get_yn (println (''The name '' @ newhn @ '' will be used. Is that ok? (y/yes n/no)'') s1))
            (\<lambda>(r, s2). case r of
               Inl e \<Rightarrow> Some (Err e, s2)
             | Inr b \<Rightarrow> if b then Some (Ok newhn, s2) else ask_hostname s2))"

section \<open>The key\<close>

datatype poll_answer =
    PollOk "string + string"
  | PollAccepted
  | PollNotFound
  | PollStatus string
  | PollFailed string

record api =
  api_init :: "string \<Rightarrow> string + string"
  api_polls :: "poll_answer list"

definition DEFAULT_EBBFLOW_SITE_ADDR :: string where
  "DEFAULT_EBBFLOW_SITE_ADDR = ''https://ebbflow.io/init''"

definition create_key_request :: "api \<Rightarrow> string \<Rightarrow> cli_error + string \<times> string" where
  "create_key_request api hostname =
     and_then (map_err CliHttp (api_init api hostname)) (\<lambda>id.
       Ok (DEFAULT_EBBFLOW_SITE_ADDR @ ''/'' @ id, id))"

fun poll_key_loop :: "poll_answer list \<Rightarrow> cli \<Rightarrow> ((cli_error + string) \<times> cli) option" where
  "poll_key_loop [] s = None"
| "poll_key_loop (PollOk r # ps) s = Some (map_err CliHttp r, println '''' s)"
| "poll_key_loop (PollAccepted # ps) s = poll_key_loop ps (println ''.'' s)"
| "poll_key_loop (PollNotFound # ps) s = poll_key_loop ps s"
| "poll_key_loop (PollStatus st # ps) s =
     poll_key_loop ps (println (tab @ ''Unexpected status code from Ebbflow, will retry, weird! '' @ st) s)"
| "poll_key_loop (PollFailed e # ps) s =
     poll_key_loop ps (println (tab @ ''Error polling key creation, will just retry. For debugging: '' @ e) s)"

definition poll_key_creation :: "api \<Rightarrow> cli \<Rightarrow> ((cli_error + string) \<times> cli) option" where
  "poll_key_creation api s = poll_key_loop (api_polls api) (println ''Waiting for key creation to be completed..'' s)"

section \<open>Initialization\<close>

text \<open>A step of the dialogue returns a result, or never returns.\<close>

type_synonym 'a cli_op = "cli \<Rightarrow> ((cli_error + 'a) \<times> cli) option"

definition cli_bind :: "'a cli_op \<Rightarrow> ('a \<Rightarrow> 'b cli_op) \<Rightarrow> 'b cli_op" where
  "cli_bind f g s = (case f s of
     None \<Rightarrow> None
   | Some (Inl e, s') \<Rightarrow> Some (Err e, s')
   | Some (Inr x, s') \<Rightarrow> g x s')"

definition cli_return :: "cli_error + 'a \<Rightarrow> 'a cli_op" where
  "cli_return r s = Some (r, s)"

definition say :: "string \<Rightarrow> unit cli_op" where
  "say m s = Some (Ok (), println m s)"

definition set_key_cmd :: "cli_env \<Rightarrow> string \<Rightarrow> unit cli_op" where
  "set_key_cmd cv key s =
     (let (r, w) = setkey (cv_host cv) key (cl_fs s) in Some (map_err CliConfigError r, s\<lparr>cl_fs := w\<rparr>))"

definition save_cmd :: "cli_env \<Rightarrow> daemon_config \<Rightarrow> unit cli_op" where
  "save_cmd cv cfg s =
     (let (r, w) = save_to_file (cv_yaml cv) (cv_host cv) cfg (cl_fs s)
      in Some (map_err CliConfigError r, s\<lparr>cl_fs := w\<rparr>))"

text \<open>The questions about SSH: \<open>None\<close> is the answer no, else the host name that was entered, if any.\<close>

definition ask_ssh :: "string \<Rightarrow> string option option cli_op" where
  "ask_ssh defaulthostname =
     cli_bind (say ''Would you like to have the SSH proxy enabled for this host? (y/yes n/no)'') (\<lambda>_.
     cli_bind get_yn (\<lambda>enablessh.
       if \<not> enablessh then cli_return (Ok None)
       else cli_bind (say (''The hostname '' @ defaulthostname
               @ '' will be used as the hostname target for the SSH proxy, is that ok? (y/yes n/no)'')) (\<lambda>_.
            cli_bind get_yn (\<lambda>ok.
              if ok then cli_return (Ok (Some None))
              else cli_bind ask_hostname (\<lambda>newhn. cli_return (Ok (Some (Some newhn))))))))"

text \<open>The dialogue of \<open>init_interactive\<close> after the permissions and the host name: the key is written
  when Ebbflow has sent it, then the new configuration.\<close>

definition init_dialog :: "cli_env \<Rightarrow> api \<Rightarrow> string \<Rightarrow> unit cli_op" where
  "init_dialog cv api defaulthostname =
     cli_bind (ask_ssh defaulthostname) (\<lambda>answer.
       (let sshcfg = map_option (\<lambda>hostname. ssh_new True hostname) answer;
            usedname = unwrap_or (unwrap_or answer None) defaulthostname
        in cli_bind (cli_return (create_key_request api usedname)) (\<lambda>(url, finalizeme).
           cli_bind (say (''Please go to '' @ url @ '' to initialize the secret key for this host'' @ [char_of (10::nat)])) (\<lambda>_.
           cli_bind (poll_key_creation api) (\<lambda>key.
           cli_bind (set_key_cmd cv key) (\<lambda>_.
           cli_bind (say ''Great! The key has been provisioned.'') (\<lambda>_.
           cli_bind (save_cmd cv \<lparr>cfg_endpoints = [], cfg_ssh = sshcfg, cfg_loglevel = None\<rparr>) (\<lambda>_.
             say ([char_of (10::nat)] @ ''Initialization complete. To set up and endpoint, use `ebbflow config add-endpoint`.'')))))))))"

definition init_interactive :: "cli_env \<Rightarrow> api \<Rightarrow> cli \<Rightarrow> (unit cmd_result \<times> cli) option" where
  "init_interactive cv api s =
     (let (r, w) = check_permissions (cv_host cv) (cl_fs s); s0 = s\<lparr>cl_fs := w\<rparr> in
      case r of
        Inl e \<Rightarrow> Some (Returns (Err (CliConfigError e)), s0)
      | Inr _ \<Rightarrow> (case hostname_or_die (cv_env cv) of
          Inl _ \<Rightarrow> Some (Dies, s0)
        | Inr defaulthostname \<Rightarrow> map_option (\<lambda>(r, s'). (Returns r, s')) (init_dialog cv api defaulthostname s0)))"

text \<open>\<open>ebb_key\<close> is the environment variable \<open>EBB_KEY\<close>.\<close>

definition init :: "cli_env \<Rightarrow> api \<Rightarrow> string option \<Rightarrow> bool \<Rightarrow> cli \<Rightarrow> (unit cmd_result \<times> cli) option" where
  "init cv api ebb_key non_interactive s =
     (if non_interactive then
        (case ebb_key of
           Some k \<Rightarrow> map_option (\<lambda>(r, s'). (Returns r, s')) (set_key_cmd cv (trim k) s)
         | None \<Rightarrow> Some (Returns (Err (CliOther
             ''Environment variable EBB_KEY not provided, required for non-interactive init'')), s))
      else init_interactive cv api s)"

section \<open>Lemmas\<close>

lemma get_string_frame: "get_string s = (r, s') \<Longrightarrow> cl_fs s' = cl_fs s"
  by (auto simp: get_string_def split: list.splits sum.splits)

lemma cl_println [simp]:
  "cl_fs (println m s) = cl_fs s" "cl_stdin (println m s) = cl_stdin s"
  by (simp_all add: println_def)

text \<open>A line that answers a question, and one that does not.\<close>

definition answer :: "string \<Rightarrow> bool option" where
  "answer line = extract_yn (trim line)"

lemma trim_nil [simp]: "trim [] = []" "to_lowercase [] = []"
  by (simp_all add: trim_def trim_end_pred_def to_lowercase_def)

lemma no_answer_nil [simp]: "extract_yn [] = None" "\<not> is_hostname []"
  by (simp_all add: extract_yn_def is_hostname_def)

lemma get_string_cases:
  assumes "get_string s = (r, s')"
  obtains (no_line) e where "r = Inl e"
  | (end_of_input) "cl_stdin s = []" "r = Inr []" "s' = s"
  | (line) l where "cl_stdin s = Inr l # cl_stdin s'" "r = Inr (trim l)" "cl_fs s' = cl_fs s"
  using assms by (fastforce simp: get_string_def split: list.splits sum.splits)

section \<open>What the user answered\<close>

text \<open>The answers on standard input, without the dialogue: the next line that is yes or no, with the lines
  after it; the next valid host name that is confirmed; and the answer to the questions about SSH.\<close>

fun next_answer :: "('e + string) list \<Rightarrow> (bool \<times> ('e + string) list) option" where
  "next_answer (Inr l # rest) = (case answer l of Some b \<Rightarrow> Some (b, rest) | None \<Rightarrow> next_answer rest)"
| "next_answer _ = None"

lemma next_answer_shorter: "next_answer xs = Some (b, rest) \<Longrightarrow> length rest < length xs"
  by (induction xs rule: next_answer.induct) (auto split: option.splits)

function entered_hostname :: "('e + string) list \<Rightarrow> (string \<times> ('e + string) list) option" where
  "entered_hostname [] = None"
| "entered_hostname (Inl e # rest) = None"
| "entered_hostname (Inr l # rest) =
     (if \<not> is_hostname (trim l) then entered_hostname rest
      else case next_answer rest of
        None \<Rightarrow> None
      | Some (confirmed, rest') \<Rightarrow> if confirmed then Some (trim l, rest') else entered_hostname rest')"
  by pat_completeness auto
termination
  by (relation "measure length") (auto dest: next_answer_shorter)

definition ssh_answer :: "('e + string) list \<Rightarrow> string option option option" where
  "ssh_answer stdin = (case next_answer stdin of
     None \<Rightarrow> None
   | Some (enabled, rest) \<Rightarrow>
       if \<not> enabled then Some None
       else case next_answer rest of
         None \<Rightarrow> None
       | Some (default_ok, rest') \<Rightarrow>
           if default_ok then Some (Some None)
           else map_option (\<lambda>(h, _). Some (Some h)) (entered_hostname rest'))"

lemma get_yn_answers:
  assumes "get_yn s = Some (Inr b, s')"
  shows "next_answer (cl_stdin s) = Some (b, cl_stdin s')" "cl_fs s' = cl_fs s"
proof -
  have "next_answer (cl_stdin s) = Some (b, cl_stdin (snd y)) \<and> cl_fs (snd y) = cl_fs s"
    if "get_yn s = Some y" "fst y = Inr b" for s y
    using that(2)
  proof (induction rule: get_yn.raw_induct [OF _ that(1), consumes 0, case_names 1])
    case (1 f s y)
    obtain r s1 where g: "get_string s = (r, s1)" by (cases "get_string s")
    from g show ?case
    proof (cases rule: get_string_cases)
      case (no_line e)
      with 1(2,3) g show ?thesis by auto
    next
      case end_of_input
      with 1(2) g obtain m where "f (println m s) = Some y" by auto
      from 1(1) [OF this 1(3)] show ?thesis by simp
    next
      case (line l)
      with 1 g show ?thesis by (cases "answer l") (fastforce simp: answer_def)+
    qed
  qed
  from this [OF assms] show "next_answer (cl_stdin s) = Some (b, cl_stdin s')" "cl_fs s' = cl_fs s" by simp_all
qed

lemma ask_hostname_answers:
  assumes "ask_hostname s = Some (Inr h, s')"
  shows "cl_fs s' = cl_fs s \<and> is_hostname h \<and> entered_hostname (cl_stdin s) = Some (h, cl_stdin s')"
proof -
  let ?ask = "println ''Enter the hostname to be used as the target hostname for the SSH proxy''"
  let ?bad = "println ''The provided name does not appear to be a valid hostname. Must be alphanumeric and only have periods or dashes (-).''"
  have "cl_fs (snd y) = cl_fs s \<and> is_hostname h \<and> entered_hostname (cl_stdin s) = Some (h, cl_stdin (snd y))"
    if "ask_hostname s = Some y" "fst y = Inr h" for s y
    using that(2)
  proof (induction rule: ask_hostname.raw_induct [OF _ that(1), consumes 0, case_names 1])
    case (1 f s y)
    obtain q s1 where g: "get_string (?ask s) = (q, s1)" by (cases "get_string (?ask s)")
    from g show ?case
    proof (cases rule: get_string_cases)
      case (no_line e)
      with 1(2,3) g show ?thesis by auto
    next
      case end_of_input
      with 1(2) g have "f (?bad (?ask s)) = Some y" by simp
      from 1(1) [OF this 1(3)] show ?thesis by simp
    next
      case (line l)
      show ?thesis
      proof (cases "is_hostname (trim l)")
        case False
        with 1(2) g line have "f (?bad s1) = Some y" by simp
        from 1(1) [OF this 1(3)] False line show ?thesis by simp
      next
        case True
        with 1(2) line g obtain r2 s2 where
          yn2: "get_yn (println (''The name '' @ trim l @ '' will be used. Is that ok? (y/yes n/no)'') s1) = Some (r2, s2)"
          and y2: "(case r2 of Inl e \<Rightarrow> Some (Err e, s2) | Inr b \<Rightarrow> if b then Some (Ok (trim l), s2) else f s2) = Some y"
          by (auto simp: bind_eq_Some_conv)
        from y2 1(3) obtain b where "r2 = Inr b" by (cases r2) auto
        with yn2 y2 have yn: "get_yn (println (''The name '' @ trim l @ '' will be used. Is that ok? (y/yes n/no)'') s1) = Some (Inr b, s2)"
          and y: "(if b then Some (Ok (trim l), s2) else f s2) = Some y" by simp_all
        from get_yn_answers [OF yn] y 1(1) [of s2 y] 1(3) True line show ?thesis
          by (auto split: if_splits)
      qed
    qed
  qed
  from this [OF assms] show ?thesis by simp
qed

text \<open>What Ebbflow sent in the first poll that succeeded.\<close>

fun key_sent :: "poll_answer list \<Rightarrow> (string + string) option" where
  "key_sent [] = None"
| "key_sent (PollOk r # ps) = Some r"
| "key_sent (p # ps) = key_sent ps"

lemma poll_key_loop_Some:
  assumes "poll_key_loop ps s = Some (r, s')"
  shows "cl_fs s' = cl_fs s \<and> (\<exists>q. r = map_err CliHttp q \<and> key_sent ps = Some q)"
  using assms by (induction ps s rule: poll_key_loop.induct) auto

section \<open>Properties\<close>

lemma get_yn_step:
  "cl_stdin s = Inr line # rest \<Longrightarrow> answer line = None \<Longrightarrow>
     get_yn s = get_yn (println (''Could not parse '' @ trim (trim line) @ '' into (y/yes n/no), please retry'') (s\<lparr>cl_stdin := rest\<rparr>))"
  by (simp add: get_yn.simps [of s] get_string_def answer_def)

text \<open>The questions of \<open>init\<close>: lines that are neither yes nor no (in any case, with white space around)
  are skipped, the first line that is decides, and what follows it is left for the next question.\<close>

theorem get_yn_first_answer:
  assumes "cl_stdin s = map Inr lines @ Inr line # rest" and "\<forall>l \<in> set lines. answer l = None"
    and "answer line = Some b"
  shows "\<exists>s'. get_yn s = Some (Ok b, s') \<and> cl_stdin s' = rest \<and> cl_fs s' = cl_fs s"
  using assms
proof (induction lines arbitrary: s)
  case Nil
  then have "get_yn s = Some (Ok b, s\<lparr>cl_stdin := rest\<rparr>)"
    by (simp add: get_yn.simps [of s] get_string_def answer_def)
  then show ?case by simp
next
  case (Cons l lines)
  let ?s = "println (''Could not parse '' @ trim (trim l) @ '' into (y/yes n/no), please retry'')
    (s\<lparr>cl_stdin := map Inr lines @ Inr line # rest\<rparr>)"
  have "get_yn s = get_yn ?s" by (rule get_yn_step) (use Cons.prems in simp_all)
  with Cons.IH [of ?s] Cons.prems show ?case by simp
qed

definition demo_stdin :: cli where
  "demo_stdin = \<lparr>cl_fs = demo_fs, cl_out = [], cl_stdin = [Inr ''maybe'', Inr '' YES '', Inr ''n'']\<rparr>"

theorem get_yn_first_answer_witness:
  "\<exists>s'. get_yn demo_stdin = Some (Ok True, s') \<and> cl_stdin s' = [Inr ''n''] \<and> cl_fs s' = cl_fs demo_stdin"
proof -
  have a: "answer ''maybe'' = None" "answer '' YES '' = Some True" by code_simp+
  show ?thesis
    by (rule get_yn_first_answer [of _ "[''maybe'']" "'' YES ''"]) (simp_all add: demo_stdin_def a)
qed

text \<open>C37. Without an answer on standard input \<open>init\<close> does not end: after the last line \<open>read_line\<close> succeeds
  with nothing again and again, and the question is repeated for ever.\<close>

theorem get_yn_end_of_input:
  assumes "\<forall>x \<in> set (cl_stdin s). \<exists>l. x = Inr l \<and> answer l = None"
  shows "get_yn s = None"
proof -
  have "\<not> (\<forall>x \<in> set (cl_stdin s). \<exists>l. x = Inr l \<and> answer l = None)" if "get_yn s = Some y" for s y
  proof (induction rule: get_yn.raw_induct [OF _ that, consumes 0, case_names 1])
    case (1 f s y)
    show ?case
    proof
      assume none: "\<forall>x \<in> set (cl_stdin s). \<exists>l. x = Inr l \<and> answer l = None"
      obtain r s' where g: "get_string s = (r, s')" by (cases "get_string s")
      with none have r: "\<exists>yn. r = Inr yn \<and> extract_yn yn = None"
        and rest: "\<forall>x \<in> set (cl_stdin s'). \<exists>l. x = Inr l \<and> answer l = None"
        by (auto simp: get_string_def answer_def extract_yn_def split: list.splits sum.splits)
      from r g 1(2) obtain m where "f (println m s') = Some y" by auto
      from 1(1) [OF this] rest show False by simp
    qed
  qed
  with assms show ?thesis by (metis not_None_eq)
qed

theorem get_yn_end_of_input_witness: "get_yn (demo_stdin\<lparr>cl_stdin := []\<rparr>) = None"
  by (rule get_yn_end_of_input) simp

section \<open>The result of initialization\<close>

lemma cli_bind_Ok:
  "cli_bind f g s = Some (Inr y, s'') \<longleftrightarrow> (\<exists>x s'. f s = Some (Inr x, s') \<and> g x s' = Some (Inr y, s''))"
  by (auto simp: cli_bind_def split: option.splits sum.splits)

lemma cli_return_Ok: "cli_return r s = Some (Inr x, s') \<longleftrightarrow> r = Inr x \<and> s' = s"
  by (auto simp: cli_return_def)

lemma say_Ok: "say m s = Some (Inr u, s') \<longleftrightarrow> s' = println m s"
  by (auto simp: say_def)

lemma setkey_then_get:
  assumes "setkey h k w = (Inr (), w1)" "fs_read_fault w (key_file_full h) = None"
  shows "getkey h w1 = (if trim k = [] then Err Empty else Ok (trim k)) \<and> fs_read_fault w1 = fs_read_fault w"
proof -
  have wr: "fs_write (key_file_full h) (trim k) w = (Inr (), w1)"
    using assms(1) by (auto simp: setkey_def split: prod.splits)
  from fs_read_after_write [OF wr assms(2)] fs_write_Inr [OF wr] show ?thesis by (simp add: getkey_def)
qed

lemma set_key_cmd_Ok:
  "set_key_cmd cv key s = Some (Inr u, s') \<Longrightarrow> setkey (cv_host cv) key (cl_fs s) = (Inr (), cl_fs s')"
  by (auto simp: set_key_cmd_def split: prod.splits)

lemma save_cmd_Ok:
  "save_cmd cv cfg s = Some (Inr u, s') \<Longrightarrow> save_to_file (cv_yaml cv) (cv_host cv) cfg (cl_fs s) = (Inr (), cl_fs s')"
  by (auto simp: save_cmd_def split: prod.splits)

lemma set_and_save:
  assumes "yaml_roundtrip (cv_yaml cv)" "\<And>p. fs_read_fault w p = None"
    and sk: "setkey (cv_host cv) key w = (Inr (), w1)"
    and sv: "save_to_file (cv_yaml cv) (cv_host cv) cfg w1 = (Inr (), w2)"
  shows "load_from_file (cv_yaml cv) (cv_host cv) w2 = Ok cfg \<and>
    getkey (cv_host cv) w2 = (if trim key = [] then Err Empty else Ok (trim key))"
proof -
  note k = setkey_then_get [OF sk assms(2)]
  have "fs_read_fault w1 (config_file_full (cv_host cv)) = None" using k assms(2) by simp
  from load_after_save [OF assms(1) sv this] save_to_file_other [OF sv, of "key_file_full (cv_host cv)"] k
  show ?thesis by (simp add: getkey_def)
qed

lemma check_permissions_faults: "fs_read_fault (snd (check_permissions h w)) = fs_read_fault w"
  by (auto simp: check_permissions_def fs_open_create_def split: option.splits)

lemma ask_ssh_Ok:
  assumes "ask_ssh hn s = Some (Inr a, s')"
  shows "cl_fs s' = cl_fs s \<and> ssh_answer (cl_stdin s) = Some a \<and> (\<forall>h. a = Some (Some h) \<longrightarrow> is_hostname h)"
proof -
  from assms obtain b s1 where s1: "get_yn (println ''Would you like to have the SSH proxy enabled for this host? (y/yes n/no)'' s) = Some (Inr b, s1)"
    and rest: "(if \<not> b then cli_return (Ok None)
       else cli_bind (say (''The hostname '' @ hn
               @ '' will be used as the hostname target for the SSH proxy, is that ok? (y/yes n/no)'')) (\<lambda>_.
            cli_bind get_yn (\<lambda>ok. if ok then cli_return (Ok (Some None))
              else cli_bind ask_hostname (\<lambda>newhn. cli_return (Ok (Some (Some newhn))))))) s1 = Some (Inr a, s')"
    unfolding ask_ssh_def cli_bind_Ok say_Ok by blast
  from get_yn_answers [OF s1] have 1: "cl_fs s1 = cl_fs s" "next_answer (cl_stdin s) = Some (b, cl_stdin s1)" by simp_all
  show ?thesis
  proof (cases b)
    case False
    with rest 1 show ?thesis by (simp add: cli_return_Ok ssh_answer_def)
  next
    case True
    with rest obtain ok m s2 where s2: "get_yn (println m s1) = Some (Inr ok, s2)"
      and rest: "(if ok then cli_return (Ok (Some None))
        else cli_bind ask_hostname (\<lambda>newhn. cli_return (Ok (Some (Some newhn))))) s2 = Some (Inr a, s')"
      by (simp only: if_False not_True_eq_False cli_bind_Ok say_Ok) blast
    from get_yn_answers [OF s2] 1 have "cl_fs s2 = cl_fs s" "next_answer (cl_stdin s1) = Some (ok, cl_stdin s2)" by simp_all
    with rest 1 True show ?thesis
      by (cases ok) (auto simp: cli_return_Ok cli_bind_Ok ssh_answer_def dest!: ask_hostname_answers)
  qed
qed

definition init_config :: "string option option \<Rightarrow> daemon_config" where
  "init_config a = \<lparr>cfg_endpoints = [], cfg_ssh = map_option (ssh_new True) a, cfg_loglevel = None\<rparr>"

lemma init_dialog_Ok:
  assumes "init_dialog cv api hn s = Some (Inr (), s')"
  shows "\<exists>a key id w. ssh_answer (cl_stdin s) = Some a \<and> (\<forall>h. a = Some (Some h) \<longrightarrow> is_hostname h) \<and>
    api_init api (unwrap_or (unwrap_or a None) hn) = Ok id \<and>
    key_sent (api_polls api) = Some (Ok key) \<and>
    setkey (cv_host cv) key (cl_fs s) = (Inr (), w) \<and>
    save_to_file (cv_yaml cv) (cv_host cv) (init_config a) w = (Inr (), cl_fs s')"
proof -
  from assms obtain a s1 req m s2 key u s3 s4 v where a: "ask_ssh hn s = Some (Inr a, s1)"
    and req: "create_key_request api (unwrap_or (unwrap_or a None) hn) = Inr req"
    and poll: "poll_key_creation api (println m s1) = Some (Inr key, s2)"
    and sk: "set_key_cmd cv key s2 = Some (Inr u, s3)"
    and sv: "save_cmd cv \<lparr>cfg_endpoints = [], cfg_ssh = map_option (ssh_new True) a, cfg_loglevel = None\<rparr>
        (println ''Great! The key has been provisioned.'' s3) = Some (Inr v, s4)"
    and s': "s' = println ([char_of (10::nat)] @ ''Initialization complete. To set up and endpoint, use `ebbflow config add-endpoint`.'') s4"
    unfolding init_dialog_def Let_def cli_bind_Ok say_Ok cli_return_Ok case_prod_beta
    by (elim exE conjE) (rule that; simp only:)
  from ask_ssh_Ok [OF a] have "cl_fs s1 = cl_fs s" "ssh_answer (cl_stdin s) = Some a"
    "\<forall>h. a = Some (Some h) \<longrightarrow> is_hostname h" by auto
  moreover from req have "\<exists>id. api_init api (unwrap_or (unwrap_or a None) hn) = Ok id"
    by (cases "api_init api (unwrap_or (unwrap_or a None) hn)") (auto simp: create_key_request_def)
  moreover from poll_key_loop_Some [OF poll [unfolded poll_key_creation_def]]
  have "cl_fs s2 = cl_fs s1"
    "key_sent (api_polls api) = Some (Ok key)"
    by (auto dest: sym)
  ultimately show ?thesis using set_key_cmd_Ok [OF sk] save_cmd_Ok [OF sv] s' by (auto simp: init_config_def)
qed

text \<open>C31. What interactive initialization leaves behind when it succeeds. The key in the key file is the one
  of the first poll that Ebbflow answered with success, after a request for the host name in use; the
  configuration has no endpoints, and SSH as the lines on standard input say: the first line that is yes
  or no decides whether it is there at all, the next whether the host's own name is used, and otherwise
  the first valid name that the user confirms. Any earlier configuration is replaced.\<close>

theorem init_interactive_result:
  assumes "yaml_roundtrip (cv_yaml cv)" and "\<And>p. fs_read_fault (cl_fs s) p = None"
    and "init_interactive cv api s = Some (Returns (Ok ()), s')"
  shows "\<exists>a key hn id. ssh_answer (cl_stdin s) = Some a \<and> (\<forall>h. a = Some (Some h) \<longrightarrow> is_hostname h) \<and>
    env_hostname (cv_env cv) = Hostname hn \<and> api_init api (unwrap_or (unwrap_or a None) hn) = Ok id \<and>
    key_sent (api_polls api) = Some (Ok key) \<and>
    getkey (cv_host cv) (cl_fs s') = (if trim key = [] then Err Empty else Ok (trim key)) \<and>
    load_from_file (cv_yaml cv) (cv_host cv) (cl_fs s') = Ok \<lparr>cfg_endpoints = [],
      cfg_ssh = map_option (\<lambda>h. \<lparr>ssh_maxconns = 20, ssh_port = 22, ssh_enabled = True, ssh_maxidle = 5,
        ssh_hostname_override = h\<rparr>) a, cfg_loglevel = None\<rparr>"
proof -
  obtain r w where cp: "check_permissions (cv_host cv) (cl_fs s) = (r, w)"
    by (cases "check_permissions (cv_host cv) (cl_fs s)")
  from assms(3) cp obtain hn where hn: "env_hostname (cv_env cv) = Hostname hn"
    and d: "init_dialog cv api hn (s\<lparr>cl_fs := w\<rparr>) = Some (Inr (), s')"
    by (auto simp: init_interactive_def hostname_or_die_def Let_def split: sum.splits hostname_outcome.splits)
  from init_dialog_Ok [OF d] obtain a key id w1 where
    user: "ssh_answer (cl_stdin s) = Some a" "\<forall>h. a = Some (Some h) \<longrightarrow> is_hostname h"
    and web: "api_init api (unwrap_or (unwrap_or a None) hn) = Ok id"
      "key_sent (api_polls api) = Some (Ok key)"
    and sk: "setkey (cv_host cv) key w = (Inr (), w1)"
    and sv: "save_to_file (cv_yaml cv) (cv_host cv) (init_config a) w1 = (Inr (), cl_fs s')"
    by auto
  have "fs_read_fault w p = None" for p
    using check_permissions_faults [of "cv_host cv" "cl_fs s"] cp assms(2) by simp
  note files = set_and_save [OF assms(1) this sk sv]
  have "init_config a = \<lparr>cfg_endpoints = [],
      cfg_ssh = map_option (\<lambda>h. \<lparr>ssh_maxconns = 20, ssh_port = 22, ssh_enabled = True, ssh_maxidle = 5,
        ssh_hostname_override = h\<rparr>) a, cfg_loglevel = None\<rparr>"
    by (cases a) (simp_all add: init_config_def ssh_new_def)
  with user hn web files show ?thesis by metis
qed

text \<open>In the run of the witness the first answer is not understood, the host's own name is turned down, the
  first name entered is not valid, and the key comes with the second poll.\<close>

definition demo_init_config :: daemon_config where
  "demo_init_config = init_config (Some (Some ''my.host''))"

definition demo_init_env :: cli_env where
  "demo_init_env = \<lparr>cv_yaml = yaml_of demo_init_config, cv_host = demo_host,
     cv_env = \<lparr>env_now = (\<lambda>_. ''now''), env_lookup = (\<lambda>_ _. []), env_hostname = Hostname ''host''\<rparr>\<rparr>"

definition demo_api :: api where
  "demo_api = \<lparr>api_init = (\<lambda>_. Ok ''id''), api_polls = [PollAccepted, PollOk (Ok ''secret'')]\<rparr>"

definition demo_answers :: cli where
  "demo_answers = demo_stdin\<lparr>cl_stdin := map Inr [''maybe'', ''y'', ''n'', ''my host'', ''my.host'', ''yes'']\<rparr>"

lemma demo_lines:
  "answer ''maybe'' = None" "answer ''y'' = Some True" "answer ''n'' = Some False" "answer ''yes'' = Some True"
  "trim ''my host'' = ''my host''" "trim ''my.host'' = ''my.host''" "\<not> is_hostname ''my host''" "is_hostname ''my.host''"
  by code_simp+

lemma demo_ssh_answer: "ssh_answer (cl_stdin demo_answers) = Some (Some (Some ''my.host''))"
  by (simp add: ssh_answer_def demo_answers_def demo_lines)

lemma demo_ask_ssh:
  assumes "cl_stdin s = cl_stdin demo_answers"
  shows "\<exists>t. ask_ssh hn s = Some (Inr (Some (Some ''my.host'')), t) \<and> cl_fs t = cl_fs s"
proof -
  have yn: "\<exists>t. get_yn s = Some (Ok b, t) \<and> cl_stdin t = rest \<and> cl_fs t = cl_fs s"
    if "cl_stdin s = Inr l # rest" "answer l = Some b" for s l rest b
    using get_yn_first_answer [of s "[]" l rest b] that by simp
  obtain s1 where s1: "get_yn (println ''Would you like to have the SSH proxy enabled for this host? (y/yes n/no)'' s) = Some (Ok True, s1)"
      "cl_stdin s1 = map Inr [''n'', ''my host'', ''my.host'', ''yes'']" "cl_fs s1 = cl_fs s"
    using get_yn_first_answer [of "println ''Would you like to have the SSH proxy enabled for this host? (y/yes n/no)'' s"
        "[''maybe'']" "''y''" "map Inr [''n'', ''my host'', ''my.host'', ''yes'']" True] assms
    by (auto simp: demo_answers_def demo_lines)
  let ?default = "println (''The hostname '' @ hn @ '' will be used as the hostname target for the SSH proxy, is that ok? (y/yes n/no)'')"
  obtain s2 where s2: "get_yn (?default s1) = Some (Ok False, s2)"
      "cl_stdin s2 = map Inr [''my host'', ''my.host'', ''yes'']" "cl_fs s2 = cl_fs s"
    using yn [of "?default s1" "''n''" "map Inr [''my host'', ''my.host'', ''yes'']" False] s1 by (auto simp: demo_lines)
  have invalid: "ask_hostname s = ask_hostname (println ''The provided name does not appear to be a valid hostname. Must be alphanumeric and only have periods or dashes (-).'' (println ''Enter the hostname to be used as the target hostname for the SSH proxy'' s\<lparr>cl_stdin := rest\<rparr>))"
    if "cl_stdin s = Inr ''my host'' # rest" for s rest
    using that by (simp add: ask_hostname.simps [of s] get_string_def demo_lines)
  have valid: "\<exists>t. ask_hostname s = Some (Ok ''my.host'', t) \<and> cl_fs t = cl_fs s"
    if "cl_stdin s = map Inr [''my.host'', ''yes'']" for s
    using that yn [of "println (''The name my.host will be used. Is that ok? (y/yes n/no)'')
        (println ''Enter the hostname to be used as the target hostname for the SSH proxy'' s\<lparr>cl_stdin := [Inr ''yes'']\<rparr>)" "''yes''" "[]" True]
    by (auto simp: ask_hostname.simps [of s] get_string_def demo_lines)
  obtain s3 where s3: "ask_hostname s2 = ask_hostname s3" "cl_stdin s3 = map Inr [''my.host'', ''yes'']" "cl_fs s3 = cl_fs s2"
    using invalid [of s2 "map Inr [''my.host'', ''yes'']"] s2(2) by fastforce
  from valid [OF s3(2)] have "\<exists>t. ask_hostname s2 = Some (Ok ''my.host'', t) \<and> cl_fs t = cl_fs s2" by (simp add: s3(1,3))
  with s1 s2 show ?thesis by (auto simp: ask_ssh_def cli_bind_def say_def cli_return_def)
qed

lemma demo_init_run:
  "\<exists>s'. init_interactive demo_init_env demo_api demo_answers = Some (Returns (Ok ()), s')"
proof -
  have w: "fs_write_fault w = (\<lambda>_. None) \<Longrightarrow> fs_write p b w = (Ok (), w\<lparr>fs_files := (fs_files w)(p \<mapsto> b)\<rparr>)" for p b w
    by (simp add: fs_write_def)
  have o: "fs_write_fault w = (\<lambda>_. None) \<Longrightarrow> \<exists>w'. fs_open_create p w = (Ok (), w') \<and> fs_write_fault w' = (\<lambda>_. None)" for p w
    by (simp add: fs_open_create_def split: option.splits)
  obtain w1 where w1: "fs_open_create (config_file_full demo_host) demo_fs = (Ok (), w1)" "fs_write_fault w1 = (\<lambda>_. None)"
    using o [of demo_fs] by (auto simp: demo_fs_def)
  obtain w2 where w2: "fs_open_create (key_file_full demo_host) w1 = (Ok (), w2)" "fs_write_fault w2 = (\<lambda>_. None)"
    using o [OF w1(2)] by auto
  obtain t where t: "ask_ssh ''host'' (demo_answers\<lparr>cl_fs := w2\<rparr>) = Some (Inr (Some (Some ''my.host'')), t)" "cl_fs t = w2"
    using demo_ask_ssh [of "demo_answers\<lparr>cl_fs := w2\<rparr>" "''host''"] by auto
  have f: "cl_fs demo_answers = demo_fs" by (simp add: demo_answers_def demo_stdin_def)
  show ?thesis
    by (simp add: init_interactive_def demo_init_env_def check_permissions_def f w1(1) w2 hostname_or_die_def
        init_dialog_def cli_bind_def cli_return_def say_def t Let_def demo_api_def create_key_request_def poll_key_creation_def
        set_key_cmd_def setkey_def save_cmd_def save_to_file_def yaml_of_def demo_init_config_def init_config_def w println_def)
qed

theorem init_interactive_result_witness:
  "\<exists>s' c. init_interactive demo_init_env demo_api demo_answers = Some (Returns (Ok ()), s') \<and>
     getkey demo_host (cl_fs s') = Ok ''secret'' \<and>
     load_from_file (yaml_of demo_init_config) demo_host (cl_fs s') = Ok c \<and>
     map_option ssh_hostname_override (cfg_ssh c) = Some (Some ''my.host'')"
proof -
  obtain s' where s': "init_interactive demo_init_env demo_api demo_answers = Some (Returns (Ok ()), s')"
    using demo_init_run by blast
  have y: "yaml_roundtrip (cv_yaml demo_init_env)" by (simp add: demo_init_env_def yaml_of_roundtrip)
  have t: "trim ''secret'' = ''secret''" by code_simp
  have "fs_read_fault (cl_fs demo_answers) p = None" for p
    by (simp add: demo_answers_def demo_stdin_def demo_read_fault)
  from init_interactive_result [OF y this s'] show ?thesis
    using s' by (auto simp: demo_ssh_answer demo_api_def demo_init_env_def t)
qed

end
