(* ===== verification/Cli_Status.thy ===== *)
theory Cli_Status
  imports Cli_Props Info_Server Shared_Info Runner_Props
begin

text \<open>
  The commands of \<open>src/src/ebbflow.rs\<close> that do not change the configuration: \<open>status\<close>, which asks the
  info server of the daemon and prints the answer, and \<open>run-blocking\<close>, which runs endpoints without the
  daemon. An HTTP request is an input: a function from the URL to an error or a response.
\<close>

section \<open>Printing the status\<close>

definition show_usize :: "usize \<Rightarrow> string" where
  "show_usize n = show_nat (unat n)"

definition format_health_data_old_new :: "(bool \<times> u128) list \<Rightarrow> string" where
  "format_health_data_old_new data =
     fold (\<lambda>(check, _) s. s @ (if check then ''1'' else ''0'')) (rev data) []"

definition print_status_line :: "string \<Rightarrow> daemon_endpoint_status \<Rightarrow> nat \<Rightarrow> bool \<Rightarrow> string" where
  "print_status_line endpoint_str status width printhealth =
     (let (enableddisabled, active, idle, health) = (case status of
        StatusDisabled \<Rightarrow> (''Disabled'', '''', '''', '''')
      | StatusEnabled active idle health \<Rightarrow>
          (''Enabled'', show_usize active, show_usize idle,
           if printhealth then
             (case health of
                Some NOT_CONFIGURED \<Rightarrow> ''Not Configured''
              | Some (HEALTHY data) \<Rightarrow> ''Healthy - Old > New: '' @ format_health_data_old_new data
              | Some (UNHEALTHY data) \<Rightarrow> ''Unhealthy - Old > New: '' @ format_health_data_old_new data
              | None \<Rightarrow> ''Not Configured'')
           else ''''))
      in pad width endpoint_str @ tab @ enableddisabled @ tab @ tab @ active @ tab @ tab @ idle @ tab @ tab @ health)"

text \<open>The lines that \<open>print_status\<close> prints; \<open>now\<close> is \<open>MessageQueue::now()\<close>.\<close>

definition print_status :: "string \<Rightarrow> daemon_status \<Rightarrow> string list" where
  "print_status now status =
     [''Overall Health: '' @ (case ds_meta status of Good \<Rightarrow> ''Good'' | Uninitialized \<Rightarrow> ''Uninitialized''),
      '''', ''Endpoints'', ''----------------------'']
     @ (if ds_endpoints status \<noteq> [] then
          (let width = max_len (map fst (ds_endpoints status)) in
           (pad width ''DNS'' @ tab @ ''Enabled'' @ tab @ tab @ ''CurrActiveConns'' @ tab @ ''CurrIdleConns'' @ tab @ ''Health'')
           # map (\<lambda>(e, st). print_status_line e st width True) (ds_endpoints status))
        else [''No endpoints known.''])
     @ ['''', ''SSH Proxy'', ''-----------------'']
     @ (case ds_ssh status of
          Some (hostname, st) \<Rightarrow>
            (let width = utf8_len hostname in
             [pad width ''Hostname'' @ tab @ ''Enabled'' @ tab @ tab @ ''CurrActiveConns'' @ tab @ ''CurrIdleConns'' @ tab,
              print_status_line hostname st width False])
        | None \<Rightarrow> [''SSH configuration not known.''])
     @ ['''', ''Daemon Messages - Current Time '' @ now, ''-----------------'']
     @ (if ds_messages status \<noteq> []
        then map (\<lambda>(timestamp, message). timestamp @ '' - '' @ message) (ds_messages status)
        else [''No daemon messages.''])"

definition status_url :: "socket_addr_v4 \<Rightarrow> string" where
  "status_url addr = ''http://'' @ show_addr addr @ ''/unstable_status''"

definition status ::
    "cli_env \<Rightarrow> json \<Rightarrow> (string \<Rightarrow> string + response) \<Rightarrow> string \<Rightarrow> string \<Rightarrow> cli \<Rightarrow> unit cmd_result \<times> cli" where
  "status cv j http json_error now s = (case read_addr (cv_host cv) (cl_fs s) of
     Inl e \<Rightarrow>
       if e = Empty \<or> e = FileNotFound
       then (Returns (Err (CliOther ''Could not connect to daemon; was unable to determine daemon address'')), s)
       else (Returns (Err (CliConfigError e)), s)
   | Inr addr \<Rightarrow>
       (case http (status_url addr) of
          Inl e \<Rightarrow> (Returns (Err (CliOther
            (''Failure retrieving status from the local daemon, it may not be running..'' @ [char_of (10::nat)]
              @ ''Error Message: '' @ e))), s)
        | Inr r \<Rightarrow>
            (case json_from_string j (rs_body r) of
               None \<Rightarrow> (Returns (Err (CliOther
                 (''Failure retrieving status from the local daemon! Very unexpected.'' @ [char_of (10::nat)]
                   @ ''Error Message: '' @ json_error))), s)
             | Some st \<Rightarrow> (Returns (Ok ()), printlns (print_status now st) s))))"

section \<open>Running without the daemon\<close>

record run_blocking_args =
  rb_config_file :: "string option"
  rb_dns :: "string option"
  rb_port :: "u16 option"
  rb_maxconns :: "u16 option"
  rb_maxidle :: "u16 option"
  rb_ebbflow_dns :: "string option"
  rb_ebbflow_addr :: "string option"
  rb_healthcheck_port :: "u16 option"
  rb_healthcheck_consider_healthy :: "u16 option"
  rb_healthcheck_consider_unhealthy :: "u16 option"
  rb_healthcheck_frequency_secs :: "u16 option"

text \<open>How \<open>run_blocking\<close> goes: it fails, exits or panics, a call in it does not return, or it runs for ever
  with the shared information and the tasks it has started.\<close>

datatype 'roots blocking =
    BlockErr cli_error
  | BlockExit string
  | BlockPanic
  | BlockHalt halt
  | BlockRunning "'roots shared_info" daemon

definition blocking_info ::
    "(resolver_config \<Rightarrow> resolver option) \<Rightarrow> 'roots \<Rightarrow> run_blocking_args \<Rightarrow> 'roots blocking + 'roots shared_info" where
  "blocking_info build roots args =
     (case (rb_ebbflow_addr args, rb_ebbflow_dns args) of
        (Some addr, Some dns) \<Rightarrow>
          (case parse_addr addr of
             None \<Rightarrow> Err BlockPanic
           | Some a \<Rightarrow> map_err (\<lambda>_. BlockErr (CliOther ''Unable to create data necessary for ''))
               (new_with_ebbflow_overrides build a dns roots))
      | _ \<Rightarrow> map_err (\<lambda>_. BlockErr (CliOther ''Unable to create data necessary for '')) (shared_info_new build roots))"

definition blocking_endpoint_args :: "run_blocking_args \<Rightarrow> string \<Rightarrow> u16 \<Rightarrow> endpoint_args" where
  "blocking_endpoint_args args dns port =
     \<lparr>ea_ctype = Tls, ea_idleconns = ucast (unwrap_or (rb_maxidle args) 10),
      ea_maxconns = ucast (unwrap_or (rb_maxconns args) 5000), ea_endpoint = dns, ea_port = port,
      ea_healthcheck = health_check_of_args (rb_healthcheck_port args) (rb_healthcheck_frequency_secs args)
        (rb_healthcheck_consider_healthy args) (rb_healthcheck_consider_unhealthy args)\<rparr>"

text \<open>\<open>ebb_key\<close> is the environment variable \<open>EBB_KEY\<close> and \<open>dbg\<close> the debug form of an error. The daemon record
  carries the message queue and the tasks also where no \<open>DaemonRunner\<close> is made.\<close>

definition run_blocking ::
    "cli_env \<Rightarrow> (resolver_config \<Rightarrow> resolver option) \<Rightarrow> 'roots \<Rightarrow> (config_error \<Rightarrow> string) \<Rightarrow> string option
       \<Rightarrow> run_blocking_args \<Rightarrow> fs \<Rightarrow> 'roots blocking" where
  "run_blocking cv build roots dbg ebb_key args w =
     (case blocking_info build roots args of
        Inl b \<Rightarrow> b
      | Inr info \<Rightarrow>
          (case (case ebb_key of Some k \<Rightarrow> Ok (trim k) | None \<Rightarrow> getkey (cv_host cv) w) of
             Inl e \<Rightarrow> BlockErr (CliConfigError e)
           | Inr key \<Rightarrow>
               (case rb_config_file args of
                  Some cfgfile \<Rightarrow>
                    (case load_from_file_path (cv_yaml cv) (trim cfgfile) w of
                       Inl e \<Rightarrow> BlockExit (''Error loading the config file you provided, path '' @ trim cfgfile
                         @ '' error: '' @ dbg e)
                     | Inr cfg \<Rightarrow>
                         (case update_config (cv_env cv) (Some cfg) (Some key) daemon_new of
                            Inl hlt \<Rightarrow> BlockHalt hlt
                          | Inr d \<Rightarrow> BlockRunning (update_key key info) d))
                | None \<Rightarrow>
                    (case (rb_dns args, rb_port args) of
                       (Some dns, Some port) \<Rightarrow>
                         (case spawn_endpoint (cv_env cv) (blocking_endpoint_args args dns port) daemon_new of
                            Inl hlt \<Rightarrow> BlockHalt hlt
                          | Inr (i, d) \<Rightarrow> BlockRunning (update_key key info) d)
                     | _ \<Rightarrow> BlockPanic))))"

section \<open>Worlds that agree\<close>

text \<open>Starting an endpoint depends on the shared world only, not on what the world is extended with.\<close>

definition same_world :: "'a world_scheme \<Rightarrow> 'b world_scheme \<Rightarrow> bool" where
  "same_world v w \<longleftrightarrow> wd_queue v = wd_queue w \<and> wd_clock v = wd_clock w \<and> wd_tasks v = wd_tasks w"

lemma same_world_log: "same_world v w \<Longrightarrow> same_world (log_message env m v) (log_message env m w)"
  by (simp add: same_world_def log_message_def)

lemma same_world_get_addrs_loop:
  "same_world v w \<Longrightarrow>
     rel_sum (=) (rel_prod (=) same_world) (get_addrs_loop env as v) (get_addrs_loop env as w)"
proof (induction env as v arbitrary: w rule: get_addrs_loop.induct)
  case (3 env e rest v)
  then show ?case by (simp add: same_world_log)
qed auto

lemma same_world_get_addrs:
  "same_world v w \<Longrightarrow> rel_sum (=) (rel_prod (=) same_world) (get_addrs env p v) (get_addrs env p w)"
  unfolding get_addrs_def by (simp add: same_world_def same_world_get_addrs_loop)

lemma rel_and_then:
  assumes "rel_sum (=) R r r'" and "\<And>x x'. R x x' \<Longrightarrow> rel_sum (=) Q (f x) (g x')"
  shows "rel_sum (=) Q (and_then r f) (and_then r' g)"
  using assms by (cases rule: rel_sum.cases) auto

lemma same_world_spawn:
  assumes "same_world v w"
  shows "rel_sum (=) (rel_prod (=) same_world) (spawn_endpoint env args v) (spawn_endpoint env args w)"
proof -
  have hc: "rel_sum (=) (rel_prod (=) same_world)
      (case hm of None \<Rightarrow> Ok (None, v2) | Some m \<Rightarrow> and_then (get_addrs env (chc_port (hm_cfg m)) v2) (\<lambda>(addrs, v3). Ok (Some addrs, v3)))
      (case hm of None \<Rightarrow> Ok (None, w2) | Some m \<Rightarrow> and_then (get_addrs env (chc_port (hm_cfg m)) w2) (\<lambda>(addrs, w3). Ok (Some addrs, w3)))"
    if "same_world v2 w2" for hm and v2 :: "'a world_scheme" and w2 :: "'b world_scheme"
    using that by (cases hm) (auto intro!: rel_and_then same_world_get_addrs)
  show ?thesis
    unfolding spawn_endpoint_def Let_def
    by (rule rel_and_then [OF same_world_get_addrs [OF same_world_log [OF assms]]])
      (auto intro!: rel_and_then [OF hc] simp: same_world_def)
qed

section \<open>Properties\<close>

lemma format_health_map: "format_health_data_old_new data = map (\<lambda>(check, _). if check then CHR ''1'' else CHR ''0'') (rev data)"
proof -
  have "fold (\<lambda>(check, _) s. s @ (if check then ''1'' else ''0'')) xs s =
      s @ map (\<lambda>(check, _). if check then CHR ''1'' else CHR ''0'') xs" for xs :: "(bool \<times> u128) list" and s
    by (induction xs arbitrary: s) auto
  then show ?thesis by (simp add: format_health_data_old_new_def)
qed

text \<open>The printed health history: after any sequence of check results, what \<open>status\<close> prints as
  \<open>Old > New\<close> is the results of the last checks in the order in which they happened, one digit each, and
  as many of them as the larger threshold.\<close>

theorem printed_history:
  "format_health_data_old_new (hm_recent (inner_reports cfg rs health_master_inner_new)) =
     map (\<lambda>(check, _). if check then CHR ''1'' else CHR ''0'') (drop (length rs - history_cap cfg) rs)"
proof -
  have "hm_recent (inner_reports cfg rs health_master_inner_new) = take (history_cap cfg) (rev rs)"
    unfolding inner_reports_def by (rule hlog.contents_pushes)
  then show ?thesis by (simp add: format_health_map take_rev)
qed

text \<open>\<open>ebbflow status\<close> shows the daemon's own status: if the address file holds the address of the info
  server, the request to it is answered by the handler, and the status can be serialized by a JSON
  codec that round-trips, then the command succeeds and prints exactly the lines for the status of
  the running daemon, and no file is changed.\<close>

lemma status_prints_daemon:
  assumes "json_roundtrip j" and "read_addr (cv_host cv) (cl_fs s) = Ok a"
    and "http (status_url a) = Ok (handle j ''/unstable_status'' d)"
    and "json_to_string j (runner_status d) \<noteq> None"
  shows "status cv j http je now s = (Returns (Ok ()), printlns (print_status now (runner_status d)) s)"
  using assms by (auto simp: status_def handle_def json_roundtrip_def)

text \<open>The configuration with just the endpoint that the arguments of \<open>run-blocking\<close> describe.\<close>

definition blocking_config :: "run_blocking_args \<Rightarrow> string \<Rightarrow> u16 \<Rightarrow> daemon_config" where
  "blocking_config args dns port =
     \<lparr>cfg_endpoints = [\<lparr>ep_port = port, ep_dns = dns, ep_maxconns = unwrap_or (rb_maxconns args) 5000,
        ep_maxidle = unwrap_or (rb_maxidle args) 10, ep_enabled = True,
        ep_healthcheck = health_check_of_args (rb_healthcheck_port args) (rb_healthcheck_frequency_secs args)
          (rb_healthcheck_consider_healthy args) (rb_healthcheck_consider_unhealthy args)\<rparr>],
      cfg_ssh = None, cfg_loglevel = None\<rparr>"

lemma spawn_cap_args:
  "spawn_endpoint env (blocking_endpoint_args args dns port) w =
   spawn_endpointasdfsfa env (hd (cfg_endpoints (blocking_config args dns port))) w"
proof -
  have "min (ucast (unwrap_or (rb_maxidle args) 10)) MAX_IDLE =
      min (ucast (min (unwrap_or (rb_maxidle args) 10) (of_nat MAX_MAX_IDLE))) MAX_IDLE"
    by (simp add: ucast_min MAX_IDLE_def MAX_MAX_IDLE_def)
  then show ?thesis
    by (simp add: spawn_endpointasdfsfa_def spawn_endpoint_def blocking_endpoint_args_def blocking_config_def Let_def
        cong: option.case_cong)
qed

text \<open>Two runs that agree: the same outcome, and the same shared information, messages and tasks when they run on.\<close>

fun same_run :: "'roots blocking \<Rightarrow> 'roots blocking \<Rightarrow> bool" where
  "same_run (BlockRunning i d) (BlockRunning j e) = (i = j \<and> same_world d e)"
| "same_run b c = (b = c)"

lemma same_run_refl [simp]: "same_run b b"
  by (cases b) (simp_all add: same_world_def)

lemma update_config_single:
  "update_config env (Some (blocking_config args dns port)) (Some k) daemon_new =
     and_then (spawn_endpoint env (blocking_endpoint_args args dns port)
         (daemon_new\<lparr>d_key := Some k, d_statusmeta := Good, d_endpoints := []\<rparr>))
       (\<lambda>(i, d). Ok (insert_endpoint (hd (cfg_endpoints (blocking_config args dns port))) (Enabled i) d))"
proof -
  let ?d = "daemon_new\<lparr>d_key := Some k, d_statusmeta := Good, d_endpoints := []\<rparr>"
  have ssh: "d_ssh d = None" if "spawn_endpoint env (blocking_endpoint_args args dns port) ?d = Inr (i, d)" for i d
  proof -
    from spawn_endpoint_Inr [OF that] have "world.more d = world.more ?d" by blast
    from daemon_more_eq(2) [OF this] show ?thesis by (simp add: daemon_new_def)
  qed
  have "update_config env (Some (blocking_config args dns port)) (Some k) daemon_new =
      and_then (and_then (spawn_endpoint env (blocking_endpoint_args args dns port) ?d)
        (\<lambda>(i, d). Ok (insert_endpoint (hd (cfg_endpoints (blocking_config args dns port))) (Enabled i) d)))
        (apply_ssh env None)"
    unfolding spawn_cap_args
    by (simp add: update_config_def blocking_config_def daemon_new_def apply_endpoint_def start_endpoint_def
        and_then_def split: sum.splits)
  then show ?thesis
    by (cases "spawn_endpoint env (blocking_endpoint_args args dns port) ?d") (auto simp: apply_ssh_def dest: ssh)
qed

lemma spawn_update_agree:
  "rel_sum (=) (\<lambda>(i, d) e. same_world d e)
     (spawn_endpoint env (blocking_endpoint_args args dns port) daemon_new)
     (update_config env (Some (blocking_config args dns port)) (Some k) daemon_new)"
proof -
  have "rel_sum (=) (rel_prod (=) same_world)
      (spawn_endpoint env (blocking_endpoint_args args dns port) daemon_new)
      (spawn_endpoint env (blocking_endpoint_args args dns port)
         (daemon_new\<lparr>d_key := Some k, d_statusmeta := Good, d_endpoints := []\<rparr>))"
    by (rule same_world_spawn) (simp add: same_world_def)
  then show ?thesis
    unfolding update_config_single
    by (cases rule: rel_sum.cases) (auto simp: insert_endpoint_def same_world_def)
qed

text \<open>C13. The two ways to use \<open>run-blocking\<close> are equivalent: giving the endpoint with the options runs the same
  tasks, with the same limits and health check, and logs the same messages as a configuration file with
  just that endpoint, and it fails or halts in the same cases. The cap on idle connections that
  \<open>update_config\<close> applies and \<open>run_blocking\<close> does not makes no difference.\<close>

theorem run_blocking_same_as_config:
  assumes "rb_config_file args = None" and "rb_dns args = Some dns" and "rb_port args = Some port"
    and "load_from_file_path (cv_yaml cv) (trim f) w = Ok (blocking_config args dns port)"
  shows "same_run (run_blocking cv build roots dbg ebb_key args w)
     (run_blocking cv build roots dbg ebb_key (args\<lparr>rb_config_file := Some f\<rparr>) w)"
proof -
  have info: "blocking_info build roots (args\<lparr>rb_config_file := Some f\<rparr>) = blocking_info build roots args"
    by (simp add: blocking_info_def cong: option.case_cong)
  show ?thesis
  proof (cases "blocking_info build roots args"; cases "case ebb_key of Some k \<Rightarrow> Ok (trim k) | None \<Rightarrow> getkey (cv_host cv) w")
    fix i k
    assume "blocking_info build roots args = Inr i"
      and "(case ebb_key of Some k \<Rightarrow> Ok (trim k) | None \<Rightarrow> getkey (cv_host cv) w) = Inr k"
    with spawn_update_agree [of "cv_env cv" args dns port k] assms show ?thesis
      by (cases rule: rel_sum.cases) (auto simp: run_blocking_def info)
  qed (simp_all add: run_blocking_def info)
qed

definition demo_blocking :: run_blocking_args where
  "demo_blocking = \<lparr>rb_config_file = None, rb_dns = Some ''a.com'', rb_port = Some 80, rb_maxconns = None,
     rb_maxidle = Some 2000, rb_ebbflow_dns = None, rb_ebbflow_addr = None, rb_healthcheck_port = None,
     rb_healthcheck_consider_healthy = None, rb_healthcheck_consider_unhealthy = None,
     rb_healthcheck_frequency_secs = None\<rparr>"

definition demo_blocking_env :: cli_env where
  "demo_blocking_env = \<lparr>cv_yaml = yaml_of (blocking_config demo_blocking ''a.com'' 80), cv_host = demo_host, cv_env = demo_env\<rparr>"

text \<open>Both runs of the witness get as far as running the task, with the idle limit cut to 1000.\<close>

theorem run_blocking_same_as_config_witness:
  "\<exists>i d e. run_blocking demo_blocking_env (\<lambda>_. Some (\<lambda>_. LookupTimedOut)) () (\<lambda>_. []) (Some ''k'') demo_blocking
       (demo_fs\<lparr>fs_files := [''f'' \<mapsto> ''doc'']\<rparr>) = BlockRunning i d \<and>
     run_blocking demo_blocking_env (\<lambda>_. Some (\<lambda>_. LookupTimedOut)) () (\<lambda>_. []) (Some ''k'')
       (demo_blocking\<lparr>rb_config_file := Some ''f''\<rparr>) (demo_fs\<lparr>fs_files := [''f'' \<mapsto> ''doc'']\<rparr>) = BlockRunning i e \<and>
     wd_tasks d = wd_tasks e \<and> map (ea_idleconns \<circ> tk_args) (wd_tasks d) = [1000]"
proof -
  let ?run = "\<lambda>args. run_blocking demo_blocking_env (\<lambda>_. Some (\<lambda>_. LookupTimedOut)) () (\<lambda>_. []) (Some ''k'') args
       (demo_fs\<lparr>fs_files := [''f'' \<mapsto> ''doc'']\<rparr>)"
  have t: "trim ''f'' = ''f''" by code_simp
  have same: "same_run (?run demo_blocking) (?run (demo_blocking\<lparr>rb_config_file := Some ''f''\<rparr>))"
    by (rule run_blocking_same_as_config [of _ "''a.com''" 80])
      (simp_all add: demo_blocking_def demo_blocking_env_def t load_from_file_path_def fs_read_def demo_fs_def yaml_of_def)
  obtain i d where "?run demo_blocking = BlockRunning i d" and "map (ea_idleconns \<circ> tk_args) (wd_tasks d) = [1000]"
    by (simp add: run_blocking_def Let_def log_message_def blocking_info_def shared_info_new_def innernew_def dns_resolver_new_def demo_blocking_def
        spawn_endpoint_def blocking_endpoint_args_def get_addrs_def demo_blocking_env_def demo_env_def
        health_check_of_args_def daemon_new_def MAX_IDLE_def)
  with same show ?thesis
    by (cases "?run (demo_blocking\<lparr>rb_config_file := Some ''f''\<rparr>)") (auto simp: same_world_def)
qed

end
