(* ===== verification/Spec2Isabelle.thy ===== *)
theory Spec2Isabelle
  imports Messaging Message_Queue Config Health Signal Shared_Info Endpoint Supervisor Connection_Props
    Conn_Pool Runner_Props Runner_Spec Info_Server Daemon_Main Service Cli_Props Cli_Init Cli_Status
begin

text \<open>
  A verification development for the Ebbflow client (\<open>src/src\<close>, Rust). The client is two programs that
  meet in a directory of files. The daemon \<open>ebbflowd\<close> reads a configuration and a host key from the
  directory, watches it for changes, and keeps one task for each enabled endpoint; the task holds a pool
  of TLS connections to Ebbflow, each of which is bound to a connection to a local server when Ebbflow
  asks for it. The command line \<open>ebbflow\<close> edits the files, asks the daemon for its status over a local HTTP
  server whose address is a third file, or runs endpoints itself.

  \<^bold>\<open>Theories and sources.\<close> Each theory models one part, with its operations under the names of the code.

  \<^item> \<open>Ebb_Prelude\<close>: machine integers, \<open>Result\<close>, strings, big-endian bytes, ordered maps, the collections
    \<open>ebb_run\<close> and \<open>ebb_files\<close>, and the locale \<open>step_invariant\<close> of a step relation and its invariant.
  \<^item> \<open>Messaging\<close> (\<open>messaging.rs\<close>): the messages, frames and their parser.
  \<^item> \<open>Bounded_Log\<close>, \<open>Message_Queue\<close> (\<open>messagequeue.rs\<close>): a bounded log as a locale, and the daemon's messages
    as an instance of it; the health memory is the other instance.
  \<^item> \<open>Config\<close> (\<open>config.rs\<close>): the files over a file system with faults, their formats and errors.
  \<^item> \<open>Health\<close> (\<open>daemon/health.rs\<close>): the health memory and its flag.
  \<^item> \<open>Signal\<close> (\<open>signal.rs\<close>): the stop signal over a watch channel.
  \<^item> \<open>Shared_Info\<close> (\<open>dns.rs\<close> and \<open>SharedInfo\<close> of \<open>daemon/mod.rs\<close>): the resolver and the address of Ebbflow.
  \<^item> \<open>Endpoint\<close>, \<open>Supervisor\<close> (\<open>daemon/mod.rs\<close>): the start of an endpoint, and its task as the step relation
    \<open>sup_step\<close> of health checks, connection groups and stopping.
  \<^item> \<open>Connection\<close>, \<open>Connection_Props\<close> (\<open>daemon/connection.rs\<close>): the handshake, the local connection, the
    bookkeeping of one connection, and the proxy as two copies whose reads, partial writes and flushes
    interleave.
  \<^item> \<open>Conn_Pool\<close> (\<open>inner_run_endpoint\<close> of \<open>daemon/mod.rs\<close>): the pool as the step relation \<open>pool_step\<close>, in which
    the effects of the connections of theory \<open>Connection\<close> interleave, among those of earlier groups on the
    counters they share.
  \<^item> \<open>Runner\<close>, \<open>Runner_Props\<close>, \<open>Runner_Spec\<close> (\<open>lib.rs\<close>): the daemon's state, \<open>update_config\<close>, \<open>status\<close> and
    \<open>run_daemon\<close>, its invariants over the locale \<open>daemon_invariant\<close>, and a specification of which tasks run.
  \<^item> \<open>Info_Server\<close> (\<open>infoserver.rs\<close>): the handler and the loop that publishes the address.
  \<^item> \<open>Daemon_Main\<close>, \<open>Service\<close> (\<open>ebbflowd.rs\<close>): reading the files, the watcher and the reload loop as the step
    relation \<open>daemon_step\<close>, which interleaves with the changes of the files (\<open>files_step\<close>) in \<open>system_step\<close>,
    and the start and end of the process on Unix and Windows.
  \<^item> \<open>Cli\<close>, \<open>Cli_Props\<close>, \<open>Cli_Init\<close>, \<open>Cli_Status\<close> (\<open>ebbflow.rs\<close>): the configuration commands over the locale
    \<open>config_edit\<close> of an edit that keeps the names distinct, \<open>init\<close>, \<open>status\<close> and \<open>run-blocking\<close>.

  \<^bold>\<open>State and effects.\<close> A struct is a record, an enum a datatype, a \<open>Result\<close> a sum with the error on the left.
  \<open>u16\<close>, \<open>u32\<close> and \<open>usize\<close> are words of 16, 32 and 64 bits, so casts truncate and counters wrap as in the
  code. The daemon's state extends the world of theory \<open>Endpoint\<close>, the message queue and the list of all
  tasks ever started; a task is an index into it. The mutexes run one operation at a time, so an
  operation is a function on the state; what runs concurrently is a step relation. Files are a map from
  paths with faults for reading and writing. A panic, an exit and a call that does not return are values.
  Libraries are parameters with their documented laws as named hypotheses: \<open>cbor\<close>, \<open>yaml_roundtrip\<close> and
  \<open>json_roundtrip\<close> for the codecs, \<open>watch_laws\<close>, \<open>semaphore_laws\<close> and \<open>notify_laws\<close> for tokio. What the network,
  the operating system and the user do is an input.

  \<^bold>\<open>What is shown.\<close>
  The daemon runs exactly the tasks that the configuration asks for, owns each once, restarts only what
  changed, and every update returns where names resolve (\<open>Runner_Props\<close>, \<open>Runner_Spec\<close>); no change of the
  files is lost in any interleaving, and the daemon's own steps always come to rest with the changes
  applied (\<open>Daemon_Main\<close>). A task has a connection group exactly while it is healthy, and ends after a
  stop (\<open>Supervisor\<close>); the health flag is that of the unbounded history (\<open>Health\<close>); the pool never exceeds
  its limits and fills up to them (\<open>Conn_Pool\<close>); a connection serves traffic only after a complete
  handshake, reads bounded messages, keeps its counts balanced, sleeps and reports after an error, and
  copies bytes unchanged (\<open>Connection_Props\<close>). Messages and files round-trip (\<open>Messaging\<close>, \<open>Config\<close>). The
  commands keep the file well-formed, change what they are to change, and nothing when they fail, but
  for a write that fails half way (\<open>Cli_Props\<close>); \<open>init\<close> writes what was answered (\<open>Cli_Init\<close>); \<open>run-blocking\<close>
  is equivalent to a configuration file (\<open>Cli_Status\<close>). This theory puts the parts together: disabling an
  endpoint on the command line stops its task, and \<open>ebbflow status\<close> prints what the daemon does.

  \<^bold>\<open>Loops and fuel.\<close> No definition takes fuel. Loops over inputs are recursive on the list of what the
  operating system or the network answers, and a loop that has used its answers up is still waiting
  (\<open>Hang\<close> or \<open>None\<close>). The loops of \<open>SignalReceiver::wait\<close> and of the questions of \<open>init\<close> are partial functions
  in which not returning is \<open>None\<close>; that they return is shown where they do, and that the question does not
  at the end of standard input.

  \<^bold>\<open>Bounds.\<close> A \<open>char\<close> is a Unicode scalar value below 256; white space, lower case and UTF-8 lengths are exact
  there. Delays are counted in milliseconds and kept as values.

  \<^bold>\<open>Not modelled.\<close> \<open>certs.rs\<close> holds eight PEM constants that rustls parses: there is no logic of the program's own,
  and the store is opaque data of \<open>SharedInfo\<close>. The parsing of the command line is derived by clap from
  attributes. Logging goes to back ends of other crates, so log lines and the set-up of the loggers are
  left out; what is printed to the user and what is queued as a daemon message is modelled. The TLS
  library is an outcome of the connection attempt. A change of the files and the event it leaves for the
  watcher are one step, what the watcher does with the event another; a write in pieces is several
  changes. An error of the watcher itself panics in its thread and is not a step of \<open>daemon_step\<close>.
\<close>

section \<open>From the command line to the running tasks\<close>

lemma settled_reload:
  assumes "notify_laws ops pending" "system_reach ops y h env dbg (system_start ops w) S" "settled ops S"
    and "config_reload y h (sy_fs S) = Ok (Some c, Some k)" "distinct (map ep_dns (cfg_endpoints c))"
  shows "running (sy_daemon S) = wanted env c" "runner_inv (sy_daemon S)"
    "configured (sy_daemon S) = config_map (cfg_endpoints c)"
proof -
  obtain d0 where d0: "daemon_ok d0" "reload_step env dbg (Ok (Some c, Some k)) d0 = Ok (sy_daemon S)"
    using settled_daemon [OF assms(1-3)] assms(4) by auto
  then show "running (sy_daemon S) = wanted env c" "runner_inv (sy_daemon S)"
    using reload_running [OF d0(2,1) assms(5)] ok_daemon.inv_reload_step [OF d0(2,1)] by (simp_all add: daemon_ok_def)
  show "configured (sy_daemon S) = config_map (cfg_endpoints c)"
    by (rule update_config_configured [of env c "Some k" d0]) (use d0(2) in \<open>simp_all add: reload_step_def keyed_def\<close>)
qed

lemma save_keeps_key: "save_to_file y h c w = (r, w') \<Longrightarrow> getkey h w' = getkey h w"
  using save_to_file_other [of y h c w r w' "key_file_full h"] by (simp add: getkey_def)

lemma wanted_ssh_type: "a \<in># wanted_ssh env s \<Longrightarrow> ea_ctype a = Ssh"
  by (cases s) (auto simp: wanted_ssh_def ssh_task_args_def split: sum.splits if_splits)

lemma wanted_disabled:
  assumes "a \<in># wanted env (with_enabled False dns c)" "ea_ctype a = Tls"
  shows "ea_endpoint a \<noteq> dns"
proof -
  have "a \<notin># wanted_ssh env (cfg_ssh (with_enabled False dns c))" using assms(2) wanted_ssh_type by fastforce
  with assms(1) obtain e where e: "e \<in> set (cfg_endpoints c)" "a = endpoint_task_args e" "ep_dns e \<noteq> dns"
    by (auto simp: wanted_def with_enabled_def split: if_splits)
  then show ?thesis by (simp add: endpoint_task_args_def)
qed

lemma names_with_enabled: "map ep_dns (cfg_endpoints (with_enabled b dns c)) = map ep_dns (cfg_endpoints c)"
  by (simp add: with_enabled_def comp_def cong: if_cong)

text \<open>C1. Disabling an endpoint reaches the daemon: when \<open>ebbflow disable\<close> has written its file, and the daemon,
  whatever it was doing meanwhile, has come to rest with these files, then the daemon runs the tasks of
  the old configuration without that endpoint; no task serves its name, and all others run as before.\<close>

theorem disable_takes_effect:
  assumes "notify_laws ops pending" and "yaml_roundtrip (cv_yaml cv)" and "disk_ok cv (cl_fs s)"
    and "load_from_file_or_new (cv_yaml cv) (cv_host cv) (cl_fs s) = Ok c" and "names_distinct c"
    and "yaml_to_string (cv_yaml cv) (with_enabled False dns c) \<noteq> None"
    and "getkey (cv_host cv) (cl_fs s) = Ok k"
    and "ed_target args = TargetEndpoint dns" and "run_config_command cv (CmdDisable args) s = (r, s')"
    and "system_reach ops (cv_yaml cv) (cv_host cv) env dbg (system_start ops w) S" and "settled ops S"
    and "sy_fs S = cl_fs s'"
  shows "running (sy_daemon S) = wanted env (with_enabled False dns c) \<and>
    (\<forall>a. a \<in># running (sy_daemon S) \<longrightarrow> ea_ctype a = Tls \<longrightarrow> ea_endpoint a \<noteq> dns)"
proof -
  have sv: "save_to_file (cv_yaml cv) (cv_host cv) (with_enabled False dns c) (cl_fs s) = (Inr (), cl_fs s')"
    using enable_disable_saves [OF assms(2-6) assms(8), of r s'] assms(9) by simp
  have "config_reload (cv_yaml cv) (cv_host cv) (sy_fs S) = Ok (Some (with_enabled False dns c), Some k)"
    using load_or_new_after_save(1) [OF assms(2,3) sv] save_keeps_key [OF sv] assms(7,12)
    by (simp add: reloads)
  from settled_reload(1) [OF assms(1,10,11) this]
  have "running (sy_daemon S) = wanted env (with_enabled False dns c)"
    using assms(5) by (simp add: names_with_enabled names_distinct_def)
  then show ?thesis using wanted_disabled by auto
qed

text \<open>The command line of the witness works on the files of \<open>demo_cli\<close> and a key.\<close>

definition demo_keyed :: cli where
  "demo_keyed = demo_cli\<lparr>cl_fs := (cl_fs demo_cli)\<lparr>fs_files := (fs_files (cl_fs demo_cli))(key_file_full demo_host \<mapsto> ''k'')\<rparr>\<rparr>"

lemma demo_keyed_files:
  "disk_ok demo_cli_env (cl_fs demo_keyed)" "getkey (cv_host demo_cli_env) (cl_fs demo_keyed) = Ok ''k''"
  "load_from_file_or_new (cv_yaml demo_cli_env) (cv_host demo_cli_env) (cl_fs demo_keyed) = Ok demo_config"
proof -
  have "trim ''k'' = ''k''" by code_simp
  then show "getkey (cv_host demo_cli_env) (cl_fs demo_keyed) = Ok ''k''"
    by (simp add: getkey_def fs_read_def demo_keyed_def demo_cli_def demo_cli_env_def)
  show "load_from_file_or_new (cv_yaml demo_cli_env) (cv_host demo_cli_env) (cl_fs demo_keyed) = Ok demo_config"
    by (simp add: load_from_file_or_new_def ebb_files demo_keyed_def
        demo_cli_def demo_cli_env_def demo_yaml_def)
  show "disk_ok demo_cli_env (cl_fs demo_keyed)" by (simp add: disk_ok_def demo_keyed_def demo_cli_def)
qed

lemma demo_settles:
  "\<exists>S. system_reach flag_notifier y h demo_env dbg (system_start flag_notifier w) S \<and> settled flag_notifier S \<and> sy_fs S = w"
proof -
  let ?S0 = "system_start flag_notifier w"
  obtain S where r: "daemon_reach flag_notifier y h demo_env dbg ?S0 S"
    and stuck: "\<nexists>S'. daemon_step flag_notifier y h demo_env dbg S S'"
    using daemon_rests [OF flag_notifier_laws] by blast
  have "will_read flag_notifier S"
    by (rule will_read_reach [OF flag_notifier_laws _ r]) (simp add: will_read_def system_start_def)
  from stuck_settled [OF demo_env_total this stuck] daemon_reach_system [OF r] daemon_keeps_files [OF r]
  show ?thesis by (auto simp: system_start_def)
qed

theorem disable_takes_effect_witness:
  "\<exists>S :: bool system.
     sy_fs S = cl_fs (snd (run_config_command demo_cli_env (CmdDisable (demo_target False)) demo_keyed)) \<and>
     running (sy_daemon S) = {#}"
proof -
  let ?c = "with_enabled False ''a.com'' demo_config"
  have c: "?c = demo_disabled"
    by (simp add: with_enabled_def demo_disabled_def demo_config_def demo_endpoint_def)
  have y: "yaml_to_string (cv_yaml demo_cli_env) ?c \<noteq> None" unfolding c by (simp add: demo_cli_env_def demo_yaml_def)
  have n: "names_distinct demo_config" by (simp add: names_distinct_def demo_config_def)
  have t: "ed_target (demo_target False) = TargetEndpoint ''a.com''" by (simp add: demo_target_def)
  obtain S where S: "system_reach flag_notifier (cv_yaml demo_cli_env) (cv_host demo_cli_env) demo_env (\<lambda>_. [])
      (system_start flag_notifier (cl_fs (snd (run_config_command demo_cli_env (CmdDisable (demo_target False)) demo_keyed)))) S"
    "settled flag_notifier S" "sy_fs S = cl_fs (snd (run_config_command demo_cli_env (CmdDisable (demo_target False)) demo_keyed))"
    using demo_settles by blast
  from disable_takes_effect [OF flag_notifier_laws demo_yaml_roundtrip demo_keyed_files(1,3) n y demo_keyed_files(2) t
      prod.collapse [symmetric] S]
  have "running (sy_daemon S) = wanted demo_env demo_disabled" by (simp add: c)
  with S(3) show ?thesis
    by (intro exI [of _ S]) (simp add: wanted_def wanted_ssh_def demo_disabled_def demo_config_def)
qed

section \<open>From the running tasks to the status\<close>

lemma status_line:
  assumes "runner_inv d" "configured d = config_map (cfg_endpoints c)" "distinct (map ep_dns (cfg_endpoints c))"
    and "e \<in> set (cfg_endpoints c)"
  shows "\<exists>width rest. pad width (ep_dns e) @ tab @ (if ep_enabled e then ''Enabled'' else ''Disabled'') @ rest
    \<in> set (print_status now (runner_status d))"
proof -
  let ?eps = "ds_endpoints (runner_status d)"
  note st = status_entries [OF assms(1,2)]
  obtain x where x: "(ep_dns e, x) \<in> set ?eps" using st assms(4) by fastforce
  with st config_map_distinct [OF assms(3,4)] have en: "x = StatusDisabled \<longleftrightarrow> \<not> ep_enabled e"
    by (fastforce split: if_splits)
  let ?line = "print_status_line (ep_dns e) x (max_len (map fst ?eps)) True"
  have "?line \<in> set (print_status now (runner_status d))"
    using x by (auto simp: print_status_def Let_def intro!: image_eqI [of _ _ "(ep_dns e, x)"])
  moreover have "\<exists>rest. ?line = pad (max_len (map fst ?eps)) (ep_dns e) @ tab
      @ (if ep_enabled e then ''Enabled'' else ''Disabled'') @ rest"
    using en by (cases x) (auto simp: print_status_line_def)
  ultimately show ?thesis by metis
qed

text \<open>C8. The status is the truth: when the info server has published its address, its handler answers the
  request, and the daemon has come to rest with files that hold a configuration with distinct names,
  \<open>ebbflow status\<close> succeeds, changes no file, and prints one line for each configured endpoint that says
  whether it is enabled, which is whether it is running.\<close>

theorem status_end_to_end:
  assumes "notify_laws ops pending"
    and "system_reach ops (cv_yaml cv) (cv_host cv) env dbg (system_start ops w) S" and "settled ops S"
    and "config_reload (cv_yaml cv) (cv_host cv) (sy_fs S) = Ok (Some c, Some k)"
    and "distinct (map ep_dns (cfg_endpoints c))"
    and "run_info_server (cv_host cv) rs w0 = (evs, cl_fs s)" and "evs \<noteq> []" and "last evs = Serving a"
    and "fs_read_fault w0 (addr_file_full (cv_host cv)) = None"
    and "json_roundtrip j" and "json_to_string j (runner_status (sy_daemon S)) \<noteq> None"
    and "http (status_url a) = Ok (handle j ''/unstable_status'' (sy_daemon S))"
  shows "\<exists>lines. status cv j http je now s = (Returns (Ok ()), printlns lines s) \<and>
    (\<forall>e \<in> set (cfg_endpoints c). \<exists>width rest.
       pad width (ep_dns e) @ tab @ (if ep_enabled e then ''Enabled'' else ''Disabled'') @ rest \<in> set lines) \<and>
    running (sy_daemon S) = wanted env c"
proof -
  note sys = settled_reload [OF assms(1-5)]
  have "read_addr (cv_host cv) (cl_fs s) = Ok a" by (rule run_info_server_published [OF assms(6,9,7,8)])
  from status_prints_daemon [where http = http and je = je and now = now, OF assms(10) this assms(12,11)] status_line [OF sys(2,3) assms(5)] sys(1)
  show ?thesis by (intro exI [of _ "print_status now (runner_status (sy_daemon S))"]) simp
qed

definition demo_status_json :: json where
  "demo_status_json =
     \<lparr>json_to_string = (\<lambda>x. if x = runner_status demo_daemon then Some ''{}'' else None),
      json_from_string = (\<lambda>s. if s = ''{}'' then Some (runner_status demo_daemon) else None)\<rparr>"

definition demo_server_fs :: fs where
  "demo_server_fs = snd (run_info_server demo_host [\<lparr>sr_bind = Ok 4711, sr_ends = False\<rparr>] demo_files)"

theorem status_end_to_end_witness:
  "\<exists>lines. status \<lparr>cv_yaml = yaml_of demo_config, cv_host = demo_host, cv_env = demo_env\<rparr> demo_status_json
       (\<lambda>_. Ok (handle demo_status_json ''/unstable_status'' demo_daemon)) [] ''now'' (demo_cli\<lparr>cl_fs := demo_server_fs\<rparr>)
       = (Returns (Ok ()), printlns lines (demo_cli\<lparr>cl_fs := demo_server_fs\<rparr>)) \<and>
     (\<exists>width rest. pad width ''a.com'' @ tab @ ''Enabled'' @ rest \<in> set lines)"
proof -
  let ?cv = "\<lparr>cv_yaml = yaml_of demo_config, cv_host = demo_host, cv_env = demo_env\<rparr>"
  let ?s = "demo_cli\<lparr>cl_fs := demo_server_fs\<rparr>"
  have srv: "run_info_server demo_host [\<lparr>sr_bind = Ok 4711, sr_ends = False\<rparr>] demo_files = ([Serving (server_addr 4711)], demo_server_fs)"
    by (simp add: demo_server_fs_def write_addr_def demo_files_def fs_write_def demo_fs_def)
  have d: "sy_daemon demo_idle = demo_daemon" and f: "sy_fs demo_idle = demo_files"
    by (simp_all add: demo_idle_def system_start_def)
  have "\<exists>lines. status ?cv demo_status_json (\<lambda>_. Ok (handle demo_status_json ''/unstable_status'' demo_daemon)) [] ''now'' ?s
       = (Returns (Ok ()), printlns lines ?s) \<and>
     (\<forall>e \<in> set (cfg_endpoints demo_config). \<exists>width rest.
       pad width (ep_dns e) @ tab @ (if ep_enabled e then ''Enabled'' else ''Disabled'') @ rest \<in> set lines) \<and>
     running (sy_daemon demo_idle) = wanted demo_env demo_config"
  proof (rule status_end_to_end [OF flag_notifier_laws])
    show "system_reach flag_notifier (cv_yaml ?cv) (cv_host ?cv) demo_env (\<lambda>_. []) (system_start flag_notifier demo_files) demo_idle"
      using demo_idle_reach by simp
    show "settled flag_notifier demo_idle"
      by (simp add: settled_def undelivered_def demo_idle_def system_start_def flag_notifier_def)
    show "config_reload (cv_yaml ?cv) (cv_host ?cv) (sy_fs demo_idle) = Ok (Some demo_config, Some ''k'')"
      by (simp add: f demo_files_reload)
    show "run_info_server (cv_host ?cv) [\<lparr>sr_bind = Ok 4711, sr_ends = False\<rparr>] demo_files = ([Serving (server_addr 4711)], cl_fs ?s)"
      using srv by simp
    show "json_roundtrip demo_status_json" by (simp add: json_roundtrip_def demo_status_json_def)
  qed (simp_all add: d demo_status_json_def demo_config_def demo_files_def demo_fs_def)
  then show ?thesis by (auto simp: demo_config_def demo_endpoint_def)
qed

end
